(* ===== verification/Prelude.thy ===== *)
theory Prelude
  imports Main "HOL-Library.Word" "HOL-Library.Sublist" "HOL-Library.Char_ord"
begin

text \<open>
  Shared vocabulary of the development: the bytes the client's scanners compare against,
  NUL-terminated C strings and the C and \<^verbatim>\<open>strings/\<close> library routines the
  client calls on them, and the generic lemmas on lists, options and words that the
  component theories use.

  A C string is the list of the bytes before its NUL. A pointer into such a string is the
  suffix it points at, so \<open>*p\<close> is \<open>ch_at p 0\<close>, \<open>p[i]\<close> is \<open>ch_at p i\<close> and
  \<open>p + i\<close> is \<open>drop i p\<close>; reading at the end gives the NUL. A character array is the
  list of all its bytes, NULs included.
\<close>

section \<open>Bytes\<close>

abbreviation NUL :: char where "NUL \<equiv> CHR 0x00"
abbreviation TAB :: char where "TAB \<equiv> CHR 0x09"
abbreviation NL :: char where "NL \<equiv> CHR 0x0A"
abbreviation CR :: char where "CR \<equiv> CHR 0x0D"
abbreviation DQ :: char where "DQ \<equiv> CHR 0x22"
abbreviation SQ :: char where "SQ \<equiv> CHR 0x27"
abbreviation BSL :: char where "BSL \<equiv> CHR 0x5C"
abbreviation BQ :: char where "BQ \<equiv> CHR 0x60"

type_synonym cstring = string

named_theorems cstr_simps \<open>evaluation of the C string routines\<close>
named_theorems scan_len \<open>length bounds of the scanners, used in termination proofs\<close>

section \<open>NUL-terminated strings\<close>

definition ch_at :: "cstring \<Rightarrow> nat \<Rightarrow> char" where
  "ch_at s i = (if i < length s then s ! i else NUL)"

definition cstr :: "string \<Rightarrow> cstring" where
  "cstr buf = takeWhile (\<lambda>c. c \<noteq> NUL) buf"

text \<open>No byte of the string is the NUL.\<close>

definition is_cstr :: "string \<Rightarrow> bool" where
  "is_cstr s \<longleftrightarrow> NUL \<notin> set s"

lemma ch_at_Nil [simp, cstr_simps]: "ch_at [] i = NUL"
  by (simp add: ch_at_def)

lemma ch_at_Cons_0 [simp, cstr_simps]: "ch_at (c # s) 0 = c"
  by (simp add: ch_at_def)

lemma ch_at_Cons_Suc [simp, cstr_simps]: "ch_at (c # s) (Suc i) = ch_at s i"
  by (simp add: ch_at_def)

lemma ch_at_Cons_numeral [simp, cstr_simps]:
  "ch_at (c # s) (numeral k) = ch_at s (pred_numeral k)"
  by (simp add: numeral_eq_Suc)

lemma ch_at_0_drop: "ch_at s i = ch_at (drop i s) 0"
  by (auto simp: ch_at_def)

lemma ch_at_0_hd: "s \<noteq> [] \<Longrightarrow> ch_at s 0 = hd s"
  by (cases s) auto

lemma cstr_Nil [simp, cstr_simps]: "cstr [] = []"
  by (simp add: cstr_def)

lemma cstr_Cons [cstr_simps]: "cstr (c # s) = (if c = NUL then [] else c # cstr s)"
  by (simp add: cstr_def)

lemma cstr_id: "is_cstr s \<Longrightarrow> cstr s = s"
  unfolding cstr_def is_cstr_def by (rule takeWhile_eq_all_conv [THEN iffD2]) auto

lemma is_cstr_cstr [simp]: "is_cstr (cstr s)"
  unfolding cstr_def is_cstr_def using set_takeWhileD by fastforce

lemma cstr_cstr [simp]: "cstr (cstr s) = cstr s"
  by (rule cstr_id) simp

lemma length_cstr_le [scan_len]: "length (cstr s) \<le> length s"
  by (simp add: cstr_def length_takeWhile_le)

lemma cstr_append_NUL: "is_cstr s \<Longrightarrow> cstr (s @ NUL # t) = s"
  unfolding cstr_def is_cstr_def by (induction s) auto

lemma is_cstr_Nil [simp]: "is_cstr []"
  by (simp add: is_cstr_def)

lemma is_cstr_Cons [simp]: "is_cstr (c # s) \<longleftrightarrow> c \<noteq> NUL \<and> is_cstr s"
  by (auto simp: is_cstr_def)

lemma is_cstr_append [simp]: "is_cstr (s @ t) \<longleftrightarrow> is_cstr s \<and> is_cstr t"
  by (auto simp: is_cstr_def)

lemma is_cstr_drop [simp]: "is_cstr s \<Longrightarrow> is_cstr (drop n s)"
  by (auto simp: is_cstr_def dest: in_set_dropD)

lemma is_cstr_take [simp]: "is_cstr s \<Longrightarrow> is_cstr (take n s)"
  by (auto simp: is_cstr_def dest: in_set_takeD)

lemma ch_at_append_length [simp]: "ch_at (xs @ ys) (length xs) = ch_at ys 0"
  by (auto simp: ch_at_def nth_append)

lemma ch_at_append_Suc [simp]: "ch_at (xs @ ys) (Suc (length xs)) = ch_at ys 1"
  by (auto simp: ch_at_def nth_append)

lemma cstr_append: "is_cstr xs \<Longrightarrow> cstr (xs @ ys) = xs @ cstr ys"
  by (induction xs) (auto simp: cstr_Cons)

section \<open>Library routines on strings\<close>

text \<open>\<open>is_prefix(s, t)\<close>: whether \<open>s\<close> starts with \<open>t\<close>.\<close>

fun is_prefix :: "cstring \<Rightarrow> cstring \<Rightarrow> bool" where
  "is_prefix s [] = True"
| "is_prefix s (c # t) = (if ch_at s 0 \<noteq> c then False else is_prefix (drop 1 s) t)"

lemma is_prefix_iff: "is_cstr t \<Longrightarrow> is_prefix s t \<longleftrightarrow> prefix t s"
proof (induction s t rule: is_prefix.induct)
  case (1 s)
  then show ?case by simp
next
  case (2 s c t)
  then show ?case by (cases s) auto
qed

text \<open>\<open>strcont(str, set)\<close>: the suffix at the first byte of \<open>str\<close> that is in \<open>set\<close>.\<close>

fun strcont :: "cstring \<Rightarrow> cstring \<Rightarrow> cstring option" where
  "strcont [] cs = None"
| "strcont (c # s) cs = (if c \<in> set cs then Some (c # s) else strcont s cs)"

lemma strcont_Some: "strcont s cs = Some t \<Longrightarrow>
    \<exists>u. s = u @ t \<and> t \<noteq> [] \<and> hd t \<in> set cs \<and> set u \<inter> set cs = {}"
  by (induction s) (auto split: if_splits intro: exI [of _ "_ # _"])

lemma strcont_None: "strcont s cs = None \<longleftrightarrow> set s \<inter> set cs = {}"
  by (induction s) auto

text \<open>\<open>strchr(s, c)\<close> for a byte that is not the NUL, and \<open>strstr(s, t)\<close> as a test.\<close>

fun strchr :: "cstring \<Rightarrow> char \<Rightarrow> cstring option" where
  "strchr [] c = None"
| "strchr (d # s) c = (if d = c then Some (d # s) else strchr s c)"

fun strstr :: "cstring \<Rightarrow> cstring \<Rightarrow> cstring option" where
  "strstr [] t = (if t = [] then Some [] else None)"
| "strstr (c # s) t = (if prefix t (c # s) then Some (c # s) else strstr s t)"

lemma strchr_None: "strchr s c = None \<longleftrightarrow> c \<notin> set s"
  by (induction s) auto

lemma strchr_Some_length: "strchr s c = Some t \<Longrightarrow> length t \<le> length s"
  by (induction s) (auto split: if_splits)

lemma strstr_None: "strstr s t = None \<longleftrightarrow> \<not> sublist t s"
  by (induction s) (auto simp: sublist_Cons_right)

text \<open>\<open>strmake(dst, src, n)\<close>: the string it leaves in \<open>dst\<close>.\<close>

definition strmake :: "cstring \<Rightarrow> nat \<Rightarrow> cstring" where
  "strmake src n = take n src"

text \<open>ASCII case folding and \<open>strncasecmp(s, t, n) == 0\<close>, in the C locale.\<close>

definition to_lower_ascii :: "char \<Rightarrow> char" where
  "to_lower_ascii c =
     (if CHR ''A'' \<le> c \<and> c \<le> CHR ''Z'' then char_of (of_char c + 32 :: nat) else c)"

definition strncaseeq :: "cstring \<Rightarrow> cstring \<Rightarrow> nat \<Rightarrow> bool" where
  "strncaseeq s t n = (map to_lower_ascii (take n s) = map to_lower_ascii (take n t))"

lemma strncaseeq_refl [simp]: "strncaseeq s s n"
  by (simp add: strncaseeq_def)

lemma strncaseeq_sym: "strncaseeq s t n = strncaseeq t s n"
  by (auto simp: strncaseeq_def)

lemma strncaseeq_all: "length s = length t \<Longrightarrow> strncaseeq s t (length s)
    \<longleftrightarrow> map to_lower_ascii s = map to_lower_ascii t"
  by (simp add: strncaseeq_def)

section \<open>Decimal digits\<close>

definition is_digit :: "char \<Rightarrow> bool" where
  "is_digit c \<longleftrightarrow> CHR ''0'' \<le> c \<and> c \<le> CHR ''9''"

definition digit_val :: "char \<Rightarrow> nat" where
  "digit_val c = of_char c - 48"

definition digit_char :: "nat \<Rightarrow> char" where
  "digit_char n = char_of (48 + n)"

fun dec_str :: "nat \<Rightarrow> string" where
  "dec_str n = (if n < 10 then [digit_char n] else dec_str (n div 10) @ [digit_char (n mod 10)])"

declare dec_str.simps [simp del]

lemma dec_str_nonempty [simp]: "dec_str n \<noteq> []"
  by (subst dec_str.simps) simp

lemma digit_val_char [simp]: "n < 10 \<Longrightarrow> digit_val (digit_char n) = n"
  by (simp add: digit_val_def digit_char_def)

text \<open>\<open>atoi\<close>, for values in the range of \<open>int\<close>; behind those it is undefined.\<close>

fun digits_value :: "nat \<Rightarrow> string \<Rightarrow> nat" where
  "digits_value n [] = n"
| "digits_value n (c # s) = (if is_digit c then digits_value (10 * n + digit_val c) s else n)"

definition atoi :: "cstring \<Rightarrow> int" where
  "atoi s =
     (let s = dropWhile (\<lambda>c. c \<in> {CHR '' '', TAB, NL, CHR 0x0B, CHR 0x0C, CR}) s
      in case s of
           [] \<Rightarrow> 0
         | c # t \<Rightarrow> if c = CHR ''-'' then - int (digits_value 0 t)
                    else if c = CHR ''+'' then int (digits_value 0 t)
                    else int (digits_value 0 s))"

lemma is_digit_iff: "is_digit c \<longleftrightarrow> 48 \<le> (of_char c :: nat) \<and> (of_char c :: nat) \<le> 57"
  by (simp add: is_digit_def less_eq_char_def)

lemma is_digit_digit_char [simp]: "n < 10 \<Longrightarrow> is_digit (digit_char n)"
  by (simp add: is_digit_iff digit_char_def)

lemma digits_value_append:
  "\<forall>c \<in> set s. is_digit c \<Longrightarrow> digits_value n (s @ t) = digits_value (digits_value n s) t"
  by (induction n s rule: digits_value.induct) auto

lemma dec_str_digits: "\<forall>c \<in> set (dec_str n). is_digit c"
proof (induction n rule: dec_str.induct)
  case (1 n)
  then show ?case by (subst dec_str.simps) auto
qed

lemma digits_value_dec_str: "digits_value 0 (dec_str n) = n"
proof (induction n rule: dec_str.induct)
  case (1 n)
  then show ?case by (subst dec_str.simps) (auto simp: digits_value_append dec_str_digits)
qed

lemma digits_value_stop: "s = [] \<or> \<not> is_digit (hd s) \<Longrightarrow> digits_value n s = n"
  by (cases s) auto

lemma is_digit_not: "is_digit c \<Longrightarrow> c \<noteq> NUL \<and> c \<noteq> CHR ''-'' \<and> c \<noteq> CHR ''+''
    \<and> c \<notin> {CHR '' '', TAB, NL, CHR 0x0B, CHR 0x0C, CR}"
  by (auto simp: is_digit_iff)

lemma atoi_dec_str:
  assumes "t = [] \<or> \<not> is_digit (hd t)"
  shows "atoi (dec_str n @ t) = int n"
proof -
  obtain c s where cs: "dec_str n = c # s" by (cases "dec_str n") auto
  have c: "is_digit c" using dec_str_digits [of n] cs by simp
  have "digits_value 0 (dec_str n @ t) = n"
    using assms by (simp add: digits_value_append dec_str_digits digits_value_dec_str digits_value_stop)
  then show ?thesis using cs is_digit_not [OF c] by (simp add: atoi_def Let_def)
qed

section \<open>Lists\<close>

lemma takeWhile_append_stop: "\<forall>x \<in> set xs. P x \<Longrightarrow> \<not> P y \<Longrightarrow> takeWhile P (xs @ y # ys) = xs"
  by (induction xs) auto

lemma dropWhile_append_stop: "\<forall>x \<in> set xs. P x \<Longrightarrow> \<not> P y \<Longrightarrow> dropWhile P (xs @ y # ys) = y # ys"
  by (induction xs) auto

lemma length_dropWhile_le' [scan_len]: "length (dropWhile P s) \<le> length s"
  by (rule length_dropWhile_le)

end
