(* ===== verification/Charset.thy ===== *)
theory Charset
  imports Prelude
begin

unbundle bit_operations_syntax

text \<open>
  The part of \<^verbatim>\<open>CHARSET_INFO\<close> (\<^verbatim>\<open>include/m_ctype.h\<close>) the client reads: the
  \<open>ctype\<close> classification table, the collation weights and the multi-byte handlers. A
  character set is a value of the record below; the handlers are function pointers in C
  and function fields here. \<open>my_charset_latin1\<close> is the one the client starts with.
\<close>

record charset_info =
  cs_ctype :: "nat list"
  cs_sort_order :: "nat list"
  cs_mbmaxlen :: nat
  cs_charlen :: "string \<Rightarrow> int"
  cs_numcells :: "string \<Rightarrow> nat"

section \<open>Classification macros\<close>

definition MY_U :: nat where "MY_U = 1"
definition MY_L :: nat where "MY_L = 2"
definition MY_NMR :: nat where "MY_NMR = 4"
definition MY_SPC :: nat where "MY_SPC = 8"
definition MY_PNT :: nat where "MY_PNT = 16"
definition MY_CTR :: nat where "MY_CTR = 32"

definition ctype_of :: "charset_info \<Rightarrow> char \<Rightarrow> nat" where
  "ctype_of cs c = cs_ctype cs ! (1 + of_char c)"

definition my_isalpha :: "charset_info \<Rightarrow> char \<Rightarrow> bool" where
  "my_isalpha cs c \<longleftrightarrow> ctype_of cs c AND (MY_U OR MY_L) \<noteq> 0"

definition my_isdigit :: "charset_info \<Rightarrow> char \<Rightarrow> bool" where
  "my_isdigit cs c \<longleftrightarrow> ctype_of cs c AND MY_NMR \<noteq> 0"

definition my_isspace :: "charset_info \<Rightarrow> char \<Rightarrow> bool" where
  "my_isspace cs c \<longleftrightarrow> ctype_of cs c AND MY_SPC \<noteq> 0"

definition my_isgraph :: "charset_info \<Rightarrow> char \<Rightarrow> bool" where
  "my_isgraph cs c \<longleftrightarrow> ctype_of cs c AND (MY_PNT OR MY_U OR MY_L OR MY_NMR) \<noteq> 0"

definition my_iscntrl :: "charset_info \<Rightarrow> char \<Rightarrow> bool" where
  "my_iscntrl cs c \<longleftrightarrow> ctype_of cs c AND MY_CTR \<noteq> 0"

definition use_mb :: "charset_info \<Rightarrow> bool" where
  "use_mb cs \<longleftrightarrow> cs_mbmaxlen cs > 1"

text \<open>\<open>my_ismbchar(cs, str, end)\<close>; the argument is the text between the two pointers.\<close>

definition my_ismbchar :: "charset_info \<Rightarrow> string \<Rightarrow> nat" where
  "my_ismbchar cs s = (if cs_charlen cs s > 1 then nat (cs_charlen cs s) else 0)"

section \<open>The latin1 character set\<close>

definition ctype_latin1 :: "nat list" where
  "ctype_latin1 = [
    0,
   32, 32, 32, 32, 32, 32, 32, 32, 32, 40, 40, 40, 40, 40, 32, 32,
   32, 32, 32, 32, 32, 32, 32, 32, 32, 32, 32, 32, 32, 32, 32, 32,
   72, 16, 16, 16, 16, 16, 16, 16, 16, 16, 16, 16, 16, 16, 16, 16,
  132,132,132,132,132,132,132,132,132,132, 16, 16, 16, 16, 16, 16,
   16,129,129,129,129,129,129,  1,  1,  1,  1,  1,  1,  1,  1,  1,
    1,  1,  1,  1,  1,  1,  1,  1,  1,  1,  1, 16, 16, 16, 16, 16,
   16,130,130,130,130,130,130,  2,  2,  2,  2,  2,  2,  2,  2,  2,
    2,  2,  2,  2,  2,  2,  2,  2,  2,  2,  2, 16, 16, 16, 16, 32,
   16,  0, 16,  2, 16, 16, 16, 16, 16, 16,  1, 16,  1,  0,  1,  0,
    0, 16, 16, 16, 16, 16, 16, 16, 16, 16,  2, 16,  2,  0,  2,  1,
   72, 16, 16, 16, 16, 16, 16, 16, 16, 16, 16, 16, 16, 16, 16, 16,
   16, 16, 16, 16, 16, 16, 16, 16, 16, 16, 16, 16, 16, 16, 16, 16,
    1,  1,  1,  1,  1,  1,  1,  1,  1,  1,  1,  1,  1,  1,  1,  1,
    1,  1,  1,  1,  1,  1,  1, 16,  1,  1,  1,  1,  1,  1,  1,  2,
    2,  2,  2,  2,  2,  2,  2,  2,  2,  2,  2,  2,  2,  2,  2,  2,
    2,  2,  2,  2,  2,  2,  2, 16,  2,  2,  2,  2,  2,  2,  2,  2]"

definition sort_order_latin1 :: "nat list" where
  "sort_order_latin1 = [
    0,  1,  2,  3,  4,  5,  6,  7,  8,  9, 10, 11, 12, 13, 14, 15,
   16, 17, 18, 19, 20, 21, 22, 23, 24, 25, 26, 27, 28, 29, 30, 31,
   32, 33, 34, 35, 36, 37, 38, 39, 40, 41, 42, 43, 44, 45, 46, 47,
   48, 49, 50, 51, 52, 53, 54, 55, 56, 57, 58, 59, 60, 61, 62, 63,
   64, 65, 66, 67, 68, 69, 70, 71, 72, 73, 74, 75, 76, 77, 78, 79,
   80, 81, 82, 83, 84, 85, 86, 87, 88, 89, 90, 91, 92, 93, 94, 95,
   96, 65, 66, 67, 68, 69, 70, 71, 72, 73, 74, 75, 76, 77, 78, 79,
   80, 81, 82, 83, 84, 85, 86, 87, 88, 89, 90,123,124,125,126,127,
  128,129,130,131,132,133,134,135,136,137,138,139,140,141,142,143,
  144,145,146,147,148,149,150,151,152,153,154,155,156,157,158,159,
  160,161,162,163,164,165,166,167,168,169,170,171,172,173,174,175,
  176,177,178,179,180,181,182,183,184,185,186,187,188,189,190,191,
   65, 65, 65, 65, 92, 91, 92, 67, 69, 69, 69, 69, 73, 73, 73, 73,
   68, 78, 79, 79, 79, 79, 93,215,216, 85, 85, 85, 89, 89,222,223,
   65, 65, 65, 65, 92, 91, 92, 67, 69, 69, 69, 69, 73, 73, 73, 73,
   68, 78, 79, 79, 79, 79, 93,247,216, 85, 85, 85, 89, 89,222,255]"

definition my_charlen_8bit :: "string \<Rightarrow> int" where
  "my_charlen_8bit s = (if s = [] then -101 else 1)"

definition my_numcells_8bit :: "string \<Rightarrow> nat" where
  "my_numcells_8bit s = length s"

definition my_charset_latin1 :: charset_info where
  "my_charset_latin1 = \<lparr> cs_ctype = ctype_latin1, cs_sort_order = sort_order_latin1,
     cs_mbmaxlen = 1, cs_charlen = my_charlen_8bit, cs_numcells = my_numcells_8bit \<rparr>"

section \<open>Collation\<close>

text \<open>
  \<open>my_strnncoll_simple\<close>, without the prefix mode that \<open>my_strnncoll\<close> switches off. The
  recursion runs over the shorter length, then compares the lengths.
\<close>

fun my_strnncoll_simple :: "charset_info \<Rightarrow> string \<Rightarrow> string \<Rightarrow> int" where
  "my_strnncoll_simple cs (a # s) (b # t) =
     (let x = cs_sort_order cs ! of_char a; y = cs_sort_order cs ! of_char b
      in if x \<noteq> y then int x - int y else my_strnncoll_simple cs s t)"
| "my_strnncoll_simple cs [] [] = 0"
| "my_strnncoll_simple cs (a # s) [] = 1"
| "my_strnncoll_simple cs [] (b # t) = -1"

definition sort_weight :: "charset_info \<Rightarrow> char \<Rightarrow> nat" where
  "sort_weight cs c = cs_sort_order cs ! of_char c"

lemma my_strnncoll_simple_eq_0:
  "my_strnncoll_simple cs s t = 0 \<longleftrightarrow> map (sort_weight cs) s = map (sort_weight cs) t"
  by (induction cs s t rule: my_strnncoll_simple.induct) (auto simp: sort_weight_def Let_def)

section \<open>What the scanners rely on\<close>

text \<open>
  The client's scanning loops \<open>while (my_isspace(cs, *p)) p++\<close> stop at the end of the
  string because the terminating NUL is not a space, and skip a multi-byte character by
  its length because \<open>charlen\<close> never exceeds the text it is given. Both hold of every
  character set the library ships and are checked here for latin1.
\<close>

definition wf_charset :: "charset_info \<Rightarrow> bool" where
  "wf_charset cs \<longleftrightarrow> \<not> my_isspace cs NUL \<and> \<not> my_isgraph cs NUL
     \<and> (\<forall>s. cs_charlen cs s \<le> int (length s))"

lemma my_ismbchar_le [scan_len]: "wf_charset cs \<Longrightarrow> my_ismbchar cs s \<le> length s"
  by (auto simp: wf_charset_def my_ismbchar_def nat_le_iff)

lemma my_ismbchar_not_1: "my_ismbchar cs s \<noteq> Suc 0"
  by (auto simp: my_ismbchar_def)

definition latin1_spaces :: "char list" where
  "latin1_spaces = [TAB, NL, CHR 0x0B, CHR 0x0C, CR, CHR 0x20, CHR 0xA0]"

text \<open>
  The table is evaluated once, in order: \<open>hits P k xs\<close> are the positions, counted from
  \<open>k\<close>, of the entries that satisfy \<open>P\<close>, and looking an entry up is membership there.
\<close>

primrec hits :: "('a \<Rightarrow> bool) \<Rightarrow> int \<Rightarrow> 'a list \<Rightarrow> int list" where
  "hits P k [] = []"
| "hits P k (x # xs) = (if P x then k # hits P (k + 1) xs else hits P (k + 1) xs)"

lemma hits_ge: "j \<in> set (hits P k xs) \<Longrightarrow> k \<le> j"
  by (induction xs arbitrary: k) (fastforce split: if_splits)+

lemma nth_iff_hits: "i < length xs \<Longrightarrow> P (xs ! i) \<longleftrightarrow> k + int i \<in> set (hits P k xs)"
proof (induction xs arbitrary: i k)
  case Nil
  then show ?case by simp
next
  case (Cons x xs)
  show ?case
  proof (cases i)
    case 0
    then show ?thesis using hits_ge [of k P "k + 1" xs] by auto
  next
    case (Suc j)
    then show ?thesis using Cons.IH [of j "k + 1"] Cons.prems by (simp add: algebra_simps)
  qed
qed

lemma ctype_latin1_iff:
  "P (ctype_of my_charset_latin1 c) \<longleftrightarrow> of_char c \<in> set (hits P (-1) ctype_latin1)"
proof -
  have "of_char c < (256::nat)" by (rule nat_of_char_less_256)
  moreover have "length ctype_latin1 = 257" by (simp add: ctype_latin1_def)
  ultimately show ?thesis
    using nth_iff_hits [of "1 + of_char c" ctype_latin1 P "-1"]
    by (simp add: ctype_of_def my_charset_latin1_def of_nat_of_char)
qed

lemma of_char_eq_iff_char_of: "(of_char c :: int) = k \<longleftrightarrow> c = char_of k \<and> 0 \<le> k \<and> k < 256"
proof
  assume k: "(of_char c :: int) = k"
  have "(of_char c :: int) = int (of_char c)" by (simp add: of_nat_of_char)
  moreover have "of_char c < (256::nat)" by (rule nat_of_char_less_256)
  ultimately show "c = char_of k \<and> 0 \<le> k \<and> k < 256"
    using k by (metis char_of_char of_nat_0_le_iff of_nat_less_iff of_nat_numeral)
next
  assume "c = char_of k \<and> 0 \<le> k \<and> k < 256"
  then show "(of_char c :: int) = k" by simp
qed

lemma my_isspace_latin1:
  "my_isspace my_charset_latin1 c \<longleftrightarrow> c \<in> set latin1_spaces"
proof -
  have "my_isspace my_charset_latin1 c \<longleftrightarrow> of_char c \<in> {9, 10, 11, 12, 13, 32, 160 :: int}"
    unfolding my_isspace_def ctype_latin1_iff [where P = "\<lambda>m. m AND MY_SPC \<noteq> 0"]
    by (simp add: ctype_latin1_def MY_SPC_def)
  then show ?thesis
    by (simp add: latin1_spaces_def of_char_eq_iff_char_of char_of_def)
qed

lemma my_isgraph_latin1_NUL: "\<not> my_isgraph my_charset_latin1 NUL"
  by code_simp

lemma wf_charset_latin1: "wf_charset my_charset_latin1"
  unfolding wf_charset_def
proof (intro conjI allI)
  show "\<not> my_isspace my_charset_latin1 NUL"
    by (simp add: my_isspace_latin1 latin1_spaces_def)
  show "\<not> my_isgraph my_charset_latin1 NUL"
    by (rule my_isgraph_latin1_NUL)
  show "cs_charlen my_charset_latin1 s \<le> int (length s)" for s
    by (simp add: my_charset_latin1_def my_charlen_8bit_def Suc_le_eq)
qed

lemma my_ismbchar_latin1 [simp]: "my_ismbchar my_charset_latin1 s = 0"
  by (simp add: my_ismbchar_def my_charset_latin1_def my_charlen_8bit_def)

lemma use_mb_latin1 [simp]: "\<not> use_mb my_charset_latin1"
  by (simp add: use_mb_def my_charset_latin1_def)

end
