(* ===== verification/CompletionHash.thy ===== *)
theory CompletionHash
  imports Prelude "HOL-Library.Multiset"
begin

unbundle bit_operations_syntax

text \<open>
  The hash table behind tab completion (\<^verbatim>\<open>client/completion_hash.cc\<close>) and the
  generator that readline calls to enumerate completions
  (\<^verbatim>\<open>new_command_generator\<close> of \<^verbatim>\<open>client/mysql.cc\<close>). Every word is entered
  under each of its non-empty prefixes, so that the bucket of a prefix lists the words
  that complete it.

  A bucket chain is a list, head first; the entry list of a bucket is the list of its
  strings. \<open>arKey\<close> points at the whole word a bucket was made for, of which the first
  \<open>nKeyLength\<close> bytes are the key. The results of \<open>alloc_root\<close> and \<open>my_malloc\<close> are
  boolean arguments, so the out-of-memory returns are branches of the model.
\<close>

section \<open>Data\<close>

record bucket =
  b_h :: "32 word"
  arKey :: cstring
  nKeyLength :: nat
  b_count :: nat
  pData :: "cstring list"

record hashtable =
  nTableSize :: nat
  initialized :: bool
  arBuckets :: "bucket list list"

datatype hash_result = SUCCESS | FAILURE

section \<open>Operations\<close>

text \<open>A \<open>char\<close> is added to the \<open>uint\<close> after sign extension.\<close>

definition char_uint :: "char \<Rightarrow> 32 word" where
  "char_uint c = signed (word_of_nat (of_char c) :: 8 word)"

fun hashpjw_loop :: "string \<Rightarrow> 32 word \<Rightarrow> 32 word" where
  "hashpjw_loop [] h = h"
| "hashpjw_loop (c # cs) h =
     (let h = push_bit 4 h + char_uint c;
          g = h AND 0xF0000000
      in hashpjw_loop cs (if g \<noteq> 0 then (h XOR drop_bit 24 g) XOR g else h))"

definition hashpjw :: "string \<Rightarrow> nat \<Rightarrow> 32 word" where
  "hashpjw key n = hashpjw_loop (take n key) 0"

definition completion_hash_init :: "nat \<Rightarrow> bool \<Rightarrow> hashtable \<Rightarrow> hashtable \<times> hash_result" where
  "completion_hash_init nSize malloc_ok ht =
     (if \<not> malloc_ok then (ht\<lparr>initialized := False\<rparr>, FAILURE)
      else (ht\<lparr>arBuckets := replicate nSize [], nTableSize := nSize, initialized := True\<rparr>, SUCCESS))"

text \<open>The test \<open>p->h == h && p->nKeyLength == n && !memcmp(p->arKey, arKey, n)\<close>.\<close>

definition bucket_match :: "32 word \<Rightarrow> string \<Rightarrow> nat \<Rightarrow> bucket \<Rightarrow> bool" where
  "bucket_match h key n p \<longleftrightarrow> b_h p = h \<and> nKeyLength p = n \<and> take n (arKey p) = take n key"

text \<open>The first matching bucket of the chain gets the new entry in front of its list.\<close>

fun push_entry :: "32 word \<Rightarrow> string \<Rightarrow> nat \<Rightarrow> string \<Rightarrow> bucket list \<Rightarrow> bucket list option" where
  "push_entry h key n str [] = None"
| "push_entry h key n str (p # ps) =
     (if bucket_match h key n p
      then Some (p\<lparr>pData := str # pData p, b_count := b_count p + 1\<rparr> # ps)
      else map_option ((#) p) (push_entry h key n str ps))"

definition completion_hash_update ::
  "hashtable \<Rightarrow> string \<Rightarrow> nat \<Rightarrow> string \<Rightarrow> bool \<Rightarrow> bool \<Rightarrow> hashtable \<times> hash_result" where
  "completion_hash_update ht key n str alloc1 alloc2 =
     (let h = hashpjw key n;
          nIndex = unat h mod nTableSize ht
      in if n = 0 then (ht, FAILURE)
         else case push_entry h key n str (arBuckets ht ! nIndex) of
           Some chain \<Rightarrow>
             if \<not> alloc1 then (ht, FAILURE)
             else (ht\<lparr>arBuckets := (arBuckets ht)[nIndex := chain]\<rparr>, SUCCESS)
         | None \<Rightarrow>
             if \<not> alloc1 then (ht, FAILURE)
             else if \<not> alloc2 then (ht, FAILURE)
             else (ht\<lparr>arBuckets := (arBuckets ht)[nIndex :=
                     \<lparr>b_h = h, arKey = key, nKeyLength = n, b_count = 1, pData = [str]\<rparr>
                     # arBuckets ht ! nIndex]\<rparr>, SUCCESS))"

definition completion_hash_find :: "hashtable \<Rightarrow> string \<Rightarrow> nat \<Rightarrow> bucket option" where
  "completion_hash_find ht key n =
     (let h = hashpjw key n;
          nIndex = unat h mod nTableSize ht
      in List.find (bucket_match h key n) (arBuckets ht ! nIndex))"

text \<open>
  Unlike the other lookups this one compares with \<open>strcmp\<close>, that is, the whole word the
  bucket was made for against the whole argument.
\<close>

definition completion_hash_exists :: "hashtable \<Rightarrow> string \<Rightarrow> nat \<Rightarrow> bool" where
  "completion_hash_exists ht key n =
     (let h = hashpjw key n;
          nIndex = unat h mod nTableSize ht
      in list_ex (\<lambda>p. b_h p = h \<and> nKeyLength p = n \<and> arKey p = key) (arBuckets ht ! nIndex))"

definition find_all_matches :: "hashtable \<Rightarrow> string \<Rightarrow> nat \<Rightarrow> bucket option \<times> nat" where
  "find_all_matches ht str len =
     (case completion_hash_find ht str len of
        None \<Rightarrow> (None, 0)
      | Some b \<Rightarrow> (Some b, len))"

text \<open>
  The loop of \<open>find_longest_match\<close>: \<open>bcount\<close> is the count of the first bucket, \<open>s\<close> the
  newest word under it, \<open>lm\<close> the length matched so far.
\<close>

function longest_loop :: "hashtable \<Rightarrow> nat \<Rightarrow> string \<Rightarrow> bucket \<Rightarrow> nat \<Rightarrow> bucket \<times> nat" where
  "longest_loop ht bcount s return_b lm =
     (if lm < length s then
        (case completion_hash_find ht s (lm + 1) of
           None \<Rightarrow> (return_b, lm)
         | Some b \<Rightarrow> if b_count b < bcount then (return_b, lm)
                     else longest_loop ht bcount s b (lm + 1))
      else (return_b, lm))"
  by pat_completeness auto
termination
  by (relation "measure (\<lambda>(ht, bcount, s, b, lm). length s - lm)") auto

declare longest_loop.simps [simp del]

definition find_longest_match :: "hashtable \<Rightarrow> string \<Rightarrow> nat \<Rightarrow> bucket option \<times> nat" where
  "find_longest_match ht str len =
     (case completion_hash_find ht str len of
        None \<Rightarrow> (None, 0)
      | Some b \<Rightarrow>
          let (rb, lm) = longest_loop ht (b_count b) (hd (pData b)) b len
          in (Some rb, lm))"

definition completion_hash_clean :: "hashtable \<Rightarrow> hashtable" where
  "completion_hash_clean ht =
     (if nTableSize ht \<noteq> 0 then ht\<lparr>arBuckets := replicate (nTableSize ht) []\<rparr> else ht)"

definition completion_hash_free :: "hashtable \<Rightarrow> hashtable" where
  "completion_hash_free ht = (completion_hash_clean ht)\<lparr>arBuckets := []\<rparr>"

text \<open>\<open>add_word\<close>: one update per prefix; the allocations are indexed by the length.\<close>

definition add_word :: "(nat \<Rightarrow> bool \<times> bool) \<Rightarrow> hashtable \<Rightarrow> string \<Rightarrow> hashtable" where
  "add_word alloc ht str =
     fold (\<lambda>i ht. fst (completion_hash_update ht str i str (fst (alloc i)) (snd (alloc i))))
          [1..<Suc (length str)] ht"

section \<open>The completion generator\<close>

text \<open>
  The static variables of \<open>new_command_generator\<close>. \<open>g_b\<close> is the chain from the bucket
  \<open>b\<close> on and \<open>g_e\<close> the entry list from \<open>e\<close> on, with \<open>[]\<close> for the null pointer. When
  there is text to complete only \<open>e\<close> is followed, and \<open>g_b\<close> is the bucket alone.
\<close>

record generator =
  g_textlen :: nat
  g_b :: "bucket list"
  g_e :: "cstring list"
  g_i :: nat

text \<open>The first used chain at index \<open>i\<close> or later: its index and the chains from it on.\<close>

fun next_used :: "nat \<Rightarrow> bucket list list \<Rightarrow> (nat \<times> bucket list) option" where
  "next_used i [] = None"
| "next_used i (c # cs) = (if c \<noteq> [] then Some (i, c) else next_used (Suc i) cs)"

definition chains_from :: "hashtable \<Rightarrow> nat \<Rightarrow> bucket list list" where
  "chains_from ht i = drop i (take (nTableSize ht) (arBuckets ht))"

text \<open>Moving to the next entry: in the bucket, in the chain, or in the next used chain.\<close>

definition gen_advance :: "hashtable \<Rightarrow> generator \<Rightarrow> generator" where
  "gen_advance ht g =
     (let e = tl (g_e g) in
      if e \<noteq> [] then g\<lparr>g_e := e\<rparr>
      else let b = tl (g_b g) in
        if b \<noteq> [] then g\<lparr>g_b := b, g_e := pData (hd b)\<rparr>
        else case next_used (Suc (g_i g)) (chains_from ht (Suc (g_i g))) of
          None \<Rightarrow> g\<lparr>g_b := [], g_e := [], g_i := nTableSize ht\<rparr>
        | Some (j, c) \<Rightarrow> g\<lparr>g_b := c, g_e := pData (hd c), g_i := j\<rparr>)"

text \<open>The entries the generator has still to look at, the current one first.\<close>

definition gen_left :: "hashtable \<Rightarrow> generator \<Rightarrow> (nat \<times> cstring) list" where
  "gen_left ht g = map (Pair (nKeyLength (hd (g_b g)))) (g_e g)
     @ concat (map (\<lambda>p. map (Pair (nKeyLength p)) (pData p))
         (tl (g_b g) @ concat (chains_from ht (Suc (g_i g)))))"

lemma next_used_Some: "next_used i cs = Some (j, c) \<Longrightarrow> i \<le> j \<and> c \<noteq> []"
  by (induction i cs rule: next_used.induct) (auto split: if_splits)

lemma next_used_drop:
  "next_used i cs = Some (j, c) \<Longrightarrow> concat cs = c @ concat (drop (Suc (j - i)) cs)"
proof (induction i cs rule: next_used.induct)
  case (2 i d cs)
  show ?case
  proof (cases "d = []")
    case True
    with 2 have n: "next_used (Suc i) cs = Some (j, c)" by simp
    then have "Suc i \<le> j" by (auto dest: next_used_Some)
    then have "j - i = Suc (j - Suc i)" by simp
    with True n 2 show ?thesis by simp
  qed (use 2 in auto)
qed simp

lemma next_used_None: "next_used i cs = None \<Longrightarrow> concat cs = []"
  by (induction i cs rule: next_used.induct) (auto split: if_splits)

lemma drop_chains_from: "drop n (chains_from ht i) = chains_from ht (i + n)"
  by (simp add: chains_from_def add.commute)

lemma gen_left_advance:
  assumes "g_e g = x # es"
  shows "gen_left ht g = (nKeyLength (hd (g_b g)), x) # gen_left ht (gen_advance ht g)"
proof (cases "es = [] \<and> tl (g_b g) = []")
  case False
  then show ?thesis
    using assms by (cases "tl (g_b g)") (auto simp: gen_left_def gen_advance_def Let_def)
next
  case True
  let ?i = "Suc (g_i g)"
  show ?thesis
  proof (cases "next_used ?i (chains_from ht ?i)")
    case None
    then show ?thesis
      using assms True next_used_None [OF None]
      by (auto simp: gen_left_def gen_advance_def chains_from_def)
  next
    case (Some jc)
    obtain j c where jc: "jc = (j, c)" by (cases jc)
    with Some next_used_Some [of ?i "chains_from ht ?i" j c]
    have "?i \<le> j" and c: "c \<noteq> []" by simp_all
    then have "chains_from ht (Suc j) = drop (Suc (j - ?i)) (chains_from ht ?i)"
      by (simp add: drop_chains_from)
    moreover have "concat (chains_from ht ?i) = c @ concat (drop (Suc (j - ?i)) (chains_from ht ?i))"
      using Some jc by (simp add: next_used_drop)
    ultimately show ?thesis
      using assms True Some jc c by (cases c) (simp_all add: gen_left_def gen_advance_def)
  qed
qed

text \<open>The loop \<open>while (e && !ptr)\<close>: the next entry that is as long as its bucket's key.\<close>

function gen_scan :: "hashtable \<Rightarrow> generator \<Rightarrow> cstring option \<times> generator" where
  "gen_scan ht g =
     (case g_e g of
        [] \<Rightarrow> (None, g)
      | x # es \<Rightarrow>
          if length x = nKeyLength (hd (g_b g)) then (Some x, gen_advance ht g)
          else gen_scan ht (gen_advance ht g))"
  by pat_completeness auto
termination
proof (relation "measure (\<lambda>(ht, g). length (gen_left ht g))")
  show "((ht, gen_advance ht g), ht, g) \<in> measure (\<lambda>(ht, g). length (gen_left ht g))"
    if "g_e g = x # es" for ht g and x :: cstring and es
    using gen_left_advance [OF that, of ht] by simp
qed simp

declare gen_scan.simps [simp del]

lemma gen_scan_Nil [simp]: "g_e g = [] \<Longrightarrow> gen_scan ht g = (None, g)"
  by (subst gen_scan.simps) simp

definition new_command_generator ::
  "hashtable \<Rightarrow> cstring \<Rightarrow> bool \<Rightarrow> generator \<Rightarrow> cstring option \<times> generator" where
  "new_command_generator ht text state g =
     (let g = (if \<not> state then g\<lparr>g_textlen := length text\<rparr> else g) in
      if g_textlen g > 0 then
        (if \<not> state \<and> fst (find_all_matches ht text (length text)) = None then (None, g\<lparr>g_b := []\<rparr>)
         else
           let g = (if \<not> state then
                      case fst (find_all_matches ht text (length text)) of
                        None \<Rightarrow> g
                      | Some b \<Rightarrow> g\<lparr>g_b := [b], g_e := pData b\<rparr>
                    else g)
           in case g_e g of
                [] \<Rightarrow> (None, g)
              | x # es \<Rightarrow> (Some x, g\<lparr>g_e := es\<rparr>))
      else
        let g = (if \<not> state then
                   case next_used 0 (chains_from ht 0) of
                     None \<Rightarrow> g\<lparr>g_i := nTableSize ht\<rparr>
                   | Some (i, c) \<Rightarrow> g\<lparr>g_i := i, g_b := c, g_e := pData (hd c)\<rparr>
                 else g)
        in gen_scan ht g)"

text \<open>What readline does with it: call it with state 0, then 1, until it returns null.\<close>

fun completions :: "hashtable \<Rightarrow> cstring \<Rightarrow> nat \<Rightarrow> bool \<Rightarrow> generator \<Rightarrow> cstring list option" where
  "completions ht text 0 state g = None"
| "completions ht text (Suc fuel) state g =
     (case new_command_generator ht text state g of
        (None, g) \<Rightarrow> Some []
      | (Some x, g) \<Rightarrow> map_option ((#) x) (completions ht text fuel True g))"

section \<open>The interface: an index of words by prefix\<close>

text \<open>
  What completion needs of the table. \<open>ins h n w\<close> enters \<open>w\<close> under its prefix of length
  \<open>n\<close>; \<open>look h k\<close> are the entries under \<open>k\<close>, newest first.
\<close>

locale prefix_index =
  fixes empty :: 'h
    and ins :: "'h \<Rightarrow> nat \<Rightarrow> string \<Rightarrow> 'h"
    and look :: "'h \<Rightarrow> string \<Rightarrow> string list"
    and inv :: "'h \<Rightarrow> bool"
  assumes inv_empty: "inv empty"
    and look_empty: "look empty k = []"
    and inv_ins: "inv h \<Longrightarrow> 0 < n \<Longrightarrow> n \<le> length w \<Longrightarrow> inv (ins h n w)"
    and look_ins: "inv h \<Longrightarrow> 0 < n \<Longrightarrow> n \<le> length w \<Longrightarrow>
      look (ins h n w) k = (if k = take n w then w # look h k else look h k)"
begin

definition enter :: "string \<Rightarrow> 'h \<Rightarrow> 'h" where
  "enter w h = fold (\<lambda>n h. ins h n w) [1..<Suc (length w)] h"

lemma enter_prefixes:
  assumes "inv h" and "m \<le> length w"
  shows "inv (fold (\<lambda>n h. ins h n w) [1..<Suc m] h) \<and>
    look (fold (\<lambda>n h. ins h n w) [1..<Suc m] h) k =
      (if k \<noteq> [] \<and> length k \<le> m \<and> prefix k w then w # look h k else look h k)"
  using assms(2)
proof (induction m)
  case 0
  then show ?case using assms(1) by auto
next
  case (Suc m)
  have take_iff: "k = take (Suc m) w \<longleftrightarrow> length k = Suc m \<and> prefix k w"
  proof
    assume "k = take (Suc m) w"
    then show "length k = Suc m \<and> prefix k w"
      using Suc.prems by (simp add: take_is_prefix)
  next
    assume k: "length k = Suc m \<and> prefix k w"
    then obtain t where "w = k @ t" by (auto simp: prefix_def)
    with k show "k = take (Suc m) w" by simp
  qed
  from Suc show ?case
    by (auto simp: inv_ins look_ins take_iff le_Suc_eq)
qed

lemma inv_enter: "inv h \<Longrightarrow> inv (enter w h)"
  using enter_prefixes [of h "length w" w] by (simp add: enter_def)

lemma look_enter: "inv h \<Longrightarrow>
    look (enter w h) k = (if k \<noteq> [] \<and> prefix k w then w # look h k else look h k)"
  using enter_prefixes [of h "length w" w k] by (auto simp: enter_def prefix_length_le)

lemma inv_enter_all: "inv h \<Longrightarrow> inv (fold enter ws h)"
  by (induction ws arbitrary: h) (auto simp: inv_enter)

lemma look_enter_all: "inv h \<Longrightarrow> k \<noteq> [] \<Longrightarrow>
    look (fold enter ws h) k = rev (filter (prefix k) ws) @ look h k"
  by (induction ws arbitrary: h) (auto simp: inv_enter look_enter)

lemma look_words: "k \<noteq> [] \<Longrightarrow> look (fold enter ws empty) k = rev (filter (prefix k) ws)"
  by (simp add: look_enter_all inv_empty look_empty)

end

section \<open>The table implements the interface\<close>

definition bkey :: "bucket \<Rightarrow> string" where
  "bkey b = take (nKeyLength b) (arKey b)"

definition entries :: "hashtable \<Rightarrow> string \<Rightarrow> string list" where
  "entries ht k = (case completion_hash_find ht k (length k) of None \<Rightarrow> [] | Some b \<Rightarrow> pData b)"

text \<open>
  A bucket's stored hash is that of its key, its count is the number of its entries, the
  entries are words with the key as prefix, and the word the bucket was made for is the
  oldest of them.
\<close>

definition wf_bucket :: "bucket \<Rightarrow> bool" where
  "wf_bucket b \<longleftrightarrow> 0 < nKeyLength b \<and> nKeyLength b \<le> length (arKey b)
     \<and> b_h b = hashpjw (arKey b) (nKeyLength b)
     \<and> b_count b = length (pData b) \<and> pData b \<noteq> [] \<and> arKey b = last (pData b)
     \<and> (\<forall>e \<in> set (pData b). prefix (bkey b) e)"

definition wf_hash :: "hashtable \<Rightarrow> bool" where
  "wf_hash ht \<longleftrightarrow> 0 < nTableSize ht \<and> length (arBuckets ht) = nTableSize ht
     \<and> (\<forall>i < nTableSize ht. distinct (map bkey (arBuckets ht ! i))
          \<and> (\<forall>b \<in> set (arBuckets ht ! i). wf_bucket b \<and> unat (b_h b) mod nTableSize ht = i))"

lemma hashpjw_take [simp]: "hashpjw (take n w) n = hashpjw w n"
  by (simp add: hashpjw_def)

lemma bucket_match_take [simp]: "bucket_match h (take n key) n = bucket_match h key n"
  by (rule ext) (simp add: bucket_match_def)

lemma length_bkey: "wf_bucket b \<Longrightarrow> length (bkey b) = nKeyLength b"
  by (clarsimp simp: wf_bucket_def bkey_def)

lemma b_h_bkey: "wf_bucket b \<Longrightarrow> b_h b = hashpjw (bkey b) (length (bkey b))"
  by (simp add: length_bkey) (simp add: wf_bucket_def bkey_def)

lemma bucket_match_iff:
  assumes "wf_bucket p" and "n \<le> length key"
  shows "bucket_match (hashpjw key n) key n p \<longleftrightarrow> bkey p = take n key"
proof
  assume "bucket_match (hashpjw key n) key n p"
  then show "bkey p = take n key" by (simp add: bucket_match_def bkey_def)
next
  assume k: "bkey p = take n key"
  with assms have n: "nKeyLength p = n" using length_bkey [of p] by simp
  with k assms show "bucket_match (hashpjw key n) key n p"
    using b_h_bkey [of p] by (simp add: bucket_match_def bkey_def)
qed

definition chain_look :: "string \<Rightarrow> bucket list \<Rightarrow> string list" where
  "chain_look k ps = (case List.find (\<lambda>p. bkey p = k) ps of None \<Rightarrow> [] | Some b \<Rightarrow> pData b)"

lemma chain_look_Nil [simp]: "chain_look k [] = []"
  by (simp add: chain_look_def)

lemma chain_look_Cons [simp]:
  "chain_look k (p # ps) = (if bkey p = k then pData p else chain_look k ps)"
  by (simp add: chain_look_def)

lemma chain_look_notin: "k \<notin> bkey ` set ps \<Longrightarrow> chain_look k ps = []"
  by (induction ps) auto

definition chain_index :: "hashtable \<Rightarrow> string \<Rightarrow> nat" where
  "chain_index ht k = unat (hashpjw k (length k)) mod nTableSize ht"

lemma chain_index_less: "wf_hash ht \<Longrightarrow> chain_index ht k < nTableSize ht"
  by (simp add: chain_index_def wf_hash_def)

lemma wf_hash_chain:
  "wf_hash ht \<Longrightarrow> b \<in> set (arBuckets ht ! chain_index ht k) \<Longrightarrow> wf_bucket b"
  using chain_index_less [of ht k] by (auto simp: wf_hash_def)

lemma completion_hash_find_eq:
  assumes "wf_hash ht"
  shows "completion_hash_find ht k (length k) =
    List.find (\<lambda>p. bkey p = k) (arBuckets ht ! chain_index ht k)"
  unfolding completion_hash_find_def Let_def chain_index_def [symmetric]
  by (rule find_cong) (auto simp: bucket_match_iff dest: wf_hash_chain [OF assms])

lemma entries_eq: "wf_hash ht \<Longrightarrow> entries ht k = chain_look k (arBuckets ht ! chain_index ht k)"
  by (simp add: entries_def chain_look_def completion_hash_find_eq)

lemma push_entry_None:
  "\<forall>p \<in> set ps. wf_bucket p \<Longrightarrow> n \<le> length w \<Longrightarrow>
   push_entry (hashpjw w n) w n w ps = None \<longleftrightarrow> take n w \<notin> bkey ` set ps"
  by (induction ps) (auto simp: bucket_match_iff)

lemma bkey_push [simp]: "bkey (p\<lparr>pData := es, b_count := c\<rparr>) = bkey p"
  by (simp add: bkey_def)

lemma wf_bucket_push:
  "wf_bucket p \<Longrightarrow> bkey p = take n w \<Longrightarrow>
   wf_bucket (p\<lparr>pData := w # pData p, b_count := Suc (b_count p)\<rparr>)"
  unfolding wf_bucket_def by (clarsimp simp: take_is_prefix)

lemma push_entry_Some:
  assumes "\<forall>p \<in> set ps. wf_bucket p" and "n \<le> length w"
    and "push_entry (hashpjw w n) w n w ps = Some ps'"
  shows "map bkey ps' = map bkey ps" and "map b_h ps' = map b_h ps"
    and "\<forall>p \<in> set ps'. wf_bucket p"
    and "chain_look k ps' = (if k = take n w then w # chain_look k ps else chain_look k ps)"
  using assms
  by (induction ps arbitrary: ps')
     (auto simp: bucket_match_iff wf_bucket_push split: if_splits)

text \<open>An update whose allocations succeed, on a word and one of its prefixes.\<close>

definition hash_ins :: "hashtable \<Rightarrow> nat \<Rightarrow> string \<Rightarrow> hashtable" where
  "hash_ins ht n w = fst (completion_hash_update ht w n w True True)"

definition new_bucket :: "nat \<Rightarrow> string \<Rightarrow> bucket" where
  "new_bucket n w = \<lparr>b_h = hashpjw w n, arKey = w, nKeyLength = n, b_count = 1, pData = [w]\<rparr>"

definition ins_chain :: "nat \<Rightarrow> string \<Rightarrow> bucket list \<Rightarrow> bucket list" where
  "ins_chain n w ps =
     (case push_entry (hashpjw w n) w n w ps of Some ps' \<Rightarrow> ps' | None \<Rightarrow> new_bucket n w # ps)"

lemma bkey_new_bucket [simp]: "bkey (new_bucket n w) = take n w"
  by (simp add: new_bucket_def bkey_def)

lemma wf_new_bucket: "0 < n \<Longrightarrow> n \<le> length w \<Longrightarrow> wf_bucket (new_bucket n w)"
  by (simp add: wf_bucket_def new_bucket_def bkey_def take_is_prefix)

lemma hash_ins_eq:
  assumes "0 < n" and "n \<le> length w"
  shows "hash_ins ht n w = ht\<lparr>arBuckets := (arBuckets ht)
    [chain_index ht (take n w) := ins_chain n w (arBuckets ht ! chain_index ht (take n w))]\<rparr>"
  using assms
  by (auto simp: hash_ins_def completion_hash_update_def Let_def chain_index_def ins_chain_def
      new_bucket_def split: option.splits)

lemma ins_chain:
  assumes "\<forall>p \<in> set ps. wf_bucket p \<and> unat (b_h p) mod m = i" and "distinct (map bkey ps)"
    and "0 < n" and "n \<le> length w" and "i = unat (hashpjw w n) mod m"
  shows "\<forall>p \<in> set (ins_chain n w ps). wf_bucket p \<and> unat (b_h p) mod m = i"
    and "distinct (map bkey (ins_chain n w ps))"
    and "chain_look k (ins_chain n w ps) =
      (if k = take n w then w # chain_look k ps else chain_look k ps)"
proof -
  have wf: "\<forall>p \<in> set ps. wf_bucket p" using assms(1) by blast
  show "\<forall>p \<in> set (ins_chain n w ps). wf_bucket p \<and> unat (b_h p) mod m = i"
  proof (cases "push_entry (hashpjw w n) w n w ps")
    case None
    then show ?thesis
      using assms wf_new_bucket by (auto simp: ins_chain_def) (simp add: new_bucket_def)
  next
    case (Some ps')
    note p = push_entry_Some [OF wf assms(4) Some]
    have "b_h ` set ps' = b_h ` set ps" by (metis p(2) list.set_map)
    then have "\<forall>p \<in> set ps'. unat (b_h p) mod m = i" using assms(1) by (metis imageE imageI)
    with p(3) Some show ?thesis by (simp add: ins_chain_def)
  qed
  show "distinct (map bkey (ins_chain n w ps))"
    using assms(2,4) push_entry_None [OF wf assms(4)] push_entry_Some(1) [OF wf assms(4)]
    by (auto simp: ins_chain_def split: option.splits)
  show "chain_look k (ins_chain n w ps) =
      (if k = take n w then w # chain_look k ps else chain_look k ps)"
    using push_entry_None [OF wf assms(4)] push_entry_Some(4) [OF wf assms(4)] chain_look_notin
    by (auto simp: ins_chain_def split: option.splits) (simp add: new_bucket_def)
qed

lemma chain_index_cong [simp]: "chain_index (ht\<lparr>arBuckets := bs\<rparr>) k = chain_index ht k"
  by (simp add: chain_index_def)

lemma hash_ins_laws:
  assumes "wf_hash ht" and "0 < n" and "n \<le> length w"
  shows "wf_hash (hash_ins ht n w)"
    and "entries (hash_ins ht n w) k =
      (if k = take n w then w # entries ht k else entries ht k)"
proof -
  let ?i = "chain_index ht (take n w)"
  let ?ps = "arBuckets ht ! ?i"
  have i: "?i < nTableSize ht" by (rule chain_index_less [OF assms(1)])
  have i_eq: "?i = unat (hashpjw w n) mod nTableSize ht"
    using assms(3) by (simp add: chain_index_def)
  have ps: "\<forall>p \<in> set ?ps. wf_bucket p \<and> unat (b_h p) mod nTableSize ht = ?i"
    "distinct (map bkey ?ps)"
    using assms(1) i by (simp_all add: wf_hash_def)
  note ch = ins_chain [OF ps assms(2,3) i_eq]
  show wf: "wf_hash (hash_ins ht n w)"
    using assms(1) ch(1,2) i
    by (simp add: hash_ins_eq [OF assms(2,3)] wf_hash_def nth_list_update)
  show "entries (hash_ins ht n w) k = (if k = take n w then w # entries ht k else entries ht k)"
  proof -
    have idx: "chain_index (hash_ins ht n w) k = chain_index ht k"
      by (simp add: hash_ins_eq [OF assms(2,3)])
    have bs: "arBuckets (hash_ins ht n w) ! chain_index ht k =
        (if chain_index ht k = ?i then ins_chain n w ?ps else arBuckets ht ! chain_index ht k)"
      using i assms(1) by (simp add: hash_ins_eq [OF assms(2,3)] nth_list_update wf_hash_def)
    show ?thesis
      unfolding entries_eq [OF wf] entries_eq [OF assms(1)] idx bs
      by (simp add: ch(3))
  qed
qed

lemmas wf_hash_ins = hash_ins_laws(1) and entries_hash_ins = hash_ins_laws(2)

text \<open>The table \<open>main\<close> sets up: \<open>completion_hash_init(&ht, 128)\<close>.\<close>

definition ht_init :: hashtable where
  "ht_init = fst (completion_hash_init 128 True \<lparr>nTableSize = 0, initialized = False, arBuckets = []\<rparr>)"

lemma wf_ht_init: "wf_hash ht_init"
  by (simp add: ht_init_def completion_hash_init_def wf_hash_def)

lemma entries_ht_init: "entries ht_init k = []"
  using chain_index_less [OF wf_ht_init, of k]
  by (simp add: entries_eq [OF wf_ht_init]) (simp add: ht_init_def completion_hash_init_def)

interpretation ci: prefix_index ht_init hash_ins entries wf_hash
  by unfold_locales (simp_all add: wf_ht_init entries_ht_init wf_hash_ins entries_hash_ins)

abbreviation alloc_ok :: "nat \<Rightarrow> bool \<times> bool" where
  "alloc_ok \<equiv> (\<lambda>_. (True, True))"

lemma add_word_enter: "add_word alloc_ok ht w = ci.enter w ht"
  by (simp add: add_word_def ci.enter_def hash_ins_def)

text \<open>The table after the words \<open>ws\<close> were entered in order.\<close>

definition words_table :: "string list \<Rightarrow> hashtable" where
  "words_table ws = fold (\<lambda>w ht. add_word alloc_ok ht w) ws ht_init"

lemma words_table_enter: "words_table ws = fold ci.enter ws ht_init"
  by (simp add: words_table_def add_word_enter)

lemma wf_words_table: "wf_hash (words_table ws)"
  by (simp add: words_table_enter ci.inv_enter_all wf_ht_init)

lemma entries_words_table: "k \<noteq> [] \<Longrightarrow> entries (words_table ws) k = rev (filter (prefix k) ws)"
  by (simp add: words_table_enter ci.look_words)

lemma find_wf_bucket:
  assumes "wf_hash ht" and "completion_hash_find ht k (length k) = Some b"
  shows "wf_bucket b" and "bkey b = k" and "entries ht k = pData b"
proof -
  have f: "List.find (\<lambda>p. bkey p = k) (arBuckets ht ! chain_index ht k) = Some b"
    using assms by (simp add: completion_hash_find_eq)
  then show "bkey b = k" and "wf_bucket b"
    using wf_hash_chain [OF assms(1), of b k] by (auto simp: find_Some_iff)
  show "entries ht k = pData b" using assms(2) by (simp add: entries_def)
qed

lemma find_words_table_None:
  "k \<noteq> [] \<Longrightarrow> completion_hash_find (words_table ws) k (length k) = None
     \<longleftrightarrow> (\<forall>w \<in> set ws. \<not> prefix k w)"
proof -
  assume k: "k \<noteq> []"
  have "completion_hash_find (words_table ws) k (length k) = None
      \<longleftrightarrow> entries (words_table ws) k = []"
    using find_wf_bucket [OF wf_words_table [of ws], of k]
    by (auto simp: entries_def wf_bucket_def split: option.splits)
  with k show ?thesis by (simp add: entries_words_table filter_empty_conv)
qed

lemma find_words_table_Some:
  assumes "k \<noteq> []" and "completion_hash_find (words_table ws) k (length k) = Some b"
  shows "pData b = rev (filter (prefix k) ws)" and "b_count b = length (filter (prefix k) ws)"
    and "filter (prefix k) ws \<noteq> []" and "arKey b = hd (filter (prefix k) ws)" and "bkey b = k"
proof -
  note b = find_wf_bucket [OF wf_words_table assms(2)]
  from b(3) show data: "pData b = rev (filter (prefix k) ws)"
    using assms(1) by (simp add: entries_words_table)
  from b(1) data show "b_count b = length (filter (prefix k) ws)"
    by (simp add: wf_bucket_def)
  from b(1) data show "filter (prefix k) ws \<noteq> []" and "arKey b = hd (filter (prefix k) ws)"
    by (auto simp: wf_bucket_def last_rev)
  show "bkey b = k" by (rule b(2))
qed

lemma longest_loop_words:
  assumes "0 < lm" and "lm \<le> length s"
    and "completion_hash_find (words_table ws) (take lm s) lm = Some rb"
    and "bcount = length (filter (prefix (take lm s)) ws)"
    and "longest_loop (words_table ws) bcount s rb lm = (b, m)"
  shows "lm \<le> m \<and> m \<le> length s
    \<and> filter (prefix (take m s)) ws = filter (prefix (take lm s)) ws
    \<and> completion_hash_find (words_table ws) (take m s) m = Some b
    \<and> (m < length s \<longrightarrow> filter (prefix (take (Suc m) s)) ws \<noteq> filter (prefix (take m s)) ws)"
  using assms
proof (induction "words_table ws" bcount s rb lm rule: longest_loop.induct)
  case (1 bcount s rb lm)
  let ?k = "take (lm + 1) s"
  let ?P = "filter (prefix (take lm s)) ws"
  note step = longest_loop.simps [of "words_table ws" bcount s rb lm]
  show ?case
  proof (cases "lm < length s")
    case False
    then have "b = rb" and "m = lm" using 1(6) by (simp_all add: step)
    with False 1(3,4) show ?thesis by simp
  next
    case True
    then have ne: "?k \<noteq> []" by (cases s) auto
    have fnd: "completion_hash_find (words_table ws) s (lm + 1) =
        completion_hash_find (words_table ws) ?k (length ?k)"
      using True by (simp add: completion_hash_find_def)
    have narrower: "filter (prefix ?k) ws = filter (prefix ?k) ?P"
      by (auto intro!: filter_cong simp: take_Suc_conv_app_nth True dest: append_prefixD)
    show ?thesis
    proof (cases "completion_hash_find (words_table ws) s (lm + 1)")
      case None
      then have "filter (prefix ?k) ws = []"
        using find_words_table_None [OF ne, of ws] fnd by (simp add: filter_empty_conv)
      moreover have "?P \<noteq> []"
        using find_words_table_Some(3) [of "take lm s" ws rb] 1(2-4) True by fastforce
      moreover have "b = rb" and "m = lm" using 1(6) None True by (simp_all add: step)
      ultimately show ?thesis using 1(4) True by simp
    next
      case (Some b')
      then have cnt: "b_count b' = length (filter (prefix ?k) ws)"
        using find_words_table_Some(2) [OF ne, of ws b'] fnd by simp
      show ?thesis
      proof (cases "b_count b' < bcount")
        case less: True
        then have "filter (prefix ?k) ws \<noteq> ?P" using cnt 1(5) by auto
        moreover have "b = rb" and "m = lm" using 1(6) Some True less by (simp_all add: step)
        ultimately show ?thesis using 1(4) True by simp
      next
        case False
        have "filter (prefix ?k) ws = ?P"
          using False cnt 1(5) narrower length_filter_less [of _ ?P "prefix ?k"]
          by (metis filter_id_conv leI length_filter_le le_antisym)
        moreover have "longest_loop (words_table ws) bcount s b' (lm + 1) = (b, m)"
          using 1(6) Some True False by (simp add: step)
        ultimately show ?thesis
          using 1(1) [OF True Some False] 1(5) True Some fnd by auto
      qed
    qed
  qed
qed

section \<open>Enumeration\<close>

text \<open>With text to complete, the entries of the bucket come out one by one.\<close>

lemma completions_run:
  "0 < g_textlen g \<Longrightarrow> length (g_e g) < fuel \<Longrightarrow> completions ht text fuel True g = Some (g_e g)"
proof (induction fuel arbitrary: g)
  case (Suc fuel)
  then show ?case
    by (cases "g_e g") (auto simp: new_command_generator_def Let_def)
qed simp

lemma completions_text:
  assumes "text \<noteq> []" and "length (entries ht text) < fuel"
  shows "completions ht text fuel False g = Some (entries ht text)"
proof -
  obtain f where f: "fuel = Suc f" using assms(2) by (cases fuel) auto
  show ?thesis
  proof (cases "completion_hash_find ht text (length text)")
    case None
    then show ?thesis
      using assms f by (simp add: new_command_generator_def find_all_matches_def entries_def)
  next
    case (Some b)
    then show ?thesis
      using assms f
      by (cases "pData b")
         (auto simp: new_command_generator_def find_all_matches_def entries_def Let_def
           completions_run)
  qed
qed

text \<open>Without text, the whole table is walked.\<close>

definition full_words :: "(nat \<times> cstring) list \<Rightarrow> cstring list" where
  "full_words es = map snd (filter (\<lambda>(n, x). length x = n) es)"

lemma full_words_simps [simp]:
  "full_words [] = []"
  "full_words ((n, x) # es) = (if length x = n then x # full_words es else full_words es)"
  by (simp_all add: full_words_def)

definition gen_ok :: "hashtable \<Rightarrow> generator \<Rightarrow> bool" where
  "gen_ok ht g \<longleftrightarrow> (g_e g = [] \<longrightarrow> gen_left ht g = []) \<and> (\<forall>p \<in> set (tl (g_b g)). pData p \<noteq> [])"

definition table_ok :: "hashtable \<Rightarrow> bool" where
  "table_ok ht \<longleftrightarrow> (\<forall>c \<in> set (arBuckets ht). \<forall>p \<in> set c. pData p \<noteq> [])"

lemma next_used_in_set: "next_used i cs = Some (j, c) \<Longrightarrow> c \<in> set cs"
  by (induction i cs rule: next_used.induct) (auto split: if_splits)

lemma next_used_chain_ok:
  assumes "table_ok ht" and "next_used i (chains_from ht k) = Some (j, c)"
  shows "c \<noteq> []" and "\<forall>p \<in> set c. pData p \<noteq> []"
proof -
  have "c \<in> set (arBuckets ht)"
    using next_used_in_set [OF assms(2)]
    by (auto simp: chains_from_def dest: in_set_dropD in_set_takeD)
  with assms(1) show "\<forall>p \<in> set c. pData p \<noteq> []" by (simp add: table_ok_def)
  show "c \<noteq> []" using next_used_Some [OF assms(2)] by simp
qed

lemma gen_ok_advance:
  assumes "table_ok ht" and "gen_ok ht g"
  shows "gen_ok ht (gen_advance ht g)"
proof (cases "tl (g_e g)")
  case (Cons y ys)
  with assms(2) show ?thesis by (simp add: gen_ok_def gen_advance_def)
next
  case e: Nil
  show ?thesis
  proof (cases "tl (g_b g)")
    case (Cons p ps)
    with assms(2) e show ?thesis by (simp add: gen_ok_def gen_advance_def)
  next
    case b: Nil
    show ?thesis
    proof (cases "next_used (Suc (g_i g)) (chains_from ht (Suc (g_i g)))")
      case None
      with e b show ?thesis
        by (simp add: gen_ok_def gen_advance_def gen_left_def chains_from_def)
    next
      case (Some jc)
      obtain j c where jc: "jc = (j, c)" by (cases jc)
      with Some next_used_chain_ok [OF assms(1)] obtain p ps where "c = p # ps"
        "pData p \<noteq> []" "\<forall>q \<in> set ps. pData q \<noteq> []"
        by (cases c) auto
      with e b Some jc show ?thesis by (simp add: gen_ok_def gen_advance_def)
    qed
  qed
qed

lemma textlen_advance [simp]: "g_textlen (gen_advance ht g) = g_textlen g"
  by (simp add: gen_advance_def Let_def split: option.splits)

lemma gen_scan_words:
  assumes "table_ok ht" and "gen_ok ht g" and "gen_scan ht g = (r, g')"
  shows "(case r of None \<Rightarrow> full_words (gen_left ht g) = []
     | Some x \<Rightarrow> full_words (gen_left ht g) = x # full_words (gen_left ht g'))
     \<and> gen_ok ht g' \<and> g_textlen g' = g_textlen g"
  using assms
proof (induction ht g rule: gen_scan.induct)
  case (1 ht g)
  note step = gen_scan.simps [of ht g]
  show ?case
  proof (cases "g_e g")
    case Nil
    with 1 show ?thesis by (auto simp: step gen_ok_def)
  next
    case (Cons x es)
    note left = gen_left_advance [OF Cons, of ht]
    show ?thesis
    proof (cases "length x = nKeyLength (hd (g_b g))")
      case True
      with Cons 1(2-4) left gen_ok_advance [OF 1(2,3)] show ?thesis by (auto simp: step)
    next
      case False
      with Cons 1(4) have "gen_scan ht (gen_advance ht g) = (r, g')" by (simp add: step)
      from 1(1) [OF Cons False 1(2) gen_ok_advance [OF 1(2,3)] this] False
      show ?thesis by (simp add: left split: option.splits)
    qed
  qed
qed

lemma completions_scan:
  "table_ok ht \<Longrightarrow> gen_ok ht g \<Longrightarrow> g_textlen g = 0 \<Longrightarrow> length (full_words (gen_left ht g)) < fuel
   \<Longrightarrow> completions ht text fuel True g = Some (full_words (gen_left ht g))"
proof (induction fuel arbitrary: g)
  case (Suc fuel)
  obtain r g' where r: "gen_scan ht g = (r, g')" by (cases "gen_scan ht g")
  note w = gen_scan_words [OF Suc.prems(1,2) r]
  from r Suc.prems(3) have call: "new_command_generator ht text True g = (r, g')"
    by (simp add: new_command_generator_def)
  show ?case
  proof (cases r)
    case None
    with call w show ?thesis by simp
  next
    case (Some x)
    with w Suc.prems have "completions ht text fuel True g' = Some (full_words (gen_left ht g'))"
      by (intro Suc.IH) auto
    with call w Some show ?thesis by simp
  qed
qed simp

text \<open>In a well-formed table the entries as long as their key are the key itself.\<close>

definition whole_words :: "bucket \<Rightarrow> cstring list" where
  "whole_words p = filter (\<lambda>x. length x = nKeyLength p) (pData p)"

lemma full_words_append: "full_words (xs @ ys) = full_words xs @ full_words ys"
  by (simp add: full_words_def)

lemma full_words_bucket: "full_words (map (Pair (nKeyLength p)) (pData p)) = whole_words p"
  by (simp add: full_words_def whole_words_def filter_map comp_def)

lemma full_words_concat:
  "full_words (concat (map (\<lambda>p. map (Pair (nKeyLength p)) (pData p)) ps)) = concat (map whole_words ps)"
  by (induction ps) (simp_all add: full_words_append full_words_bucket)

lemma count_whole_words:
  assumes "wf_bucket p"
  shows "count (mset (whole_words p)) w = (if bkey p = w then count (mset (pData p)) w else 0)"
proof -
  have "whole_words p = filter (\<lambda>x. x = bkey p) (pData p)"
    unfolding whole_words_def
  proof (rule filter_cong)
    fix x assume "x \<in> set (pData p)"
    with assms obtain t where "x = bkey p @ t"
      by (auto simp: wf_bucket_def prefix_def)
    then show "(length x = nKeyLength p) = (x = bkey p)"
      using length_bkey [OF assms] by simp
  qed simp
  then show ?thesis by auto
qed

lemma chain_count:
  "distinct (map bkey ps) \<Longrightarrow> \<forall>p \<in> set ps. wf_bucket p \<Longrightarrow>
   count (mset (concat (map whole_words ps))) w = count (mset (chain_look w ps)) w"
proof (induction ps)
  case (Cons p ps)
  then show ?case
    using chain_look_notin [of w ps] by (cases "bkey p = w") (auto simp: count_whole_words)
qed simp

lemma count_chains:
  "count (mset (concat (map whole_words (concat cs)))) w
   = sum_list (map (\<lambda>c. count (mset (concat (map whole_words c))) w) cs)"
  by (induction cs) auto

lemma table_count:
  assumes "wf_hash ht"
  shows "count (mset (concat (map whole_words (concat (arBuckets ht))))) w
    = count (mset (entries ht w)) w"
proof -
  let ?cs = "arBuckets ht" and ?i = "chain_index ht w"
  let ?g = "\<lambda>c. count (mset (concat (map whole_words c))) w"
  have len: "length ?cs = nTableSize ht" using assms by (simp add: wf_hash_def)
  have g: "?g (?cs ! j) = (if j = ?i then count (mset (entries ht w)) w else 0)"
    if j: "j < length ?cs" for j
  proof -
    have c: "distinct (map bkey (?cs ! j))"
      "\<forall>p \<in> set (?cs ! j). wf_bucket p \<and> unat (b_h p) mod nTableSize ht = j"
      using assms j len by (auto simp: wf_hash_def)
    then have look: "?g (?cs ! j) = count (mset (chain_look w (?cs ! j))) w"
      by (intro chain_count) auto
    have "w \<notin> bkey ` set (?cs ! j)" if "j \<noteq> ?i"
      using that c(2) b_h_bkey by (auto simp: chain_index_def)
    then show ?thesis
      using look chain_look_notin [of w "?cs ! j"] by (auto simp: entries_eq [OF assms])
  qed
  have "count (mset (concat (map whole_words (concat ?cs)))) w = sum_list (map ?g ?cs)"
    by (rule count_chains)
  also have "\<dots> = (\<Sum>j = 0..<length ?cs. ?g (?cs ! j))"
    by (subst sum_list_sum_nth) (simp add: comp_def)
  also have "\<dots> = (\<Sum>j = 0..<length ?cs. if j = ?i then count (mset (entries ht w)) w else 0)"
    by (rule sum.cong [OF refl], rule g) simp
  also have "\<dots> = count (mset (entries ht w)) w"
    using chain_index_less [OF assms, of w] len by simp
  finally show ?thesis .
qed

lemma whole_words_nonempty: "wf_bucket p \<Longrightarrow> x \<in> set (whole_words p) \<Longrightarrow> x \<noteq> []"
  by (auto simp: whole_words_def wf_bucket_def)

lemma wf_hash_table_ok: "wf_hash ht \<Longrightarrow> table_ok ht"
  unfolding table_ok_def wf_hash_def wf_bucket_def
  by (metis in_set_conv_nth)

text \<open>A first call with an empty text starts the walk at the first used chain.\<close>

lemma completions_all:
  assumes "wf_hash ht" and "g_e g = []"
    and "length (concat (map whole_words (concat (arBuckets ht)))) < fuel"
  shows "completions ht [] fuel False g = Some (concat (map whole_words (concat (arBuckets ht))))"
proof -
  obtain f where f: "fuel = Suc f" using assms(3) by (cases fuel) auto
  have all: "chains_from ht 0 = arBuckets ht"
    using assms(1) by (simp add: chains_from_def wf_hash_def)
  note ok = wf_hash_table_ok [OF assms(1)]
  show ?thesis
  proof (cases "next_used 0 (arBuckets ht)")
    case None
    then have "concat (arBuckets ht) = []" by (rule next_used_None)
    with None all f assms(2) show ?thesis
      by (auto simp: new_command_generator_def)
  next
    case (Some jc)
    obtain i c where jc: "jc = (i, c)" by (cases jc)
    from next_used_chain_ok [OF ok, of 0 0 i c] Some jc all
    obtain p ps where c: "c = p # ps" "pData p \<noteq> []" "\<forall>q \<in> set ps. pData q \<noteq> []"
      by (cases c) auto
    let ?g = "g\<lparr>g_textlen := 0, g_i := i, g_b := c, g_e := pData p\<rparr>"
    have gok: "gen_ok ht ?g" using c by (simp add: gen_ok_def)
    have left: "full_words (gen_left ht ?g) = concat (map whole_words (concat (arBuckets ht)))"
    proof -
      have "concat (arBuckets ht) = c @ concat (chains_from ht (Suc i))"
      proof -
        have "concat (chains_from ht 0) = c @ concat (drop (Suc (i - 0)) (chains_from ht 0))"
          by (rule next_used_drop) (simp only: all Some jc)
        also have "drop (Suc (i - 0)) (chains_from ht 0) = chains_from ht (Suc i)"
          by (simp add: drop_chains_from)
        finally show ?thesis by (simp only: all)
      qed
      then show ?thesis
        by (simp add: gen_left_def full_words_append full_words_bucket full_words_concat c)
    qed
    have "completions ht [] fuel False g = completions ht [] fuel True ?g"
      using Some jc all c f by (simp add: new_command_generator_def)
    also have "\<dots> = Some (full_words (gen_left ht ?g))"
      using assms(3) left by (intro completions_scan ok gok) simp_all
    finally show ?thesis using left by simp
  qed
qed


section \<open>Properties\<close>

lemma completion_hash_update_any:
  assumes "wf_hash ht" and "0 < n" and "n \<le> length w"
  shows "fst (completion_hash_update ht w n w a1 a2) \<in> {ht, hash_ins ht n w}"
  by (auto simp: completion_hash_update_def hash_ins_def Let_def split: option.splits)

lemma add_word_any:
  assumes "wf_hash ht" and "m \<le> length w"
    and "H = fold (\<lambda>i ht. fst (completion_hash_update ht w i w (fst (alloc i)) (snd (alloc i))))
           [1..<Suc m] ht"
  shows "wf_hash H \<and> entries H k \<in> {entries ht k, w # entries ht k}
    \<and> (m < length k \<or> \<not> prefix k w \<or> k = [] \<longrightarrow> entries H k = entries ht k)"
  using assms(2,3)
proof (induction m arbitrary: H)
  case 0
  then show ?case using assms(1) by simp
next
  case (Suc m)
  let ?H = "fold (\<lambda>i ht. fst (completion_hash_update ht w i w (fst (alloc i)) (snd (alloc i))))
    [1..<Suc m] ht"
  have IH: "wf_hash ?H" "entries ?H k \<in> {entries ht k, w # entries ht k}"
    "m < length k \<or> \<not> prefix k w \<or> k = [] \<Longrightarrow> entries ?H k = entries ht k"
    using Suc by simp_all
  have "H \<in> {?H, hash_ins ?H (Suc m) w}"
    using completion_hash_update_any [OF IH(1), of "Suc m" w] Suc.prems by simp
  then consider "H = ?H" | "H = hash_ins ?H (Suc m) w" by blast
  then show ?case
  proof cases
    case 1
    with IH show ?thesis by auto
  next
    case 2
    have wf: "wf_hash H" using 2 IH(1) Suc.prems by (simp add: wf_hash_ins)
    have e: "entries H k = (if k = take (Suc m) w then w # entries ?H k else entries ?H k)"
      using 2 IH(1) Suc.prems by (simp add: entries_hash_ins)
    show ?thesis
    proof (cases "k = take (Suc m) w")
      case True
      then have "length k = Suc m" and "prefix k w" and "k \<noteq> []"
        using Suc.prems by (auto simp: take_is_prefix)
      with True e IH(3) wf show ?thesis by auto
    next
      case False
      with e IH wf show ?thesis by auto
    qed
  qed
qed

text \<open>
  C6: for a non-empty text, the calls readline makes of the generator return exactly the
  words entered that begin with the text, newest first, and then the null pointer.
\<close>

theorem completions_of_prefix:
  assumes "text \<noteq> []" and "length ws < fuel"
  shows "completions (words_table ws) text fuel False g = Some (rev (filter (prefix text) ws))"
  using assms le_less_trans [OF length_filter_le, of ws fuel "prefix text"]
  by (simp add: completions_text entries_words_table)

theorem completions_of_prefix_witness:
  "completions (words_table [''use'', ''user'', ''go'']) ''us'' 4 False
     \<lparr>g_textlen = 0, g_b = [], g_e = [], g_i = 0\<rparr> = Some [''user'', ''use'']"
  using completions_of_prefix [of "''us''" "[''use'', ''user'', ''go'']" 4
    "\<lparr>g_textlen = 0, g_b = [], g_e = [], g_i = 0\<rparr>"] by simp

text \<open>
  C13: for an empty text, the walk of the whole table returns every non-empty word as often
  as it was entered, and then the null pointer.
\<close>

theorem completions_of_nothing:
  assumes "length ws < fuel" and "g_e g = []"
  shows "\<exists>xs. completions (words_table ws) [] fuel False g = Some xs
    \<and> mset xs = mset (filter (\<lambda>w. w \<noteq> []) ws)"
proof (intro exI conjI)
  let ?xs = "concat (map whole_words (concat (arBuckets (words_table ws))))"
  have wf: "wf_hash (words_table ws)" by (rule wf_words_table)
  have nonempty: "[] \<notin> set ?xs"
    using wf whole_words_nonempty by (fastforce simp: wf_hash_def in_set_conv_nth)
  show same: "mset ?xs = mset (filter (\<lambda>w. w \<noteq> []) ws)"
  proof (rule multiset_eqI)
    fix w
    show "count (mset ?xs) w = count (mset (filter (\<lambda>w. w \<noteq> []) ws)) w"
    proof (cases "w = []")
      case True
      with nonempty have "count (mset ?xs) w = 0" by (metis count_mset_0_iff)
      with True show ?thesis by simp
    next
      case False
      have "count (mset ?xs) w = count (mset (filter (prefix w) ws)) w"
        using False by (simp add: table_count [OF wf] entries_words_table)
      with False show ?thesis by simp
    qed
  qed
  have "length ?xs \<le> length ws"
    using same by (metis length_filter_le size_mset)
  with assms wf show "completions (words_table ws) [] fuel False g = Some ?xs"
    by (intro completions_all) auto
qed

theorem completions_of_nothing_witness:
  "\<exists>xs. completions (words_table [''use'', [], ''use'']) [] 4 False
      \<lparr>g_textlen = 3, g_b = [], g_e = [], g_i = 0\<rparr> = Some xs \<and> mset xs = {#''use'', ''use''#}"
  using completions_of_nothing [of "[''use'', [], ''use'']" 4
    "\<lparr>g_textlen = 3, g_b = [], g_e = [], g_i = 0\<rparr>"] by simp

text \<open>
  C14: \<open>find_longest_match\<close> extends a prefix that some word has to the longest prefix of the
  newest such word under which no word is lost, and returns its bucket and its length.
\<close>

theorem find_longest_match_maximal:
  assumes "k \<noteq> []" and "filter (prefix k) ws \<noteq> []"
    and "s = last (filter (prefix k) ws)"
    and "find_longest_match (words_table ws) k (length k) = (r, m)"
  shows "length k \<le> m \<and> m \<le> length s \<and> r \<noteq> None
    \<and> pData (the r) = rev (filter (prefix (take m s)) ws)
    \<and> filter (prefix (take m s)) ws = filter (prefix k) ws
    \<and> (m < length s \<longrightarrow> filter (prefix (take (Suc m) s)) ws \<noteq> filter (prefix k) ws)"
proof -
  obtain b where b: "completion_hash_find (words_table ws) k (length k) = Some b"
    using find_words_table_None [OF assms(1), of ws] assms(2) by (auto simp: filter_empty_conv)
  note fb = find_words_table_Some [OF assms(1) b]
  have s: "hd (pData b) = s" using fb(1) assms(2,3) by (simp add: hd_rev)
  have "s \<in> set (filter (prefix k) ws)" using assms(2,3) last_in_set by metis
  then obtain t where t: "s = k @ t" by (auto simp: prefix_def)
  obtain rb where r: "r = Some rb"
    and loop: "longest_loop (words_table ws) (b_count b) s b (length k) = (rb, m)"
    using assms(4) b s by (auto simp: find_longest_match_def split: prod.splits)
  have "length k \<le> m \<and> m \<le> length s
    \<and> filter (prefix (take m s)) ws = filter (prefix (take (length k) s)) ws
    \<and> completion_hash_find (words_table ws) (take m s) m = Some rb
    \<and> (m < length s \<longrightarrow> filter (prefix (take (Suc m) s)) ws \<noteq> filter (prefix (take m s)) ws)"
    using assms(1) b fb(2) t by (intro longest_loop_words [OF _ _ _ _ loop]) simp_all
  moreover from this have "pData rb = rev (filter (prefix (take m s)) ws)"
    using find_words_table_Some(1) [of "take m s" ws rb] assms(1) t by (cases k) auto
  moreover have "take (length k) s = k" using t by simp
  ultimately show ?thesis using r by auto
qed

theorem find_longest_match_witness:
  "\<exists>b m. find_longest_match (words_table [''usage'', ''user'', ''users'']) ''use'' (length ''use'')
      = (Some b, m) \<and> m \<le> 5 \<and> take m ''users'' \<noteq> ''us''"
proof -
  obtain r m where "find_longest_match (words_table [''usage'', ''user'', ''users'']) ''use''
      (length ''use'') = (r, m)"
    by (rule prod.exhaust)
  with find_longest_match_maximal [OF _ _ _ this, of "''users''"] show ?thesis
    by (cases r) auto
qed

text \<open>
  C15: whatever allocations fail, entering a word keeps the table well formed, adds the word
  at most once under each of its prefixes, and changes no other list of completions.
\<close>

theorem add_word_out_of_memory:
  assumes "wf_hash ht"
  shows "wf_hash (add_word alloc ht w)
    \<and> entries (add_word alloc ht w) k \<in> {entries ht k, w # entries ht k}
    \<and> (\<not> prefix k w \<or> k = [] \<longrightarrow> entries (add_word alloc ht w) k = entries ht k)"
  using add_word_any [OF assms order_refl, of "add_word alloc ht w" w alloc k]
  by (auto simp: add_word_def)

theorem add_word_out_of_memory_witness:
  "wf_hash ht_init \<and> wf_hash (add_word (\<lambda>i. (i \<noteq> 2, True)) ht_init ''use'')
     \<and> entries (add_word (\<lambda>i. (i \<noteq> 2, True)) ht_init ''use'') ''s'' = []"
  using add_word_out_of_memory [OF wf_ht_init, of "\<lambda>i. (i \<noteq> 2, True)" "''use''" "''s''"] wf_ht_init
  by (simp add: entries_ht_init)

text \<open>
  C16: \<open>completion_hash_exists\<close> finds a word only if it was the first of the words with it as
  a prefix to be entered: a word entered after a longer one that it is a prefix of is
  reported as missing.
\<close>

theorem completion_hash_exists_words:
  assumes "w \<noteq> []"
  shows "completion_hash_exists (words_table ws) w (length w)
    \<longleftrightarrow> filter (prefix w) ws \<noteq> [] \<and> hd (filter (prefix w) ws) = w"
proof -
  let ?ht = "words_table ws"
  let ?chain = "arBuckets ?ht ! chain_index ?ht w"
  have wf: "wf_hash ?ht" by (rule wf_words_table)
  have chain: "\<forall>p \<in> set ?chain. wf_bucket p"
    using wf_hash_chain [OF wf, of _ w] by blast
  have d: "distinct (map bkey ?chain)"
    using wf chain_index_less [OF wf, of w] by (simp add: wf_hash_def)
  have ex: "completion_hash_exists ?ht w (length w)
      \<longleftrightarrow> (\<exists>p \<in> set ?chain. bkey p = w \<and> arKey p = w)"
  proof -
    have "b_h p = hashpjw w (length w) \<and> nKeyLength p = length w \<and> arKey p = w
        \<longleftrightarrow> bkey p = w \<and> arKey p = w" if "p \<in> set ?chain" for p
    proof -
      have wfp: "wf_bucket p" using chain that by blast
      have "bkey p = w" if "nKeyLength p = length w" and "arKey p = w"
        using that by (simp add: bkey_def)
      then show ?thesis
        using length_bkey [OF wfp] b_h_bkey [OF wfp] by metis
    qed
    then show ?thesis
      by (auto simp: completion_hash_exists_def Let_def chain_index_def list_ex_iff)
  qed
  show ?thesis
  proof (cases "completion_hash_find ?ht w (length w)")
    case None
    then have "filter (prefix w) ws = []"
      using find_words_table_None [OF assms, of ws] by (simp add: filter_empty_conv)
    moreover have "\<forall>p \<in> set ?chain. bkey p \<noteq> w"
      using None by (simp add: completion_hash_find_eq [OF wf] find_None_iff)
    ultimately show ?thesis using ex by blast
  next
    case (Some b)
    note b = find_words_table_Some [OF assms Some]
    have "b \<in> set ?chain"
      using Some by (auto simp: completion_hash_find_eq [OF wf] find_Some_iff)
    then have "(\<exists>p \<in> set ?chain. bkey p = w \<and> arKey p = w) \<longleftrightarrow> arKey b = w"
      using d b(5) by (auto simp: distinct_map inj_on_def)
    with ex b(3,4) show ?thesis by auto
  qed
qed

theorem completion_hash_exists_words_witness:
  "\<not> completion_hash_exists (words_table [''users'', ''user'']) ''user'' (length ''user'')
     \<and> completion_hash_exists (words_table [''user'', ''users'']) ''user'' (length ''user'')"
  using completion_hash_exists_words [of "''user''" "[''users'', ''user'']"]
    completion_hash_exists_words [of "''user''" "[''user'', ''users'']"] by simp

end
