(* ===== verification/LineBuffer.thy ===== *)
theory LineBuffer
  imports Prelude "HOL-Library.Monad_Syntax"
begin

text \<open>
  The buffered line reader of batch input (\<^verbatim>\<open>client/readline.cc\<close>, with the file read of
  \<^verbatim>\<open>mysys/my_read.c\<close> below it). \<open>lb_buffer\<close> holds the bytes before \<open>buffer->end\<close>, so
  that \<open>end\<close> is its length; the array behind it has \<open>bufread + 1\<close> bytes. Pointers into the
  buffer are offsets. The system call \<open>read\<close> is a parameter acting on an abstract file
  state, and \<open>alloc\<close> says which reallocations succeed. The loops are partial functions to
  \<open>option\<close>: \<open>None\<close> is the value of a loop that does not end.
\<close>

section \<open>Data\<close>

record line_buffer =
  lb_buffer :: string
  start_of_line :: nat
  end_of_line :: nat
  bufread :: nat
  lb_eof :: nat
  max_size :: nat
  read_length :: nat
  lb_error :: bool
  truncated :: bool

abbreviation IO_SIZE :: nat where "IO_SIZE \<equiv> 4096"

abbreviation uint_range :: nat where "uint_range \<equiv> 2 ^ 32"

definition uint_sub :: "nat \<Rightarrow> nat \<Rightarrow> nat" where
  "uint_sub a b = (a + uint_range - b) mod uint_range"

section \<open>Operations\<close>

text \<open>\<open>read(2)\<close> returns the bytes it got, or fails with an error number.\<close>

datatype sys_result = Got string | Failed nat

abbreviation EINTR :: nat where "EINTR \<equiv> 4"

text \<open>\<open>my_read\<close> with the flag \<open>MY_WME\<close>: short reads are returned, interrupted ones retried.\<close>

partial_function (option) my_read ::
  "('f \<Rightarrow> nat \<Rightarrow> sys_result \<times> 'f) \<Rightarrow> 'f \<Rightarrow> nat \<Rightarrow> (string option \<times> 'f) option" where
  "my_read sys f n =
     (case sys f n of
        (Got bs, f) \<Rightarrow> Some (Some bs, f)
      | (Failed e, f) \<Rightarrow> if e = EINTR then my_read sys f n else Some (None, f))"

definition init_line_buffer :: "nat \<Rightarrow> nat \<Rightarrow> line_buffer" where
  "init_line_buffer sz max_buffer =
     \<lparr>lb_buffer = [], start_of_line = 0, end_of_line = 0, bufread = sz, lb_eof = 0,
      max_size = max_buffer, read_length = 0, lb_error = False, truncated = False\<rparr>"

text \<open>The zero-filled structure, and adding a command string to it.\<close>

definition zero_line_buffer :: line_buffer where
  "zero_line_buffer = init_line_buffer 0 0"

definition init_line_buffer_from_string :: "line_buffer \<Rightarrow> cstring \<Rightarrow> line_buffer" where
  "init_line_buffer_from_string b str =
     (let old = lb_buffer b;
          buf = (if old \<noteq> [] then old[length old - 1 := CHR '' ''] else old)
      in b\<lparr>lb_buffer := buf @ str @ [NL], start_of_line := 0, end_of_line := 0,
           lb_eof := 1, max_size := 1\<rparr>)"

definition batch_readline_init :: "nat \<Rightarrow> bool \<Rightarrow> bool \<Rightarrow> line_buffer option" where
  "batch_readline_init maxs stat_ok dir_or_blk =
     (if \<not> stat_ok \<or> dir_or_blk then None else Some (init_line_buffer IO_SIZE maxs))"

definition batch_readline_command :: "line_buffer option \<Rightarrow> cstring \<Rightarrow> line_buffer" where
  "batch_readline_command line_buff str =
     init_line_buffer_from_string
       (case line_buff of None \<Rightarrow> zero_line_buffer | Some b \<Rightarrow> b) str"

text \<open>
  The loop that grows the buffer. It gives the number of bytes to read, 0 when the size
  limit is hit, or \<open>None\<close> for the error return. The loop's own assignments to
  \<open>start_of_line\<close> and \<open>end\<close> only move the pointers to the new array.
\<close>

partial_function (option) fill_grow ::
  "(nat \<Rightarrow> bool) \<Rightarrow> nat \<Rightarrow> line_buffer \<Rightarrow> (nat option \<times> line_buffer) option" where
  "fill_grow alloc bufbytes b =
     (let read_count = uint_sub (bufread b) bufbytes div IO_SIZE * IO_SIZE in
      if read_count \<noteq> 0 then Some (Some read_count, b)
      else if bufread b * 2 mod uint_range > max_size b then Some (Some 0, b)
      else let b = b\<lparr>bufread := bufread b * 2 mod uint_range\<rparr> in
        if \<not> alloc (bufread b + 1) then Some (None, b\<lparr>lb_buffer := [], lb_error := True\<rparr>)
        else fill_grow alloc bufbytes b)"

definition fill_buffer ::
  "('f \<Rightarrow> nat \<Rightarrow> sys_result \<times> 'f) \<Rightarrow> (nat \<Rightarrow> bool) \<Rightarrow> line_buffer \<Rightarrow> 'f \<Rightarrow>
   (nat option \<times> line_buffer \<times> 'f) option" where
  "fill_buffer sys alloc b f =
     (let bufbytes = length (lb_buffer b) - start_of_line b in
      if lb_eof b \<noteq> 0 then Some (Some 0, b, f)
      else Option.bind (fill_grow alloc bufbytes b) (\<lambda>(r, b).
        case r of
          None \<Rightarrow> Some (None, b, f)
        | Some read_count \<Rightarrow>
            if read_count = 0 then Some (Some 0, b, f)
            else
              let b = (if start_of_line b \<noteq> 0
                       then b\<lparr>lb_buffer := drop (start_of_line b) (lb_buffer b)\<rparr> else b)
              in Option.bind (my_read sys f read_count) (\<lambda>(r, f).
                case r of
                  None \<Rightarrow> Some (None, b\<lparr>lb_error := True\<rparr>, f)
                | Some bs \<Rightarrow>
                    let eof = (if bs = [] then 1 else lb_eof b);
                        bs = (if bs = [] \<and> bufbytes \<noteq> 0 \<and> last (lb_buffer b) \<noteq> NL
                              then [NL] else bs)
                    in Some (Some (length bs),
                             b\<lparr>lb_eof := eof, start_of_line := 0, end_of_line := bufbytes,
                               lb_buffer := lb_buffer b @ bs\<rparr>, f))))"

text \<open>
  The loop of \<open>intern_read_line\<close>, giving the length of the line that starts at
  \<open>start_of_line\<close>, or \<open>None\<close> for the null pointer.
\<close>

partial_function (option) read_loop ::
  "('f \<Rightarrow> nat \<Rightarrow> sys_result \<times> 'f) \<Rightarrow> (nat \<Rightarrow> bool) \<Rightarrow> line_buffer \<Rightarrow> 'f \<Rightarrow>
   (nat option \<times> line_buffer \<times> 'f) option" where
  "read_loop sys alloc b f =
     (let pos = end_of_line b
            + length (takeWhile (\<lambda>c. c \<noteq> NL) (drop (end_of_line b) (lb_buffer b)))
      in if pos = length (lb_buffer b) then
           Option.bind (fill_buffer sys alloc b f) (\<lambda>(r, b, f).
             case r of
               None \<Rightarrow> Some (None, b, f)
             | Some n \<Rightarrow>
                 if n \<noteq> 0 then read_loop sys alloc b f
                 else if lb_eof b \<noteq> 0 then Some (None, b, f)
                 else Some (Some (pos - 1 + 1 - lb_eof b - start_of_line b),
                            b\<lparr>truncated := True, end_of_line := pos - 1 + 1\<rparr>, f))
         else Some (Some (pos + 1 - lb_eof b - start_of_line b),
                    b\<lparr>truncated := False, end_of_line := pos + 1\<rparr>, f))"

definition intern_read_line ::
  "('f \<Rightarrow> nat \<Rightarrow> sys_result \<times> 'f) \<Rightarrow> (nat \<Rightarrow> bool) \<Rightarrow> line_buffer \<Rightarrow> 'f \<Rightarrow>
   (nat option \<times> line_buffer \<times> 'f) option" where
  "intern_read_line sys alloc b f =
     read_loop sys alloc (b\<lparr>start_of_line := end_of_line b\<rparr>) f"

text \<open>The line is the bytes from \<open>start_of_line\<close> on, ended by the NUL written there.\<close>

definition batch_readline ::
  "('f \<Rightarrow> nat \<Rightarrow> sys_result \<times> 'f) \<Rightarrow> (nat \<Rightarrow> bool) \<Rightarrow> bool \<Rightarrow> line_buffer \<Rightarrow> 'f \<Rightarrow>
   (string option \<times> line_buffer \<times> 'f) option" where
  "batch_readline sys alloc binary_mode b f =
     Option.bind (intern_read_line sys alloc b f) (\<lambda>(r, b, f).
       case r of
         None \<Rightarrow> Some (None, b, f)
       | Some out_length \<Rightarrow>
           let pos = drop (start_of_line b) (lb_buffer b);
               out_length =
                 (if out_length \<noteq> 0 \<and> ch_at pos (out_length - 1) = NL then
                    (let n = out_length - 1 in
                     if n \<noteq> 0 \<and> \<not> binary_mode \<and> ch_at pos (n - 1) = CR then n - 1 else n)
                  else out_length);
               buf = (lb_buffer b)[start_of_line b + out_length := NUL]
           in Some (Some (take out_length (drop (start_of_line b) buf)),
                    b\<lparr>read_length := out_length, lb_buffer := buf\<rparr>, f))"

section \<open>The file below\<close>

text \<open>
  What \<open>read(2)\<close> promises on a file of known contents: it returns a non-empty piece of what
  is left, no longer than asked for, or nothing at the end; it may be interrupted, but not
  forever, which \<open>intr\<close> counts.
\<close>

definition file_source ::
  "('f \<Rightarrow> nat \<Rightarrow> sys_result \<times> 'f) \<Rightarrow> ('f \<Rightarrow> string) \<Rightarrow> ('f \<Rightarrow> nat) \<Rightarrow> bool" where
  "file_source sys contents intr \<longleftrightarrow>
     (\<forall>f n. 0 < n \<longrightarrow>
        (case sys f n of
           (Got bs, f') \<Rightarrow> length bs \<le> n \<and> contents f = bs @ contents f'
             \<and> (bs = [] \<longrightarrow> contents f = [])
         | (Failed e, f') \<Rightarrow> e = EINTR \<and> contents f' = contents f \<and> intr f' < intr f))"

lemma my_read_source:
  assumes "file_source sys contents intr" and "0 < n"
  shows "\<exists>bs f'. my_read sys f n = Some (Some bs, f') \<and> length bs \<le> n
    \<and> contents f = bs @ contents f' \<and> (bs = [] \<longrightarrow> contents f = [])"
proof (induction "intr f" arbitrary: f rule: less_induct)
  case less
  have step: "case sys f n of
      (Got bs, f') \<Rightarrow> length bs \<le> n \<and> contents f = bs @ contents f' \<and> (bs = [] \<longrightarrow> contents f = [])
    | (Failed e, f') \<Rightarrow> e = EINTR \<and> contents f' = contents f \<and> intr f' < intr f"
    using assms by (simp add: file_source_def)
  obtain r f' where sys: "sys f n = (r, f')" by (rule prod.exhaust)
  show ?case
  proof (cases r)
    case (Got bs)
    with step sys show ?thesis by (auto simp: my_read.simps [of sys f n])
  next
    case (Failed e)
    with step sys less [of f'] show ?thesis by (simp add: my_read.simps [of sys f n])
  qed
qed

section \<open>The invariant\<close>

text \<open>
  The bytes and the sentinel after them fit the allocated \<open>bufread + 1\<close> bytes, the pointers
  are in order, and the sizes are far enough from the width of \<open>uint\<close> for doubling.
\<close>

definition wf_lb :: "line_buffer \<Rightarrow> bool" where
  "wf_lb b \<longleftrightarrow> start_of_line b \<le> end_of_line b \<and> end_of_line b \<le> length (lb_buffer b)
     \<and> length (lb_buffer b) \<le> bufread b \<and> IO_SIZE \<le> bufread b
     \<and> bufread b < 2 ^ 31 \<and> max_size b < 2 ^ 31"

lemma wf_lb_ptrs:
  "wf_lb b \<Longrightarrow> start_of_line b \<le> end_of_line b \<and> end_of_line b \<le> length (lb_buffer b)"
  by (simp add: wf_lb_def)

lemma uint_sub_le: "b \<le> a \<Longrightarrow> a < uint_range \<Longrightarrow> uint_sub a b = a - b"
proof -
  assume "b \<le> a" and "a < uint_range"
  then have "a + uint_range - b = (a - b) + uint_range" and "a - b < uint_range" by simp_all
  then show ?thesis by (simp only: uint_sub_def mod_add_self2 mod_less)
qed

lemma fill_grow_spec:
  assumes "bufbytes \<le> bufread b" and "IO_SIZE \<le> bufread b" and "bufread b < 2 ^ 31"
    and "max_size b < 2 ^ 31" and "\<And>n. alloc n"
  obtains (limit) "fill_grow alloc bufbytes b = Some (Some 0, b)"
      "bufread b < bufbytes + IO_SIZE" "max_size b < 2 * bufread b"
  | (room) n k where "fill_grow alloc bufbytes b = Some (Some n, b\<lparr>bufread := k\<rparr>)"
      "0 < n" "bufbytes + n \<le> k" "bufread b \<le> k" "k < 2 ^ 31"
proof -
  have sub: "uint_sub k bufbytes = k - bufbytes" if "bufbytes \<le> k" "k < 2 ^ 31" for k
    using that by (simp add: uint_sub_le)
  have le: "bufbytes + (k - bufbytes) div IO_SIZE * IO_SIZE \<le> k" if "bufbytes \<le> k" for k
    using that div_times_less_eq_dividend [of "k - bufbytes" IO_SIZE] by linarith
  show thesis
  proof (cases "(bufread b - bufbytes) div IO_SIZE = 0")
    case False
    have "fill_grow alloc bufbytes b =
        Some (Some ((bufread b - bufbytes) div IO_SIZE * IO_SIZE), b\<lparr>bufread := bufread b\<rparr>)"
      using False sub [of "bufread b"] assms by (simp add: fill_grow.simps [of alloc bufbytes b])
    then show thesis
      using False le [of "bufread b"] assms
      by - (rule room [of "(bufread b - bufbytes) div IO_SIZE * IO_SIZE" "bufread b"], simp_all)
  next
    case True
    then have small: "bufread b < bufbytes + IO_SIZE" using assms(1) by (simp add: div_eq_0_iff)
    have dbl: "bufread b * 2 mod uint_range = bufread b * 2" using assms(3) by simp
    show thesis
    proof (cases "max_size b < 2 * bufread b")
      case lim: True
      show thesis
        by (rule limit)
          (use True lim small dbl sub [of "bufread b"] assms in
            \<open>simp_all add: fill_grow.simps [of alloc bufbytes b]\<close>)
    next
      case False
      let ?k = "bufread b * 2"
      let ?b = "b\<lparr>bufread := ?k\<rparr>"
      have big: "bufbytes \<le> ?k" "?k < 2 ^ 31" "(?k - bufbytes) div IO_SIZE \<noteq> 0"
        using False assms by (auto simp: div_eq_0_iff)
      have "fill_grow alloc bufbytes b = fill_grow alloc bufbytes ?b"
        using True False dbl sub [of "bufread b"] assms
        by (simp add: fill_grow.simps [of alloc bufbytes b])
      also have "\<dots> = Some (Some ((?k - bufbytes) div IO_SIZE * IO_SIZE), ?b)"
        using big sub [of ?k] by (simp add: fill_grow.simps [of alloc bufbytes ?b])
      finally show thesis
        using big le [of ?k] assms
        by - (rule room [of "(?k - bufbytes) div IO_SIZE * IO_SIZE" ?k], simp_all)
    qed
  qed
qed

text \<open>The outcomes of \<open>fill_buffer\<close>: the size limit, new bytes, or the end of the file.\<close>

lemma fill_buffer_spec:
  assumes wf: "wf_lb b" and src: "file_source sys contents intr" and al: "\<And>n. alloc n"
    and eof: "lb_eof b = 0" and rest: "rest = drop (start_of_line b) (lb_buffer b)"
  obtains (limit) "fill_buffer sys alloc b f = Some (Some 0, b, f)"
      "bufread b < length rest + IO_SIZE" "max_size b < 2 * bufread b"
  | (data) b' bs f' where "fill_buffer sys alloc b f = Some (Some (length bs), b', f')"
      "bs \<noteq> []" "contents f = bs @ contents f'" "wf_lb b'" "lb_eof b' = 0"
      "max_size b' = max_size b" "start_of_line b' = 0" "end_of_line b' = length rest"
      "lb_buffer b' = rest @ bs"
  | (ended) b' n f' where "fill_buffer sys alloc b f = Some (Some n, b', f')"
      "contents f = []" "contents f' = []" "wf_lb b'" "lb_eof b' = 1"
      "max_size b' = max_size b" "start_of_line b' = 0" "end_of_line b' = length rest"
      "lb_buffer b' = rest @ (if rest = [] \<or> last rest = NL then [] else [NL])"
      "n = (if rest = [] \<or> last rest = NL then 0 else 1)"
proof -
  have len: "length (lb_buffer b) - start_of_line b = length rest" by (simp add: rest)
  have le: "length rest \<le> bufread b" using wf rest by (auto simp: wf_lb_def)
  from le wf have pre: "length rest \<le> bufread b" "IO_SIZE \<le> bufread b" "bufread b < 2 ^ 31"
    "max_size b < 2 ^ 31" by (simp_all add: wf_lb_def)
  show thesis
  proof (rule fill_grow_spec [OF pre al])
    assume g: "fill_grow alloc (length rest) b = Some (Some 0, b)"
      and lim: "bufread b < length rest + IO_SIZE" "max_size b < 2 * bufread b"
    show thesis
      by (rule limit) (use g lim eof len in \<open>simp_all add: fill_buffer_def\<close>)
  next
    fix n k
    assume g: "fill_grow alloc (length rest) b = Some (Some n, b\<lparr>bufread := k\<rparr>)"
      and n: "0 < n" "length rest + n \<le> k" "bufread b \<le> k" "k < 2 ^ 31"
    obtain bs f' where r: "my_read sys f n = Some (Some bs, f')" "length bs \<le> n"
      "contents f = bs @ contents f'" "bs = [] \<longrightarrow> contents f = []"
      using my_read_source [OF src n(1), of f] by blast
    let ?eof = "if bs = [] then 1 else 0"
    let ?bs = "if bs = [] \<and> rest \<noteq> [] \<and> last rest \<noteq> NL then [NL] else bs"
    let ?b = "b\<lparr>bufread := k, lb_eof := ?eof, start_of_line := 0, end_of_line := length rest,
      lb_buffer := rest @ ?bs\<rparr>"
    have fb: "fill_buffer sys alloc b f = Some (Some (length ?bs), ?b, f')"
      using g n r(1) eof unfolding rest
      by (cases b; cases "start_of_line b = 0") (simp_all add: fill_buffer_def Let_def)
    have "length ?bs \<le> n" using r(2) n(1) by simp
    then have wf': "wf_lb ?b" using wf n by (auto simp: wf_lb_def)
    show thesis
    proof (cases "bs = []")
      case True
      show thesis
        by (rule ended [of "length ?bs" ?b f']) (use fb wf' r True in auto)
    next
      case False
      show thesis
        by (rule data [of ?bs ?b f']) (use fb wf' r False in auto)
    qed
  qed
qed


section \<open>Reading a line\<close>

abbreviation line_part :: "string \<Rightarrow> string" where
  "line_part s \<equiv> takeWhile (\<lambda>c. c \<noteq> NL) s"

text \<open>The outcome of the loop when \<open>P\<close> is what was left to read.\<close>

definition line_read :: "string \<Rightarrow> nat option \<Rightarrow> line_buffer \<Rightarrow> string \<Rightarrow> bool" where
  "line_read P r b c \<longleftrightarrow>
     (if NL \<in> set P then r = Some (Suc (length (line_part P))) \<and> lb_eof b = 0 \<and> \<not> truncated b
        \<and> drop (start_of_line b) (lb_buffer b) @ c = P
        \<and> end_of_line b = start_of_line b + Suc (length (line_part P))
      else lb_eof b = 1 \<and> c = [] \<and> end_of_line b = length (lb_buffer b)
        \<and> (if P = [] then r = None
           else r = Some (length P) \<and> \<not> truncated b
             \<and> drop (start_of_line b) (lb_buffer b) = P @ [NL]))"

text \<open>The outcome when the buffer has hit its size limit: a piece of a long line.\<close>

definition cut_read :: "string \<Rightarrow> nat option \<Rightarrow> line_buffer \<Rightarrow> string \<Rightarrow> bool" where
  "cut_read P r b c \<longleftrightarrow>
     (let l = drop (start_of_line b) (lb_buffer b) in
      r = Some (length l) \<and> truncated b \<and> lb_eof b = 0 \<and> end_of_line b = length (lb_buffer b)
        \<and> l @ c = P \<and> l \<noteq> [] \<and> NL \<notin> set l \<and> max_size b < 2 * (length l + IO_SIZE))"

lemma line_part_append: "NL \<notin> set xs \<Longrightarrow> line_part (xs @ ys) = xs @ line_part ys"
  by (induction xs) auto

lemma line_part_all: "NL \<notin> set xs \<Longrightarrow> line_part xs = xs"
  by (induction xs) auto

lemma line_part_full: "length (line_part xs) = length xs \<longleftrightarrow> NL \<notin> set xs"
  by (induction xs) auto

lemma line_part_append2: "NL \<in> set xs \<Longrightarrow> line_part (xs @ ys) = line_part xs"
  by (induction xs) auto

lemma line_part_less: "NL \<in> set xs \<Longrightarrow> length (line_part xs) < length xs"
  by (induction xs) auto

lemma line_split: "NL \<in> set s \<Longrightarrow> s = line_part s @ NL # drop (Suc (length (line_part s))) s"
  by (induction s) auto

lemma take_of_append: "n \<le> length xs \<Longrightarrow> xs @ ys = zs \<Longrightarrow> take n xs = take n zs"
  by auto

lemma drop_of_append: "n \<le> length xs \<Longrightarrow> xs @ ys = zs \<Longrightarrow> drop n xs @ ys = drop n zs"
  by auto

lemma read_loop_here:
  assumes wf: "start_of_line b \<le> end_of_line b \<and> end_of_line b \<le> length (lb_buffer b)" and nl: "NL \<in> set (drop (end_of_line b) (lb_buffer b))"
    and scanned: "NL \<notin> set (take (end_of_line b - start_of_line b) (drop (start_of_line b) (lb_buffer b)))"
  shows "read_loop sys alloc b f =
    Some (Some (Suc (length (line_part (drop (start_of_line b) (lb_buffer b)))) - lb_eof b),
      b\<lparr>truncated := False, end_of_line := start_of_line b
        + Suc (length (line_part (drop (start_of_line b) (lb_buffer b))))\<rparr>, f)"
proof -
  let ?B = "drop (end_of_line b) (lb_buffer b)"
  let ?A = "take (end_of_line b - start_of_line b) (drop (start_of_line b) (lb_buffer b))"
  have "drop (start_of_line b) (lb_buffer b) = ?A @ ?B"
    using wf append_take_drop_id [of "end_of_line b - start_of_line b" "drop (start_of_line b) (lb_buffer b)"]
    by simp
  then have "line_part (drop (start_of_line b) (lb_buffer b)) = ?A @ line_part ?B"
    using line_part_append [OF scanned, of ?B] by simp
  moreover have "length ?A = end_of_line b - start_of_line b"
    using wf by auto
  ultimately have lp: "length (line_part (drop (start_of_line b) (lb_buffer b))) =
      end_of_line b - start_of_line b + length (line_part ?B)"
    by (simp only: length_append)
  have "end_of_line b + length (line_part ?B) \<noteq> length (lb_buffer b)"
    using line_part_less [OF nl] by simp
  then show ?thesis
    using wf lp by (simp add: read_loop.simps [of sys alloc b f]  algebra_simps Let_def)
qed

lemma read_loop_spec:
  assumes "wf_lb b" and "file_source sys contents intr" and "\<And>n. alloc n" and "lb_eof b = 0"
    and "NL \<notin> set (take (end_of_line b - start_of_line b) (drop (start_of_line b) (lb_buffer b)))"
    and "P = drop (start_of_line b) (lb_buffer b) @ contents f"
  shows "\<exists>r b' f'. read_loop sys alloc b f = Some (r, b', f') \<and> wf_lb b'
    \<and> max_size b' = max_size b
    \<and> (line_read P r b' (contents f') \<or> cut_read P r b' (contents f'))"
  using assms
proof (induction "length (contents f)" arbitrary: b f rule: less_induct)
  case less
  note wf = less.prems(1) and P = less.prems(6)
  let ?rest = "drop (start_of_line b) (lb_buffer b)"
  have split: "?rest = take (end_of_line b - start_of_line b) ?rest @ drop (end_of_line b) (lb_buffer b)"
    using wf append_take_drop_id [of "end_of_line b - start_of_line b" ?rest]
    by (simp add: wf_lb_def)
  show ?case
  proof (cases "NL \<in> set (drop (end_of_line b) (lb_buffer b))")
    case True
    have inr: "NL \<in> set ?rest" using True split by (metis Un_iff set_append)
    have lp: "line_part P = line_part ?rest" using P line_part_append2 [OF inr] by simp
    let ?n = "Suc (length (line_part P))"
    have rl: "read_loop sys alloc b f = Some (Some ?n,
        b\<lparr>truncated := False, end_of_line := start_of_line b + ?n\<rparr>, f)"
      using read_loop_here [OF wf_lb_ptrs [OF wf] True less.prems(5), of sys alloc f] less.prems(4) lp by simp
    have "start_of_line b + ?n \<le> length (lb_buffer b)"
      using line_part_less [OF inr] lp by simp
    then have "wf_lb (b\<lparr>truncated := False, end_of_line := start_of_line b + ?n\<rparr>)"
      using wf by (simp add: wf_lb_def)
    with rl inr P less.prems(4) show ?thesis by (simp add: line_read_def)
  next
    case False
    have nor: "NL \<notin> set ?rest"
      using less.prems(5) False by (subst split) simp
    have full: "end_of_line b + length (line_part (drop (end_of_line b) (lb_buffer b))) = length (lb_buffer b)"
      using False wf by (simp add: line_part_all wf_lb_def)
    show ?thesis
    proof (rule fill_buffer_spec [where f = f, OF wf less.prems(2,3,4) refl])
      assume fb: "fill_buffer sys alloc b f = Some (Some 0, b, f)"
        and lim: "bufread b < length ?rest + IO_SIZE" "max_size b < 2 * bufread b"
      have ne: "?rest \<noteq> []" using lim(1) wf by (auto simp: wf_lb_def simp del: length_drop)
      then have "length (lb_buffer b) - 1 + 1 = length (lb_buffer b)" by auto
      then have rl: "read_loop sys alloc b f = Some (Some (length ?rest),
          b\<lparr>truncated := True, end_of_line := length (lb_buffer b)\<rparr>, f)"
        using full fb less.prems(4) by (simp add: read_loop.simps [of sys alloc b f] Let_def)
      have "wf_lb (b\<lparr>truncated := True, end_of_line := length (lb_buffer b)\<rparr>)"
        using wf by (simp add: wf_lb_def)
      moreover have "max_size b < 2 * (length ?rest + IO_SIZE)"
        using lim by (simp del: length_drop)
      ultimately show ?thesis
        using rl ne nor P less.prems(4) by (simp add: cut_read_def Let_def)
    next
      fix b' bs f'
      assume fb: "fill_buffer sys alloc b f = Some (Some (length bs), b', f')" "bs \<noteq> []"
        and c: "contents f = bs @ contents f'"
        and b': "wf_lb b'" "lb_eof b' = 0" "max_size b' = max_size b" "start_of_line b' = 0"
          "end_of_line b' = length ?rest" "lb_buffer b' = ?rest @ bs"
      have "read_loop sys alloc b f = read_loop sys alloc b' f'"
        using full fb by (simp add: read_loop.simps [of sys alloc b f])
      moreover have "\<exists>r b'' f''. read_loop sys alloc b' f' = Some (r, b'', f'') \<and> wf_lb b''
          \<and> max_size b'' = max_size b'
          \<and> (line_read P r b'' (contents f'') \<or> cut_read P r b'' (contents f''))"
      proof (rule less.hyps [OF _ b'(1) less.prems(2,3) b'(2)])
        show "length (contents f') < length (contents f)" using c fb(2) by simp
        show "NL \<notin> set (take (end_of_line b' - start_of_line b') (drop (start_of_line b') (lb_buffer b')))"
          using nor b' by simp
        show "P = drop (start_of_line b') (lb_buffer b') @ contents f'" using P b' c by simp
      qed
      ultimately show ?thesis using b'(3) by simp
    next
      fix b' n f'
      assume fb: "fill_buffer sys alloc b f = Some (Some n, b', f')"
        and c: "contents f = []" "contents f' = []"
        and b': "wf_lb b'" "lb_eof b' = 1" "max_size b' = max_size b" "start_of_line b' = 0"
          "end_of_line b' = length ?rest"
          "lb_buffer b' = ?rest @ (if ?rest = [] \<or> last ?rest = NL then [] else [NL])"
        and n: "n = (if ?rest = [] \<or> last ?rest = NL then 0 else 1)"
      have PR: "P = ?rest" using P c by simp
      show ?thesis
      proof (cases "?rest = []")
        case True
        then show ?thesis
          using PR full fb b' n c
          by (simp add: read_loop.simps [of sys alloc b f] line_read_def)
      next
        case ne: False
        then have last: "last ?rest \<noteq> NL" using nor last_in_set by metis
        then have buf: "lb_buffer b' = ?rest @ [NL]" and n1: "n = 1" using b'(6) n ne by simp_all
        have "read_loop sys alloc b f = read_loop sys alloc b' f'"
          using full fb n1 by (simp add: read_loop.simps [of sys alloc b f])
        also have "\<dots> = Some (Some (length P),
            b'\<lparr>truncated := False, end_of_line := length (lb_buffer b')\<rparr>, f')"
          using read_loop_here [OF wf_lb_ptrs [OF b'(1)], of sys alloc f'] b' buf PR nor
          by (simp add: line_part_append)
        finally have rl: "read_loop sys alloc b f = Some (Some (length P),
            b'\<lparr>truncated := False, end_of_line := length (lb_buffer b')\<rparr>, f')" .
        have "wf_lb (b'\<lparr>truncated := False, end_of_line := length (lb_buffer b')\<rparr>)"
          using b'(1,4) by (simp add: wf_lb_def)
        with rl show ?thesis
          using nor ne PR b' c buf by (simp add: line_read_def)
      qed
    qed
  qed
qed


section \<open>Reading the lines of a file\<close>

text \<open>What removing the line end leaves: the carriage return goes too, unless in binary mode.\<close>

definition chomp :: "bool \<Rightarrow> string \<Rightarrow> string" where
  "chomp binary_mode l = (if \<not> binary_mode \<and> l \<noteq> [] \<and> last l = CR then butlast l else l)"

text \<open>What is left to read, and the lines of a text: the last one may be unterminated.\<close>

definition pending :: "('f \<Rightarrow> string) \<Rightarrow> line_buffer \<Rightarrow> 'f \<Rightarrow> string" where
  "pending contents b f = drop (end_of_line b) (lb_buffer b) @ contents f"

function file_lines :: "bool \<Rightarrow> string \<Rightarrow> string list" where
  "file_lines binary_mode s =
     (if NL \<in> set s then chomp binary_mode (line_part s)
                        # file_lines binary_mode (drop (Suc (length (line_part s))) s)
      else if s = [] then [] else [s])"
  by pat_completeness auto
termination
  by (relation "measure (\<lambda>(binary_mode, s). length s)") (auto dest: line_part_less)

declare file_lines.simps [simp del]

text \<open>The two outcomes of a call: a line, or a piece of one too long for the buffer.\<close>

definition line_given :: "bool \<Rightarrow> string \<Rightarrow> string option \<Rightarrow> line_buffer \<Rightarrow> string \<Rightarrow> bool" where
  "line_given binary_mode P r b P' \<longleftrightarrow> \<not> (truncated b \<and> lb_eof b = 0)
     \<and> (if NL \<in> set P then r = Some (chomp binary_mode (line_part P)) \<and> lb_eof b = 0
           \<and> P' = drop (Suc (length (line_part P))) P
        else r = (if P = [] then None else Some P) \<and> lb_eof b = 1
           \<and> end_of_line b = length (lb_buffer b))"

definition piece_given :: "string \<Rightarrow> string option \<Rightarrow> line_buffer \<Rightarrow> string \<Rightarrow> bool" where
  "piece_given P r b P' \<longleftrightarrow> truncated b \<and> lb_eof b = 0
     \<and> (\<exists>l. r = Some l \<and> l @ P' = P \<and> l \<noteq> [] \<and> NL \<notin> set l \<and> max_size b < 2 * (length l + IO_SIZE))"

lemma wf_lb_NUL:
  "wf_lb (b\<lparr>read_length := n, lb_buffer := (lb_buffer b)[i := c]\<rparr>) = wf_lb b"
  by (simp add: wf_lb_def)

lemma batch_readline_line:
  assumes "intern_read_line sys alloc b f = Some (Some (Suc (length l)), b', f')"
    and "drop (start_of_line b') (lb_buffer b') = l @ NL # t"
    and "end_of_line b' = start_of_line b' + Suc (length l)"
  shows "\<exists>b''. batch_readline sys alloc binary_mode b f = Some (Some (chomp binary_mode l), b'', f')
    \<and> wf_lb b'' = wf_lb b' \<and> truncated b'' = truncated b' \<and> lb_eof b'' = lb_eof b' \<and> max_size b'' = max_size b'
    \<and> drop (end_of_line b'') (lb_buffer b'') = drop (end_of_line b') (lb_buffer b')"
proof -
  let ?m = "length (chomp binary_mode l)"
  let ?buf = "(lb_buffer b')[start_of_line b' + ?m := NUL]"
  have m: "?m \<le> length l" by (simp add: chomp_def)
  have last: "l \<noteq> [] \<Longrightarrow> ch_at (l @ NL # t) (length l - 1) = last l"
    by (cases l rule: rev_cases) (simp_all add: ch_at_def nth_append)
  have nl: "ch_at (l @ NL # t) (length l) = NL" by (simp add: ch_at_def)
  have "(if length l \<noteq> 0 \<and> \<not> binary_mode \<and> ch_at (l @ NL # t) (length l - 1) = CR
      then length l - 1 else length l) = ?m"
    using last by (auto simp: chomp_def)
  then have "batch_readline sys alloc binary_mode b f =
      Some (Some (take ?m (drop (start_of_line b') ?buf)),
        b'\<lparr>read_length := ?m, lb_buffer := ?buf\<rparr>, f')"
    using assms(1,2) nl by (simp add: batch_readline_def Let_def)
  moreover have "take ?m (drop (start_of_line b') ?buf) = chomp binary_mode l"
  proof -
    have "take ?m (drop (start_of_line b') ?buf) = take ?m (drop (start_of_line b') (lb_buffer b'))"
      by (simp add: drop_update_swap take_update_cancel)
    also have "\<dots> = take ?m l" using m assms(2) by simp
    also have "\<dots> = chomp binary_mode l" by (simp add: chomp_def butlast_conv_take)
    finally show ?thesis .
  qed
  moreover have "drop (end_of_line b') ?buf = drop (end_of_line b') (lb_buffer b')"
    using assms(3) m by simp
  ultimately show ?thesis by (simp add: wf_lb_NUL)
qed

lemma batch_readline_whole:
  assumes rl: "intern_read_line sys alloc b f = Some (r, b', f')" "wf_lb b'"
    and lr: "line_read P r b' (contents f')"
  shows "\<exists>r b'' f'. batch_readline sys alloc binary_mode b f = Some (r, b'', f') \<and> wf_lb b''
    \<and> max_size b'' = max_size b' \<and> line_given binary_mode P r b'' (pending contents b'' f')"
proof -
  show ?thesis
  proof (cases "NL \<in> set P")
    case True
    let ?l = "line_part P"
    let ?rest = "drop (start_of_line b') (lb_buffer b')"
    have r: "r = Some (Suc (length ?l))" "lb_eof b' = 0" "?rest @ contents f' = P"
      "end_of_line b' = start_of_line b' + Suc (length ?l)" "\<not> truncated b'"
      using lr True by (simp_all add: line_read_def)
    obtain t where t: "P = ?l @ NL # t" using line_split [OF True] by blast
    have len: "Suc (length ?l) \<le> length ?rest" using rl(2) r(4) by (auto simp: wf_lb_def)
    have "take (Suc (length ?l)) ?rest = take (Suc (length ?l)) P"
      by (rule take_of_append [OF len r(3)])
    also have "\<dots> = ?l @ [NL]" by (subst t) simp
    finally have "?rest = ?l @ NL # drop (Suc (length ?l)) ?rest"
      using append_take_drop_id [of "Suc (length ?l)" ?rest] by simp
    from batch_readline_line [OF _ this r(4), of sys alloc b f f' binary_mode] rl(1) r(1)
    obtain b'' where b'': "batch_readline sys alloc binary_mode b f =
        Some (Some (chomp binary_mode ?l), b'', f')"
      "wf_lb b'' = wf_lb b'" "truncated b'' = truncated b'" "lb_eof b'' = lb_eof b'" "max_size b'' = max_size b'"
      "drop (end_of_line b'') (lb_buffer b'') = drop (end_of_line b') (lb_buffer b')"
      by auto
    have "pending contents b'' f' = drop (Suc (length ?l)) ?rest @ contents f'"
      using b''(6) r(4) by (simp add: pending_def add.commute)
    also have "\<dots> = drop (Suc (length ?l)) P"
      by (rule drop_of_append [OF len r(3)])
    finally show ?thesis using b'' rl r(2,5) True by (simp add: line_given_def)
  next
    case no_nl: False
    show ?thesis
    proof (cases "P = []")
      case True
      with lr rl show ?thesis by (simp add: line_read_def batch_readline_def line_given_def)
    next
      case False
      have r: "r = Some (length P)" "lb_eof b' = 1" "end_of_line b' = length (lb_buffer b')"
          "drop (start_of_line b') (lb_buffer b') = P @ [NL]"
        using lr no_nl False by (simp_all add: line_read_def)
      let ?buf = "(lb_buffer b')[start_of_line b' + length P := NUL]"
      have "ch_at (P @ [NL]) (length P - 1) \<noteq> NL"
        using False no_nl by (cases P rule: rev_cases) (auto simp: ch_at_def nth_append)
      then have "batch_readline sys alloc binary_mode b f =
          Some (Some (take (length P) (drop (start_of_line b') ?buf)),
            b'\<lparr>read_length := length P, lb_buffer := ?buf\<rparr>, f')"
        using rl(1) r by (simp add: batch_readline_def Let_def)
      moreover have "take (length P) (drop (start_of_line b') ?buf) = P"
        using r(4) by (simp add: drop_update_swap take_update_cancel)
      ultimately show ?thesis using rl r no_nl False by (simp add: wf_lb_NUL line_given_def)
    qed
  qed
qed


text \<open>One call of \<open>batch_readline\<close>, while the file has not ended.\<close>

lemma batch_readline_spec:
  assumes "wf_lb b" and "file_source sys contents intr" and "\<And>n. alloc n" and "lb_eof b = 0"
    and "P = pending contents b f"
  shows "\<exists>r b' f'. batch_readline sys alloc binary_mode b f = Some (r, b', f') \<and> wf_lb b'
    \<and> max_size b' = max_size b
    \<and> (line_given binary_mode P r b' (pending contents b' f') \<or> piece_given P r b' (pending contents b' f'))"
proof -
  let ?b = "b\<lparr>start_of_line := end_of_line b\<rparr>"
  have "wf_lb ?b" using assms(1) by (simp add: wf_lb_def)
  then obtain r b' f' where rl: "intern_read_line sys alloc b f = Some (r, b', f')" "wf_lb b'"
      "max_size b' = max_size b"
      and "line_read P r b' (contents f') \<or> cut_read P r b' (contents f')"
    using read_loop_spec [of ?b sys contents intr alloc P f] assms
    by (auto simp: intern_read_line_def pending_def)
  then consider "line_read P r b' (contents f')" | "cut_read P r b' (contents f')" by blast
  then show ?thesis
  proof cases
    case 1
    then show ?thesis
      using batch_readline_whole [where contents = contents, OF rl(1,2) 1, of binary_mode] rl(3) by auto
  next
    case 2
    let ?l = "drop (start_of_line b') (lb_buffer b')"
    have r: "r = Some (length ?l)" "truncated b'" "lb_eof b' = 0"
      "end_of_line b' = length (lb_buffer b')" "?l @ contents f' = P" "?l \<noteq> []" "NL \<notin> set ?l"
      "max_size b' < 2 * (length ?l + IO_SIZE)"
      using 2 by (auto simp: cut_read_def Let_def)
    have "ch_at ?l (length ?l - 1) \<noteq> NL"
      using r(6,7) by (cases ?l rule: rev_cases) (auto simp: ch_at_def nth_append)
    then have "batch_readline sys alloc binary_mode b f =
        Some (Some ?l, b'\<lparr>read_length := length ?l\<rparr>, f')"
      using rl(1) r(1,6) by (simp add: batch_readline_def Let_def list_update_beyond)
    moreover have "wf_lb (b'\<lparr>read_length := length ?l\<rparr>)" using rl(2) by (simp add: wf_lb_def)
    ultimately show ?thesis using rl(3) r by (auto simp: pending_def piece_given_def)
  qed
qed


text \<open>What the callers do: read lines until the null pointer.\<close>

fun read_all ::
  "('f \<Rightarrow> nat \<Rightarrow> sys_result \<times> 'f) \<Rightarrow> (nat \<Rightarrow> bool) \<Rightarrow> bool \<Rightarrow> nat \<Rightarrow> line_buffer \<Rightarrow> 'f \<Rightarrow>
   string list option" where
  "read_all sys alloc binary_mode 0 b f = None"
| "read_all sys alloc binary_mode (Suc n) b f =
     Option.bind (batch_readline sys alloc binary_mode b f) (\<lambda>(r, b, f).
       case r of
         None \<Rightarrow> Some []
       | Some l \<Rightarrow> map_option ((#) l) (read_all sys alloc binary_mode n b f))"

lemma batch_readline_ended:
  assumes "lb_eof b \<noteq> 0" and "end_of_line b = length (lb_buffer b)"
  shows "\<exists>b'. batch_readline sys alloc binary_mode b f = Some (None, b', f)"
  using assms
  by (simp add: batch_readline_def intern_read_line_def fill_buffer_def Let_def
      read_loop.simps [of sys alloc "b\<lparr>start_of_line := length (lb_buffer b)\<rparr>" f])

lemma file_lines_step:
  "NL \<in> set s \<Longrightarrow> file_lines m s = chomp m (line_part s) # file_lines m (drop (Suc (length (line_part s))) s)"
  "NL \<notin> set s \<Longrightarrow> file_lines m s = (if s = [] then [] else [s])"
  by (simp_all add: file_lines.simps [of m s])

lemma chomp_True [simp]: "chomp True l = l"
  by (simp add: chomp_def)

lemma not_piece:
  assumes "\<forall>l \<in> set (file_lines True P). 2 * (length l + IO_SIZE) \<le> max_size b"
  shows "\<not> piece_given P r b P'"
proof
  assume "piece_given P r b P'"
  then obtain l where l: "l @ P' = P" "l \<noteq> []" "NL \<notin> set l" "max_size b < 2 * (length l + IO_SIZE)"
    by (auto simp: piece_given_def)
  have "line_part P = l @ line_part P'" using l(1) line_part_append [OF l(3)] by blast
  moreover have "line_part P \<in> set (file_lines True P)"
    using l(1,2) by (cases "NL \<in> set P") (auto simp: file_lines_step line_part_all)
  ultimately show False using assms l(4) by fastforce
qed

lemma read_all_lines:
  assumes "wf_lb b" and "file_source sys contents intr" and "\<And>n. alloc n" and "lb_eof b = 0"
    and "P = pending contents b f" and "length P + 1 < n"
    and "\<forall>l \<in> set (file_lines True P). 2 * (length l + IO_SIZE) \<le> max_size b"
  shows "read_all sys alloc binary_mode n b f = Some (file_lines binary_mode P)"
  using assms
proof (induction n arbitrary: P b f)
  case (Suc n)
  obtain r b' f' where br: "batch_readline sys alloc binary_mode b f = Some (r, b', f')"
      "wf_lb b'" "max_size b' = max_size b"
    and res: "line_given binary_mode P r b' (pending contents b' f')
      \<or> piece_given P r b' (pending contents b' f')"
    using batch_readline_spec [where binary_mode = binary_mode and alloc = alloc, OF Suc.prems(1-5)] by blast
  have "\<not> piece_given P r b' (pending contents b' f')"
    using not_piece [of P b'] Suc.prems(7) br(3) by simp
  with res have res': "if NL \<in> set P then r = Some (chomp binary_mode (line_part P)) \<and> lb_eof b' = 0
           \<and> pending contents b' f' = drop (Suc (length (line_part P))) P
       else r = (if P = [] then None else Some P) \<and> lb_eof b' = 1
           \<and> end_of_line b' = length (lb_buffer b')" by (simp add: line_given_def)
  show ?case
  proof (cases "NL \<in> set P")
    case True
    let ?P = "drop (Suc (length (line_part P))) P"
    have "length ?P + 1 < n" using line_part_less [OF True] Suc.prems(6) by simp
    moreover have "\<forall>l \<in> set (file_lines True ?P). 2 * (length l + IO_SIZE) \<le> max_size b'"
      using Suc.prems(7) br(3) by (simp add: file_lines_step(1) [OF True])
    ultimately have "read_all sys alloc binary_mode n b' f' = Some (file_lines binary_mode ?P)"
      using res' True Suc.IH [OF br(2) Suc.prems(2,3), of ?P f'] by simp
    with res' True br(1) show ?thesis by (simp add: file_lines_step)
  next
    case False
    show ?thesis
    proof (cases "P = []")
      case True
      with res' br(1) show ?thesis by (simp add: file_lines_step)
    next
      case ne: False
      obtain m where m: "n = Suc m" using Suc.prems(6) by (cases n) auto
      obtain b'' where "batch_readline sys alloc binary_mode b' f' = Some (None, b'', f')"
        using batch_readline_ended [of b' sys alloc binary_mode f'] res' False by auto
      with res' False ne br(1) m show ?thesis by (simp add: file_lines_step)
    qed
  qed
qed simp


section \<open>Reading on\<close>

text \<open>An observer of the file's state that a read does not change.\<close>

definition unread :: "('f \<Rightarrow> nat \<Rightarrow> sys_result \<times> 'f) \<Rightarrow> ('f \<Rightarrow> 'o) \<Rightarrow> bool" where
  "unread sys obs \<longleftrightarrow> (\<forall>f n. obs (snd (sys f n)) = obs f)"

lemma my_read_keeps:
  assumes "unread sys obs" and "my_read sys f n = Some y"
  shows "obs (snd y) = obs f"
proof (rule my_read.raw_induct [where P = "\<lambda>sys f n y. unread sys obs \<longrightarrow> obs (snd y) = obs f", OF _ assms(2), THEN mp, OF _ assms(1)])
  fix g :: "('a \<Rightarrow> nat \<Rightarrow> sys_result \<times> 'a) \<Rightarrow> 'a \<Rightarrow> nat \<Rightarrow> (string option \<times> 'a) option" and sys f n y
  assume IH: "\<And>sys f n y. g sys f n = Some y \<Longrightarrow> unread sys obs \<longrightarrow> obs (snd y) = obs f"
    and b: "(case sys f n of (Got bs, f) \<Rightarrow> Some (Some bs, f)
       | (Failed e, f) \<Rightarrow> if e = EINTR then g sys f n else Some (None, f)) = Some y"
  show "unread sys obs \<longrightarrow> obs (snd y) = obs f"
  proof
    assume u: "unread sys obs"
    obtain x f1 where s: "sys f n = (x, f1)" by (rule prod.exhaust)
    then have o1: "obs f1 = obs f" using u by (metis unread_def snd_conv)
    show "obs (snd y) = obs f"
      using b s o1 IH [of sys f1 n y] u by (auto split: sys_result.splits if_splits)
  qed
qed

lemma fill_grow_keeps:
  assumes "\<And>n. alloc n" and "fill_grow alloc n b = Some y"
  shows "fst y \<noteq> None \<and> lb_error (snd y) = lb_error b"
proof (rule fill_grow.raw_induct [where P = "\<lambda>alloc n b y. (\<forall>n. alloc n) \<longrightarrow> fst y \<noteq> None \<and> lb_error (snd y) = lb_error b", OF _ assms(2), THEN mp])
  fix g :: "(nat \<Rightarrow> bool) \<Rightarrow> nat \<Rightarrow> line_buffer \<Rightarrow> (nat option \<times> line_buffer) option" and alloc n b y
  assume IH: "\<And>alloc n b y. g alloc n b = Some y \<Longrightarrow> (\<forall>n. alloc n) \<longrightarrow> fst y \<noteq> None \<and> lb_error (snd y) = lb_error b"
    and b: "(let read_count = uint_sub (bufread b) n div IO_SIZE * IO_SIZE in
      if read_count \<noteq> 0 then Some (Some read_count, b)
      else if bufread b * 2 mod uint_range > max_size b then Some (Some 0, b)
      else let b = b\<lparr>bufread := bufread b * 2 mod uint_range\<rparr> in
        if \<not> alloc (bufread b + 1) then Some (None, b\<lparr>lb_buffer := [], lb_error := True\<rparr>)
        else g alloc n b) = Some y"
  show "(\<forall>n. alloc n) \<longrightarrow> fst y \<noteq> None \<and> lb_error (snd y) = lb_error b"
    using b IH [of alloc n "b\<lparr>bufread := bufread b * 2 mod uint_range\<rparr>" y] by (auto simp: Let_def split: if_splits)
qed (simp add: assms(1))

lemma fill_buffer_keeps:
  assumes "file_source sys contents intr" and "\<And>n. alloc n" and "unread sys obs"
    and "fill_buffer sys alloc b f = Some (r, b', f')"
  shows "lb_error b' = lb_error b" "obs f' = obs f"
proof -
  have rd: "obs f2 = obs f1 \<and> x \<noteq> None" if "my_read sys f1 n = Some (x, f2)" "0 < n" for f1 n x f2
    using my_read_keeps [OF assms(3) that(1)] my_read_source [OF assms(1) that(2), of f1] that(1) by auto
  have gr: "lb_error b2 = lb_error b1 \<and> x \<noteq> None" if "fill_grow alloc n b1 = Some (x, b2)" for n b1 b2 x
    using fill_grow_keeps [OF assms(2) that] by simp
  show "lb_error b' = lb_error b" "obs f' = obs f"
    using assms(4) unfolding fill_buffer_def Let_def
    by (auto split: if_splits option.splits bind_splits dest!: rd gr)
qed

lemma read_loop_keeps:
  assumes "file_source sys contents intr" and "\<And>n. alloc n" and "unread sys obs"
    and "read_loop sys alloc b f = Some (r, b', f')"
  shows "lb_error b' = lb_error b \<and> obs f' = obs f \<and> (r \<noteq> None \<longrightarrow> truncated b' \<longrightarrow> lb_eof b' = 0)"
proof -
  let ?pre = "\<lambda>sys alloc. file_source sys contents intr \<and> (\<forall>n. alloc n) \<and> unread sys obs"
  let ?post = "\<lambda>(b :: line_buffer) f y. lb_error (fst (snd y)) = lb_error b \<and> obs (snd (snd y)) = obs f
     \<and> (fst y \<noteq> None \<longrightarrow> truncated (fst (snd y)) \<longrightarrow> lb_eof (fst (snd y)) = 0)"
  have "?pre sys alloc \<longrightarrow> ?post b f (r, b', f')"
  proof (rule read_loop.raw_induct [where P = "\<lambda>sys alloc b f y. ?pre sys alloc \<longrightarrow> ?post b f y", OF _ assms(4)], rule impI)
    fix g sys alloc and b :: line_buffer and f y
    let ?pos = "end_of_line b + length (takeWhile (\<lambda>c. c \<noteq> NL) (drop (end_of_line b) (lb_buffer b)))"
    assume IH: "\<And>sys alloc b f y. g sys alloc b f = Some y \<Longrightarrow> ?pre sys alloc \<longrightarrow> ?post b f y"
      and body: "(let pos = ?pos
       in if pos = length (lb_buffer b) then
           Option.bind (fill_buffer sys alloc b f) (\<lambda>(r, b, f).
             case r of
               None \<Rightarrow> Some (None, b, f)
             | Some n \<Rightarrow>
                 if n \<noteq> 0 then g sys alloc b f
                 else if lb_eof b \<noteq> 0 then Some (None, b, f)
                 else Some (Some (pos - 1 + 1 - lb_eof b - start_of_line b),
                            b\<lparr>truncated := True, end_of_line := pos - 1 + 1\<rparr>, f))
         else Some (Some (pos + 1 - lb_eof b - start_of_line b),
                    b\<lparr>truncated := False, end_of_line := pos + 1\<rparr>, f)) = Some y"
      and pre: "?pre sys alloc"
    show "?post b f y"
    proof (cases "fill_buffer sys alloc b f")
      case None
      then show ?thesis using body by (auto simp: Let_def split: if_splits)
    next
      case (Some a)
      obtain x b1 f1 where a: "a = (x, b1, f1)" by (cases a)
      then have k: "lb_error b1 = lb_error b" "obs f1 = obs f"
        using fill_buffer_keeps [of sys contents intr alloc obs b f x b1 f1] pre Some by auto
      have "g sys alloc b1 f1 = Some y \<Longrightarrow> ?post b1 f1 y" using IH pre by blast
      then show ?thesis using body Some a k by (auto simp: Let_def split: if_splits option.splits)
    qed
  qed
  then show ?thesis using assms(1-3) by simp
qed

lemma batch_readline_keeps:
  assumes "file_source sys contents intr" and "\<And>n. alloc n" and "unread sys obs"
    and "batch_readline sys alloc m b f = Some (r, b', f')"
  shows "lb_error b' = lb_error b" "obs f' = obs f" "r \<noteq> None \<Longrightarrow> truncated b' \<Longrightarrow> lb_eof b' = 0"
proof -
  obtain r1 b1 f1 where rl: "read_loop sys alloc (b\<lparr>start_of_line := end_of_line b\<rparr>) f = Some (r1, b1, f1)"
    using assms(4) by (auto simp: batch_readline_def intern_read_line_def split: bind_splits)
  note k = read_loop_keeps [OF assms(1-3) rl]
  show "lb_error b' = lb_error b" "obs f' = obs f" "r \<noteq> None \<Longrightarrow> truncated b' \<Longrightarrow> lb_eof b' = 0"
    using assms(4) k by (auto simp: batch_readline_def intern_read_line_def rl Let_def split: option.splits)
qed

text \<open>The lines that are still to come.\<close>

definition lines_left :: "('f \<Rightarrow> string) \<Rightarrow> line_buffer \<Rightarrow> 'f \<Rightarrow> string list \<Rightarrow> bool" where
  "lines_left contents b f ls \<longleftrightarrow> \<not> lb_error b \<and>
     (if lb_eof b = 0 then wf_lb b \<and> file_lines False (pending contents b f) = ls
        \<and> (\<forall>l \<in> set (file_lines True (pending contents b f)). 2 * (length l + IO_SIZE) \<le> max_size b)
      else ls = [] \<and> end_of_line b = length (lb_buffer b))"

lemma lines_left_frame: "contents f' = contents f \<Longrightarrow> lines_left contents b f' ls = lines_left contents b f ls"
  by (simp add: lines_left_def pending_def)

lemma next_line:
  assumes "file_source sys contents intr" and "\<And>n. alloc n" and "unread sys obs" and "lines_left contents b f ls"
  shows "\<exists>b' f'. batch_readline sys alloc False b f = Some (case ls of [] \<Rightarrow> None | l # _ \<Rightarrow> Some l, b', f')
    \<and> obs f' = obs f \<and> \<not> lb_error b' \<and> (ls \<noteq> [] \<longrightarrow> \<not> truncated b' \<and> lines_left contents b' f' (tl ls))"
proof (cases "lb_eof b = 0")
  case True
  define P where "P = pending contents b f"
  have b: "wf_lb b" "file_lines False P = ls" "\<not> lb_error b"
    "\<forall>l \<in> set (file_lines True P). 2 * (length l + IO_SIZE) \<le> max_size b"
    using assms(4) True by (simp_all add: lines_left_def P_def)
  obtain r b' f' where br: "batch_readline sys alloc False b f = Some (r, b', f')" "wf_lb b'" "max_size b' = max_size b"
    and res: "line_given False P r b' (pending contents b' f') \<or> piece_given P r b' (pending contents b' f')"
    using batch_readline_spec [where binary_mode = False and alloc = alloc, OF b(1) assms(1,2) True P_def] by blast
  have g: "line_given False P r b' (pending contents b' f')"
    using res not_piece [of P b'] b(4) br(3) by auto
  note k = batch_readline_keeps [OF assms(1-3) br(1)]
  show ?thesis
  proof (cases "NL \<in> set P")
    case True
    then have "ls = chomp False (line_part P) # file_lines False (drop (Suc (length (line_part P))) P)"
      using b(2) by (simp add: file_lines_step)
    moreover have "lines_left contents b' f' (file_lines False (drop (Suc (length (line_part P))) P))"
      using g True b(3,4) br(2,3) k(1) by (simp add: lines_left_def line_given_def file_lines_step(1) [of P True])
    ultimately show ?thesis using g True br(1) k b(3) by (auto simp: line_given_def)
  next
    case False
    then show ?thesis using g b(2,3) br(1) k by (auto simp: line_given_def file_lines_step lines_left_def)
  qed
next
  case False
  then have l: "ls = []" "\<not> lb_error b" "end_of_line b = length (lb_buffer b)" using assms(4) by (simp_all add: lines_left_def)
  obtain b' where br: "batch_readline sys alloc False b f = Some (None, b', f)"
    using batch_readline_ended [OF False l(3), of sys alloc False f] by blast
  show ?thesis using batch_readline_keeps(1) [OF assms(1-3) br] l br by simp
qed

section \<open>Commands given as strings\<close>

fun join_space :: "string list \<Rightarrow> string" where
  "join_space [] = []"
| "join_space [s] = s"
| "join_space (s # ss) = s @ CHR '' '' # join_space ss"

lemma join_space_snoc: "ss \<noteq> [] \<Longrightarrow> join_space (ss @ [s]) = join_space ss @ CHR '' '' # s"
  by (induction ss rule: join_space.induct) auto

definition command_buffer :: "string list \<Rightarrow> line_buffer option" where
  "command_buffer ss = fold (\<lambda>s b. Some (batch_readline_command b s)) ss None"

lemma command_buffer_eq:
  "ss \<noteq> [] \<Longrightarrow> \<exists>b. command_buffer ss = Some b \<and> lb_buffer b = join_space ss @ [NL]
     \<and> start_of_line b = 0 \<and> end_of_line b = 0 \<and> lb_eof b = 1"
proof (induction ss rule: rev_induct)
  case (snoc s ss)
  show ?case
  proof (cases "ss = []")
    case True
    then show ?thesis
      by (simp add: command_buffer_def batch_readline_command_def init_line_buffer_from_string_def
          zero_line_buffer_def init_line_buffer_def Let_def)
  next
    case False
    with snoc.IH show ?thesis
      by (auto simp: command_buffer_def batch_readline_command_def
          init_line_buffer_from_string_def Let_def join_space_snoc)
  qed
qed simp

lemma batch_readline_command_line:
  assumes "lb_buffer b = l @ [NL]" and "start_of_line b = 0" and "end_of_line b = 0"
    and "lb_eof b = 1" and "NL \<notin> set l"
  shows "\<exists>b'. batch_readline sys alloc binary_mode b f = Some (Some l, b', f)
    \<and> lb_eof b' = 1 \<and> end_of_line b' = length (lb_buffer b')"
proof -
  have b: "b\<lparr>start_of_line := end_of_line b\<rparr> = b" using assms by (cases b) simp
  have "intern_read_line sys alloc b f =
      Some (Some (length l), b\<lparr>truncated := False, end_of_line := Suc (length l)\<rparr>, f)"
    unfolding intern_read_line_def b
    using read_loop_here [of b sys alloc f] assms by (simp add: line_part_append)
  moreover have "l \<noteq> [] \<Longrightarrow> ch_at (l @ [NL]) (length l - 1) \<noteq> NL"
    using assms(5) by (cases l rule: rev_cases) (auto simp: ch_at_def nth_append)
  ultimately show ?thesis
    using assms by (auto simp: batch_readline_def Let_def)
qed

section \<open>Properties\<close>

text \<open>
  C4: for any sequence of short and interrupted reads, reading a file opened by
  \<open>batch_readline_init\<close> until the null pointer gives exactly its lines, without their line
  ends, as long as every line and one block fit half of the maximal buffer size.
\<close>

theorem batch_readline_lines:
  assumes "file_source sys contents intr" and "\<And>n. alloc n"
    and "batch_readline_init maxs True False = Some b" and "maxs < 2 ^ 31"
    and "\<forall>l \<in> set (file_lines True (contents f)). 2 * (length l + IO_SIZE) \<le> maxs"
    and "length (contents f) + 1 < n"
  shows "read_all sys alloc binary_mode n b f = Some (file_lines binary_mode (contents f))"
proof (rule read_all_lines [OF _ assms(1,2)])
  have b: "b = init_line_buffer IO_SIZE maxs" using assms(3) by (simp add: batch_readline_init_def)
  show "wf_lb b" "lb_eof b = 0" "contents f = pending contents b f"
    using assms(4) by (simp_all add: b init_line_buffer_def wf_lb_def pending_def)
  show "\<forall>l \<in> set (file_lines True (contents f)). 2 * (length l + IO_SIZE) \<le> max_size b"
    using assms(5) by (simp add: b init_line_buffer_def)
qed (rule assms(6))

text \<open>A file read three bytes at a time.\<close>

definition by_threes :: "string \<Rightarrow> nat \<Rightarrow> sys_result \<times> string" where
  "by_threes f n = (Got (take (min 3 n) f), drop (min 3 n) f)"

lemma by_threes_source: "file_source by_threes (\<lambda>f. f) (\<lambda>_. 0)"
  by (auto simp: file_source_def by_threes_def)

theorem batch_readline_lines_witness:
  "read_all by_threes (\<lambda>_. True) False 30 (init_line_buffer IO_SIZE (2 ^ 30))
     (''use a;'' @ [CR, NL, NL] @ ''select 1'') = Some [''use a;'', [], ''select 1'']"
  using batch_readline_lines [OF by_threes_source, of "\<lambda>_. True" "2 ^ 30"
    "init_line_buffer IO_SIZE (2 ^ 30)" "''use a;'' @ [CR, NL, NL] @ ''select 1''" 30 False]
  by (simp add: batch_readline_init_def file_lines.simps chomp_def)

text \<open>
  C11: whatever the length of the lines, a call of \<open>batch_readline\<close> returns, keeps the bytes
  and the sentinel inside the allocated buffer, and gives the next line, or, when the buffer
  cannot grow, a non-empty piece of it after which reading goes on with the next byte.
\<close>

theorem batch_readline_bounds:
  assumes "wf_lb b" and "file_source sys contents intr" and "\<And>n. alloc n" and "lb_eof b = 0"
  shows "\<exists>r b' f'. batch_readline sys alloc binary_mode b f = Some (r, b', f') \<and> wf_lb b'
    \<and> (line_given binary_mode (pending contents b f) r b' (pending contents b' f')
       \<or> piece_given (pending contents b f) r b' (pending contents b' f'))"
  using batch_readline_spec [where alloc = alloc and binary_mode = binary_mode, OF assms refl, of f]
  by blast

theorem batch_readline_bounds_witness:
  "\<exists>r b' f'. batch_readline by_threes (\<lambda>_. True) True (init_line_buffer IO_SIZE 0) ''go''
      = Some (r, b', f') \<and> wf_lb b'"
proof -
  have "wf_lb (init_line_buffer IO_SIZE 0)" and "lb_eof (init_line_buffer IO_SIZE 0) = 0"
    by (simp_all add: wf_lb_def init_line_buffer_def)
  from batch_readline_bounds [OF this(1) by_threes_source _ this(2), of "\<lambda>_. True" True "''go''"]
  show ?thesis by auto
qed

text \<open>
  C17: commands given one after the other as strings without a newline are read back as one
  line, with a space between them, and then the input ends.
\<close>

theorem batch_readline_commands:
  assumes "ss \<noteq> []" and "\<forall>s \<in> set ss. NL \<notin> set s" and "2 \<le> n"
  shows "read_all sys alloc binary_mode n (the (command_buffer ss)) f = Some [join_space ss]"
proof -
  obtain b where b: "command_buffer ss = Some b" "lb_buffer b = join_space ss @ [NL]"
      "start_of_line b = 0" "end_of_line b = 0" "lb_eof b = 1"
    using command_buffer_eq [OF assms(1)] by blast
  have "NL \<notin> set (join_space ss)"
    using assms(2) by (induction ss rule: join_space.induct) auto
  with b obtain b' where l: "batch_readline sys alloc binary_mode b f = Some (Some (join_space ss), b', f)"
      "lb_eof b' = 1" "end_of_line b' = length (lb_buffer b')"
    using batch_readline_command_line [of b "join_space ss" sys alloc binary_mode f] by blast
  obtain b'' where "batch_readline sys alloc binary_mode b' f = Some (None, b'', f)"
    using batch_readline_ended [of b' sys alloc binary_mode f] l by auto
  moreover obtain m where "n = Suc (Suc m)" using assms(3) by (metis Suc_le_D numeral_2_eq_2 Suc_le_mono)
  ultimately show ?thesis using b(1) l(1) by simp
qed

theorem batch_readline_commands_witness:
  "read_all by_threes (\<lambda>_. True) False 2 (the (command_buffer [''use a;'', ''select 1''])) []
     = Some [''use a; select 1'']"
  using batch_readline_commands [of "[''use a;'', ''select 1'']" 2 by_threes "\<lambda>_. True" False "[]"]
  by simp


end
