(* ===== verification/Comments.thy ===== *)
theory Comments
  imports Charset
begin

text \<open>
  Looking past leading blanks and comments of a statement, and recognising a line that is a
  client command in Oracle mode (\<^verbatim>\<open>get_trim_comment_sql\<close>,
  \<^verbatim>\<open>is_oracle_pl_escape_sql\<close> and \<^verbatim>\<open>is_cmd_line\<close> of
  \<^verbatim>\<open>client/mysql.cc\<close>). A pointer into a string is the suffix it points at; the
  distance to the end pointer is an integer beside it.
\<close>

section \<open>Definitions\<close>

definition is_blank :: "char \<Rightarrow> bool" where
  "is_blank c \<longleftrightarrow> c = CHR '' '' \<or> c = TAB \<or> c = CR \<or> c = NL"

text \<open>A loop \<open>while (*p != 0 && p < end && P(p)) p++\<close> and the distance that is left.\<close>

fun skip_while :: "(cstring \<Rightarrow> bool) \<Rightarrow> cstring \<Rightarrow> int \<Rightarrow> cstring \<times> int" where
  "skip_while P [] n = ([], n)"
| "skip_while P (c # p) n =
     (if c \<noteq> NUL \<and> 0 < n \<and> P (c # p) then skip_while P p (n - 1) else (c # p, n))"

text \<open>One round of the loop: blanks, then a comment of either kind, if there is one.\<close>

definition trim_round :: "cstring \<Rightarrow> int \<Rightarrow> bool \<times> cstring \<times> int" where
  "trim_round p n =
     (let (p, n) = skip_while (\<lambda>p. is_blank (ch_at p 0)) p n in
      if ch_at p 0 = CHR ''/'' \<and> ch_at p 1 = CHR ''*'' then
        (let (p, n) = skip_while (\<lambda>p. \<not> (ch_at p 0 = CHR ''*'' \<and> ch_at p 1 = CHR ''/''))
                        (drop 2 p) (n - 2)
         in if ch_at p 0 = CHR ''*'' \<and> ch_at p 1 = CHR ''/''
            then (True, drop 2 p, n - 2) else (True, p, n))
      else if ch_at p 0 = CHR ''-'' \<and> ch_at p 1 = CHR ''-'' then
        (let (p, n) = skip_while (\<lambda>p. ch_at p 0 \<noteq> NL) (drop 2 p) (n - 2)
         in if ch_at p 0 = NL then (True, drop 1 p, n - 1) else (True, p, n))
      else (False, p, n))"

lemma skip_while_length: "skip_while P p n = (q, m) \<Longrightarrow> length q \<le> length p"
  by (induction P p n rule: skip_while.induct) (auto split: if_splits)

lemma trim_round_length: "trim_round p n = (True, q, m) \<Longrightarrow> length q < length p"
proof -
  assume a: "trim_round p n = (True, q, m)"
  obtain p1 n1 where s1: "skip_while (\<lambda>p. is_blank (ch_at p 0)) p n = (p1, n1)" by (rule prod.exhaust)
  obtain p2 n2 where s2: "skip_while (\<lambda>p. \<not> (ch_at p 0 = CHR ''*'' \<and> ch_at p 1 = CHR ''/''))
      (drop 2 p1) (n1 - 2) = (p2, n2)" by (rule prod.exhaust)
  obtain p3 n3 where s3: "skip_while (\<lambda>p. ch_at p 0 \<noteq> NL) (drop 2 p1) (n1 - 2) = (p3, n3)"
    by (rule prod.exhaust)
  note len = skip_while_length [OF s1] skip_while_length [OF s2] skip_while_length [OF s3]
  show ?thesis
    using a s1 s2 s3 len by (cases p1) (auto simp: trim_round_def split: if_splits)
qed

function trim_loop :: "cstring \<Rightarrow> int \<Rightarrow> cstring" where
  "trim_loop p n =
     (if ch_at p 0 = NUL then p
      else case trim_round p n of (has_comment, p', n') \<Rightarrow>
        if has_comment then trim_loop p' n' else p')"
  by pat_completeness auto
termination
  by (relation "measure (\<lambda>(p, n). length p)") (auto dest: trim_round_length [OF sym])

declare trim_loop.simps [simp del]

definition get_trim_comment_sql :: "cstring \<Rightarrow> int \<Rightarrow> cstring option" where
  "get_trim_comment_sql str len =
     (let p = trim_loop str len in if ch_at p 0 \<noteq> NUL then Some p else None)"

text \<open>\<open>pl_escape\<close> is the match of the regular expression \<open>pl_escape_sql_re\<close>.\<close>

definition is_oracle_pl_escape_sql :: "(cstring \<Rightarrow> bool) \<Rightarrow> cstring \<Rightarrow> int \<Rightarrow> bool" where
  "is_oracle_pl_escape_sql pl_escape str len =
     (case get_trim_comment_sql str len of None \<Rightarrow> False | Some p \<Rightarrow> pl_escape p)"

datatype cmd_line = NOT_CMD | IS_CMD_SLASH | IS_CMD_LINE

record cmd_scan =
  is_cmd :: bool
  first_char :: char
  last_char :: char
  cmd_chars :: nat
  all_chars :: nat

text \<open>The loop over the bytes of the line; a multi-byte character is passed as a whole.\<close>

function cmd_scan_loop :: "charset_info \<Rightarrow> string \<Rightarrow> cmd_scan \<Rightarrow> cmd_scan" where
  "cmd_scan_loop cs [] s = s"
| "cmd_scan_loop cs (c # rest) s =
     (if is_blank c \<or> c = NUL then cmd_scan_loop cs rest s
      else
        let s = (if first_char s = NUL then s\<lparr>first_char := c\<rparr> else s);
            len = (if use_mb cs then my_ismbchar cs (c # rest) else 0)
        in if len > 1 then cmd_scan_loop cs (drop len (c # rest)) s
           else
             let s = (if c = BSL then s\<lparr>is_cmd := True, cmd_chars := 0\<rparr> else s)
             in cmd_scan_loop cs rest
                  (s\<lparr>cmd_chars := cmd_chars s + 1, all_chars := all_chars s + 1, last_char := c\<rparr>))"
  by pat_completeness auto
termination
  by (relation "measure (\<lambda>(cs, p, s). length p)") auto

definition is_cmd_line :: "charset_info \<Rightarrow> string \<Rightarrow> cmd_line" where
  "is_cmd_line cs pos =
     (let s = cmd_scan_loop cs pos
                \<lparr>is_cmd = False, first_char = NUL, last_char = NUL, cmd_chars = 0, all_chars = 0\<rparr>
      in if first_char s = CHR ''/'' \<and> all_chars s = 1 then IS_CMD_SLASH
         else if first_char s = BSL \<or> (is_cmd s \<and> cmd_chars s = 2)
                 \<or> (is_cmd s \<and> cmd_chars s = 3 \<and> last_char s = CHR '';'') then IS_CMD_LINE
         else NOT_CMD)"

section \<open>What is skipped\<close>

text \<open>
  The texts that stand for nothing: blanks, closed block comments and line comments up to
  the end of their line, in any order.
\<close>

inductive skips :: "string \<Rightarrow> bool" where
  skips_Nil: "skips []"
| skips_blank: "is_blank c \<Longrightarrow> skips s \<Longrightarrow> skips (c # s)"
| skips_block: "\<not> sublist ''*/'' (body @ ''*'') \<Longrightarrow> skips s \<Longrightarrow>
    skips (''/*'' @ body @ ''*/'' @ s)"
| skips_line: "NL \<notin> set body \<Longrightarrow> skips s \<Longrightarrow> skips (''--'' @ body @ NL # s)"

text \<open>A text that begins with something else, and a comment that never ends.\<close>

definition starts :: "string \<Rightarrow> bool" where
  "starts r \<longleftrightarrow> r \<noteq> [] \<and> \<not> is_blank (hd r) \<and> \<not> prefix ''/*'' r \<and> \<not> prefix ''--'' r"

definition unclosed :: "string \<Rightarrow> bool" where
  "unclosed r \<longleftrightarrow> r = [] \<or> prefix ''/*'' r \<and> \<not> sublist ''*/'' (drop 2 r)
     \<or> prefix ''--'' r \<and> NL \<notin> set r"

lemma skip_while_to:
  "is_cstr (xs @ ys) \<Longrightarrow> int (length (xs @ ys)) \<le> n \<Longrightarrow>
   (\<forall>i < length xs. P (drop i xs @ ys)) \<Longrightarrow> ys = [] \<or> \<not> P ys \<Longrightarrow>
   skip_while P (xs @ ys) n = (ys, n - int (length xs))"
proof (induction xs arbitrary: n)
  case Nil
  then show ?case by (cases ys) auto
next
  case (Cons x xs)
  have "P (x # xs @ ys)" using Cons.prems(3) by (auto dest: spec [of _ 0])
  moreover have "\<forall>i < length xs. P (drop i xs @ ys)" using Cons.prems(3) by (auto dest: spec [of _ "Suc _"])
  ultimately show ?case using Cons.IH [of "n - 1"] Cons.prems by auto
qed

lemma two_prefix: "ch_at p 0 = a \<and> ch_at p 1 = b \<longleftrightarrow> prefix [a, b] p" if "a \<noteq> NUL" "b \<noteq> NUL"
  using that by (cases p; cases "tl p") auto

lemmas comment_marks = two_prefix [of "CHR ''/''" "CHR ''*''", simplified]
  two_prefix [of "CHR ''*''" "CHR ''/''", simplified] two_prefix [of "CHR ''-''" "CHR ''-''", simplified]

lemma skip_blank_stop: "p = [] \<or> \<not> is_blank (hd p) \<Longrightarrow> skip_while (\<lambda>p. is_blank (ch_at p 0)) p n = (p, n)"
  by (cases p) auto

lemma not_blank_marks [simp]: "\<not> is_blank (CHR ''/'')" "\<not> is_blank (CHR ''-'')" "\<not> is_blank NUL"
  by (simp_all add: is_blank_def)

lemma trim_loop_blank:
  assumes "is_blank c" and "0 < n" and "is_cstr p"
  shows "trim_loop (c # p) n = trim_loop p (n - 1)"
proof -
  have c: "c \<noteq> NUL" using assms(1) by auto
  have r: "trim_round (c # p) n = trim_round p (n - 1)"
    using assms c by (simp add: trim_round_def)
  show ?thesis
  proof (cases p)
    case Nil
    then show ?thesis using r c
      by (simp add: trim_loop.simps [of "[c]"] trim_loop.simps [of "[]"] trim_round_def)
  next
    case (Cons d q)
    then show ?thesis using r c assms(3)
      by (simp add: trim_loop.simps [of "c # d # q"] trim_loop.simps [of "d # q"])
  qed
qed

lemma no_early_close:
  assumes "\<not> sublist ''*/'' (body @ ''*'')" and "i < length body"
  shows "\<not> prefix ''*/'' (drop i body @ ''*/'' @ t)"
proof
  assume pre: "prefix ''*/'' (drop i body @ ''*/'' @ t)"
  obtain c d where d: "drop i body = c # d" using assms(2) by (cases "drop i body") auto
  have "sublist (drop i body @ ''*'') (body @ ''*'')"
    by (metis append_assoc append_take_drop_id sublist_append_leftI)
  moreover have "prefix ''*/'' (drop i body @ ''*'')" using pre d by (cases d) auto
  ultimately show False using assms(1) by (metis prefix_imp_sublist sublist_order.order_trans)
qed

lemma trim_round_block:
  assumes "\<not> sublist ''*/'' (body @ ''*'')" and "is_cstr (body @ t)"
    and "int (length (''/*'' @ body @ ''*/'' @ t)) \<le> n"
  shows "trim_round (''/*'' @ body @ ''*/'' @ t) n = (True, t, n - int (4 + length body))"
proof -
  have "skip_while (\<lambda>p. \<not> prefix ''*/'' p) (body @ ''*/'' @ t) (n - 2) = (''*/'' @ t, n - 2 - int (length body))"
    using assms no_early_close [OF assms(1)] by (intro skip_while_to) auto
  then show ?thesis
    by (simp add: trim_round_def skip_blank_stop comment_marks)
qed

lemma trim_round_line:
  assumes "NL \<notin> set body" and "is_cstr (body @ t)" and "int (length (''--'' @ body @ NL # t)) \<le> n"
  shows "trim_round (''--'' @ body @ NL # t) n = (True, t, n - int (3 + length body))"
proof -
  have "\<forall>i < length body. ch_at (drop i body @ NL # t) 0 \<noteq> NL"
    using assms(1) by (metis append_is_Nil_conv ch_at_0_hd drop_eq_Nil hd_append2 hd_drop_conv_nth nth_mem not_le)
  then have "skip_while (\<lambda>p. ch_at p 0 \<noteq> NL) (body @ NL # t) (n - 2) = (NL # t, n - 2 - int (length body))"
    using assms by (intro skip_while_to) auto
  then show ?thesis
    by (simp add: trim_round_def skip_blank_stop comment_marks)
qed

lemma trim_loop_step:
  assumes "trim_round p n = (True, q, m)" and "ch_at p 0 \<noteq> NUL"
  shows "trim_loop p n = trim_loop q m"
  using assms by (simp add: trim_loop.simps [of p n])

lemma trim_loop_skips:
  "skips s \<Longrightarrow> is_cstr (s @ r) \<Longrightarrow> int (length (s @ r)) \<le> n \<Longrightarrow>
   \<exists>m. int (length r) \<le> m \<and> trim_loop (s @ r) n = trim_loop r m"
proof (induction s arbitrary: n rule: skips.induct)
  case skips_Nil
  then show ?case by auto
next
  case (skips_blank c s)
  from skips_blank.IH [of "n - 1"] skips_blank.prems
  obtain m where "int (length r) \<le> m" "trim_loop (s @ r) (n - 1) = trim_loop r m" by auto
  then show ?case using trim_loop_blank [OF skips_blank.hyps(1), of n "s @ r"] skips_blank.prems by auto
next
  case (skips_block body s)
  have "trim_loop (''/*'' @ body @ ''*/'' @ s @ r) n = trim_loop (s @ r) (n - int (4 + length body))"
    using skips_block trim_round_block [of body "s @ r" n] by (intro trim_loop_step) auto
  then show ?case using skips_block.IH [of "n - int (4 + length body)"] skips_block.prems by auto
next
  case (skips_line body s)
  have "trim_loop (''--'' @ body @ NL # s @ r) n = trim_loop (s @ r) (n - int (3 + length body))"
    using skips_line trim_round_line [of body "s @ r" n] by (intro trim_loop_step) auto
  then show ?case using skips_line.IH [of "n - int (3 + length body)"] skips_line.prems by auto
qed

lemma trim_loop_starts:
  assumes "starts r" and "is_cstr r"
  shows "trim_loop r n = r"
proof -
  have "trim_round r n = (False, r, n)"
    using assms by (simp add: trim_round_def skip_blank_stop comment_marks starts_def)
  then show ?thesis by (simp add: trim_loop.simps [of r n])
qed

lemma trim_loop_Nil [simp]: "trim_loop [] n = []"
  by (simp add: trim_loop.simps [of "[]"])

lemma skip_while_all:
  "is_cstr s \<Longrightarrow> int (length s) \<le> n \<Longrightarrow> \<forall>i < length s. P (drop i s) \<Longrightarrow>
   skip_while P s n = ([], n - int (length s))"
  using skip_while_to [of s "[]" n P] by simp

lemma trim_loop_unclosed:
  assumes "unclosed r" and "is_cstr r" and "int (length r) \<le> n"
  shows "trim_loop r n = []"
proof -
  consider "r = []" | b where "r = ''/*'' @ b" "\<not> sublist ''*/'' b" | b where "r = ''--'' @ b" "NL \<notin> set b"
    using assms(1) by (auto simp: unclosed_def prefix_def)
  then show ?thesis
  proof cases
    case 2
    have "\<forall>i < length b. \<not> prefix ''*/'' (drop i b)"
      using 2(2) by (metis prefix_imp_sublist sublist_drop sublist_order.order_trans)
    then have "skip_while (\<lambda>p. \<not> prefix ''*/'' p) b (n - 2) = ([], n - 2 - int (length b))"
      using 2 assms by (intro skip_while_all) auto
    then show ?thesis using 2
      by (simp add: trim_loop.simps [of "CHR ''/'' # CHR ''*'' # b" n] trim_round_def skip_blank_stop comment_marks)
  next
    case 3
    have "\<forall>i < length b. ch_at (drop i b) 0 \<noteq> NL"
      using 3(2) by (simp add: ch_at_def) (metis nth_mem)
    then have "skip_while (\<lambda>p. ch_at p 0 \<noteq> NL) b (n - 2) = ([], n - 2 - int (length b))"
      using 3 assms by (intro skip_while_all) auto
    then show ?thesis using 3
      by (simp add: trim_loop.simps [of "CHR ''-'' # CHR ''-'' # b" n] trim_round_def skip_blank_stop comment_marks)
  qed simp
qed

section \<open>Command lines\<close>

definition visible :: "string \<Rightarrow> string" where
  "visible p = filter (\<lambda>c. \<not> is_blank c \<and> c \<noteq> NUL) p"

definition cmd_char :: "char \<Rightarrow> cmd_scan \<Rightarrow> cmd_scan" where
  "cmd_char c s =
     s\<lparr>first_char := (if first_char s = NUL then c else first_char s), is_cmd := is_cmd s \<or> c = BSL,
       cmd_chars := (if c = BSL then 1 else cmd_chars s + 1), all_chars := all_chars s + 1, last_char := c\<rparr>"

lemma cmd_scan_fold: "\<not> use_mb cs \<Longrightarrow> cmd_scan_loop cs p s = fold cmd_char (visible p) s"
proof (induction p arbitrary: s)
  case (Cons c p)
  then show ?case by (cases s) (auto simp: visible_def cmd_char_def Let_def)
qed (simp add: visible_def)

definition cmd_start :: cmd_scan where
  "cmd_start = \<lparr>is_cmd = False, first_char = NUL, last_char = NUL, cmd_chars = 0, all_chars = 0\<rparr>"

lemma cmd_fold:
  assumes "is_cstr t"
  shows "fold cmd_char t cmd_start = \<lparr>is_cmd = BSL \<in> set t, first_char = (if t = [] then NUL else hd t),
    last_char = (if t = [] then NUL else last t),
    cmd_chars = (if BSL \<in> set t then Suc (length (takeWhile (\<lambda>c. c \<noteq> BSL) (rev t))) else length t),
    all_chars = length t\<rparr>"
  using assms
proof (induction t rule: rev_induct)
  case (snoc c t)
  have IH: "fold cmd_char t cmd_start = \<lparr>is_cmd = BSL \<in> set t, first_char = (if t = [] then NUL else hd t),
    last_char = (if t = [] then NUL else last t),
    cmd_chars = (if BSL \<in> set t then Suc (length (takeWhile (\<lambda>c. c \<noteq> BSL) (rev t))) else length t),
    all_chars = length t\<rparr>" using snoc by simp
  have "t \<noteq> [] \<Longrightarrow> hd t \<noteq> NUL" using snoc.prems by (cases t) auto
  then show ?case
    by (simp only: fold_append fold_simps comp_apply IH) (simp add: cmd_char_def)
qed (simp add: cmd_start_def)

text \<open>The command, if any, is what follows the last backslash.\<close>

definition last_command :: "string \<Rightarrow> string" where
  "last_command t = rev (takeWhile (\<lambda>c. c \<noteq> BSL) (rev t))"

section \<open>Properties\<close>

text \<open>
  C18: what \<open>get_trim_comment_sql\<close> returns is the text after all leading blanks and closed
  comments; it is the null pointer when nothing follows them, or only a comment that is
  never closed.
\<close>

theorem get_trim_comment_sql_result:
  assumes "skips s" and "is_cstr (s @ r)" and "int (length (s @ r)) \<le> len"
  shows "(starts r \<longrightarrow> get_trim_comment_sql (s @ r) len = Some r)
    \<and> (unclosed r \<longrightarrow> get_trim_comment_sql (s @ r) len = None)"
proof -
  obtain m where m: "int (length r) \<le> m" "trim_loop (s @ r) len = trim_loop r m"
    using trim_loop_skips [OF assms] by blast
  have r: "is_cstr r" using assms(2) by simp
  have "ch_at r 0 \<noteq> NUL" if "starts r" using that r by (cases r) (auto simp: starts_def)
  then show ?thesis
    using m trim_loop_starts [OF _ r] trim_loop_unclosed [OF _ r m(1)]
    by (auto simp: get_trim_comment_sql_def)
qed

theorem get_trim_comment_sql_result_witness:
  "get_trim_comment_sql ('' /* a; */ begin'') 16 = Some ''begin''
     \<and> get_trim_comment_sql ('' /* a; */ /* b'') 15 = None"
proof -
  have "skips (''/*'' @ '' a; '' @ ''*/'' @ '' '')"
    by (intro skips_block skips_blank skips_Nil) (simp_all add: is_blank_def sublist_Cons_right)
  then have s: "skips ('' /* a; */ '')" using skips_blank [of "CHR '' ''"] by (simp add: is_blank_def)
  have "starts ''begin''" and "unclosed ''/* b''"
    by (simp_all add: starts_def is_blank_def unclosed_def sublist_Cons_right)
  then show ?thesis
    using get_trim_comment_sql_result [OF s, of "''begin''" 16]
      get_trim_comment_sql_result [OF s, of "''/* b''" 15] by simp
qed


text \<open>
  C19: in a single-byte character set a line is the slash command exactly when its only
  visible character is a slash, and a command line exactly when it begins with a backslash
  or ends in a backslash with one letter, a semicolon after it or not.
\<close>

theorem is_cmd_line_iff:
  assumes "\<not> use_mb cs" and "t = visible pos"
  shows "is_cmd_line cs pos =
    (if t = ''/'' then IS_CMD_SLASH
     else if t \<noteq> [] \<and> hd t = BSL \<or> BSL \<in> set t \<and>
       (length (last_command t) = 1 \<or> length (last_command t) = 2 \<and> last t = CHR '';'')
     then IS_CMD_LINE else NOT_CMD)"
proof -
  have t: "is_cstr t" by (simp add: assms(2) visible_def is_cstr_def)
  have one: "hd t = CHR ''/'' \<and> length t = 1 \<longleftrightarrow> t = ''/''" by (cases t) auto
  have f: "cmd_scan_loop cs pos cmd_start = fold cmd_char t cmd_start"
    using cmd_scan_fold [OF assms(1)] assms(2) by simp
  show ?thesis
    unfolding is_cmd_line_def cmd_start_def [symmetric] f cmd_fold [OF t]
    using one by (auto simp: last_command_def Let_def)
qed

theorem is_cmd_line_iff_witness:
  "is_cmd_line my_charset_latin1 '' / '' = IS_CMD_SLASH
     \<and> is_cmd_line my_charset_latin1 (''select 1 '' @ [BSL] @ ''s;'') = IS_CMD_LINE
     \<and> is_cmd_line my_charset_latin1 ''select 1 / 2'' = NOT_CMD"
  using is_cmd_line_iff [of my_charset_latin1, OF _ refl, of "'' / ''"]
    is_cmd_line_iff [of my_charset_latin1, OF _ refl, of "''select 1 '' @ [BSL] @ ''s;''"]
    is_cmd_line_iff [of my_charset_latin1, OF _ refl, of "''select 1 / 2''"]
  by (simp add: visible_def is_blank_def last_command_def)

end
