(* ===== verification/CommandArgs.thy ===== *)
theory CommandArgs
  imports Charset
begin

text \<open>
  Taking the arguments of a client command apart: \<^verbatim>\<open>get_arg\<close>, \<^verbatim>\<open>get_arg_string\<close>,
  \<^verbatim>\<open>get_arg_by_index\<close>, \<^verbatim>\<open>rewrite_by_oracle\<close>, \<^verbatim>\<open>split_fullname\<close>,
  \<^verbatim>\<open>get_tenant_clust_name\<close>, \<^verbatim>\<open>parse_socket5_proxy\<close> and
  \<^verbatim>\<open>parse_multi_host\<close> of \<^verbatim>\<open>client/mysql.cc\<close>. They edit the line in place and
  look behind a NUL they wrote, so the line is the whole array and a pointer is an index
  into it; behind the end of the array there are only NULs.
\<close>

section \<open>Scanning\<close>

abbreviation SPACE :: char where "SPACE \<equiv> CHR '' ''"

definition skip_space :: "charset_info \<Rightarrow> string \<Rightarrow> nat \<Rightarrow> nat" where
  "skip_space cs a i = i + length (takeWhile (my_isspace cs) (drop i a))"

definition skip_word :: "charset_info \<Rightarrow> string \<Rightarrow> nat \<Rightarrow> nat" where
  "skip_word cs a i = i + length (takeWhile (\<lambda>c. c \<noteq> NUL \<and> \<not> my_isspace cs c) (drop i a))"

definition seek :: "char \<Rightarrow> string \<Rightarrow> nat \<Rightarrow> nat" where
  "seek x a i = i + length (takeWhile (\<lambda>c. c \<noteq> NUL \<and> c \<noteq> x) (drop i a))"

definition seek_end :: "string \<Rightarrow> nat \<Rightarrow> nat" where
  "seek_end a i = i + length (takeWhile (\<lambda>c. c \<noteq> NUL) (drop i a))"

text \<open>\<open>strmov_overlapp(p, p + 1)\<close>: the rest of the string, with its NUL, moves down by one.\<close>

definition delete_at :: "string \<Rightarrow> nat \<Rightarrow> string" where
  "delete_at a p = (let s = cstr (drop (p + 1) a)
                    in take p a @ s @ [NUL] @ drop (p + length s + 1) a)"

lemma length_delete_at [simp]: "p < length a \<Longrightarrow> length (delete_at a p) = length a"
  using length_cstr_le [of "drop (p + 1) a"] by (simp add: delete_at_def Let_def)

lemma ch_at_in: "ch_at a p \<noteq> NUL \<Longrightarrow> p < length a"
  by (auto simp: ch_at_def split: if_splits)

lemma ch_at_step: "ch_at a p = c \<Longrightarrow> c \<noteq> NUL \<Longrightarrow> length a - Suc p < length a - p"
  using ch_at_in [of a p] by auto

section \<open>The arguments of a command\<close>

datatype get_arg_mode = CHECK | GET | GET_NEXT

text \<open>Where the argument begins to be looked for, and whether the command is a short one.\<close>

definition arg_begin :: "charset_info \<Rightarrow> string \<Rightarrow> nat \<Rightarrow> get_arg_mode \<Rightarrow> bool \<times> nat" where
  "arg_begin cs a line mode =
     (if mode = GET_NEXT then
        (let ptr = seek_end a line
         in (False, if ch_at a (ptr + 1) \<noteq> NUL then ptr + 1 else ptr))
      else
        (let ptr = skip_space cs a line
         in if ch_at a ptr = BSL then (True, ptr + 2) else (False, skip_word cs a ptr)))"

function arg_loop ::
  "get_arg_mode \<Rightarrow> bool \<Rightarrow> char \<Rightarrow> string \<Rightarrow> nat \<Rightarrow> string \<times> nat \<times> char" where
  "arg_loop mode short_cmd qtype a ptr =
     (if ch_at a ptr = NUL then (a, ptr, qtype)
      else if (if short_cmd then ch_at a ptr = BSL \<and> ch_at a (ptr + 1) \<noteq> NUL
               else ch_at a ptr = BSL \<and> ch_at a (ptr + 1) \<noteq> NUL \<and> qtype \<noteq> BQ
                 \<or> qtype \<noteq> NUL \<and> ch_at a ptr = qtype \<and> ch_at a (ptr + 1) = qtype)
      then if mode \<noteq> CHECK then arg_loop mode short_cmd qtype (delete_at a ptr) (ptr + 1)
           else arg_loop mode short_cmd qtype a (ptr + 2)
      else if ch_at a ptr = (if qtype \<noteq> NUL then qtype else SPACE)
      then (if mode \<noteq> CHECK then a[ptr := NUL] else a, ptr, NUL)
      else arg_loop mode short_cmd qtype a (ptr + 1))"
  by pat_completeness auto
termination
  by (relation "measure (\<lambda>(mode, short_cmd, qtype, a, ptr). length a - ptr)")
    (auto dest!: ch_at_in)

declare arg_loop.simps [simp del]

definition get_arg :: "charset_info \<Rightarrow> string \<Rightarrow> nat \<Rightarrow> get_arg_mode \<Rightarrow> nat option \<times> string" where
  "get_arg cs a line mode =
     (let (short_cmd, ptr) = arg_begin cs a line mode in
      if ch_at a ptr = NUL then (None, a)
      else
        let ptr = skip_space cs a ptr;
            quoted = ch_at a ptr = SQ \<or> ch_at a ptr = DQ \<or> ch_at a ptr = BQ;
            qtype = (if quoted then ch_at a ptr else NUL);
            start = (if quoted then ptr + 1 else ptr);
            (a, ptr, qtype) = arg_loop mode short_cmd qtype a start
        in (if ptr \<noteq> start \<and> qtype = NUL then Some start else None, a))"

definition get_arg_string :: "charset_info \<Rightarrow> string \<Rightarrow> nat \<Rightarrow> get_arg_mode \<Rightarrow> nat option \<times> string" where
  "get_arg_string cs a line mode =
     (let ptr = snd (arg_begin cs a line mode) in
      if ch_at a ptr = NUL then (None, a)
      else
        let start = skip_space cs a ptr;
            ptr = seek SPACE a start
        in (Some start, if ch_at a ptr = SPACE then a[ptr := NUL] else a))"

fun arg_index_loop :: "charset_info \<Rightarrow> string \<Rightarrow> nat \<Rightarrow> nat \<Rightarrow> nat" where
  "arg_index_loop cs a ptr 0 = ptr"
| "arg_index_loop cs a ptr (Suc arg_index) =
     (let ptr = skip_space cs a (skip_word cs a ptr) in
      if ch_at a ptr \<noteq> NUL then arg_index_loop cs a ptr arg_index
      else if ch_at a (ptr + 1) \<noteq> NUL then arg_index_loop cs a (ptr + 1) arg_index
      else ptr + 1)"

definition get_arg_by_index :: "charset_info \<Rightarrow> string \<Rightarrow> nat \<Rightarrow> nat \<Rightarrow> nat option \<times> string" where
  "get_arg_by_index cs a line arg_index =
     get_arg_string cs a (arg_index_loop cs a line arg_index) GET_NEXT"

section \<open>Connect strings\<close>

text \<open>
  The length of the text up to the first place, outside double quotes, where \<open>stop\<close> holds
  of a character and the one after it.
\<close>

fun unquoted_len :: "(char \<Rightarrow> char \<Rightarrow> bool) \<Rightarrow> bool \<Rightarrow> string \<Rightarrow> nat" where
  "unquoted_len stop in_string [] = 0"
| "unquoted_len stop in_string (c # r) =
     (if c = NUL then 0
      else if c = DQ then Suc (unquoted_len stop (\<not> in_string) r)
      else if \<not> in_string \<and> stop c (ch_at r 0) then 0
      else Suc (unquoted_len stop in_string r))"

text \<open>The port at the end: digits only, the first other byte is blanked.\<close>

definition rewrite_port :: "string \<Rightarrow> nat \<Rightarrow> int \<times> string" where
  "rewrite_port a ptr =
     (let p = ptr + length (takeWhile is_digit (drop ptr a))
      in if ch_at a p \<noteq> NUL then (-1, a[p := SPACE]) else (1, a))"

text \<open>The host, after the \<open>@\<close>: slashes and brackets around it are blanked.\<close>

definition rewrite_host :: "string \<Rightarrow> nat \<Rightarrow> int \<times> string" where
  "rewrite_host a ptr =
     (let (a, ptr) = (if ch_at a ptr = CHR ''/'' \<and> ch_at a (ptr + 1) = CHR ''/''
                      then (a[ptr := SPACE, ptr + 1 := SPACE], ptr + 2) else (a, ptr));
          (a, ptr) = (if ch_at a ptr = CHR ''['' then
                        (let a = a[ptr := SPACE]; p = seek CHR '']'' a (ptr + 1)
                         in if ch_at a p \<noteq> NUL then (a[p := SPACE], p + 1) else (a, p))
                      else (a, ptr));
          ptr = seek CHR '':'' a ptr;
          (a, ptr) = (if ch_at a ptr \<noteq> NUL then (a[ptr := SPACE], ptr + 1) else (a, ptr))
      in rewrite_port a ptr)"

definition rewrite_by_oracle :: "charset_info \<Rightarrow> string \<Rightarrow> int \<times> string" where
  "rewrite_by_oracle cs a =
     (let ptr = skip_space cs a 0;
          ptr = (if ch_at a ptr = BSL then ptr + 2 else skip_word cs a ptr);
          ptr = ptr + unquoted_len (\<lambda>c d. (c = CHR ''/'' \<or> c = CHR ''@'') \<and> d \<noteq> NUL) False (drop ptr a)
      in if ch_at a ptr = NUL then (0, a)
         else
           let ptr = seek CHR ''/'' a ptr in
           if ch_at a ptr = NUL then (1, a)
           else
             let a = a[ptr := SPACE];
                 ptr = ptr + 1 + unquoted_len (\<lambda>c d. c = CHR ''@'') False (drop (ptr + 1) a)
             in if ch_at a ptr = NUL then (1, a)
                else rewrite_host (a[ptr := SPACE]) (ptr + 1))"

text \<open>
  The out parameters are \<open>None\<close> for a null pointer, otherwise the string pointed at; the
  duplicated strings are never out of memory.
\<close>

definition split_fullname ::
  "cstring option \<Rightarrow> cstring option option \<Rightarrow> cstring option option \<Rightarrow>
   cstring option option \<times> cstring option option" where
  "split_fullname fulluser username tenant =
     (case fulluser of
        None \<Rightarrow> (username, tenant)
      | Some u \<Rightarrow>
          let n = unquoted_len (\<lambda>c d. c = CHR ''@'' \<and> d \<noteq> NUL) False u;
              found = ch_at u n \<noteq> NUL;
              username = (if found then map_option (\<lambda>_. Some (take n u)) username else username);
              tenant = (if found then map_option (\<lambda>_. Some (drop n u)) tenant else tenant)
          in (case username of Some None \<Rightarrow> Some (Some u) | _ \<Rightarrow> username, tenant))"

record tenant_scan =
  ts_quto :: char
  in_tenant :: bool
  in_clust :: bool
  ts_tenant :: string
  ts_clust :: string

text \<open>The lengths are \<open>None\<close> when the array is a null pointer.\<close>

definition tenant_put :: "nat option \<Rightarrow> nat option \<Rightarrow> char \<Rightarrow> tenant_scan \<Rightarrow> tenant_scan" where
  "tenant_put tenant_len clust_len c t =
     (let t = (if in_tenant t \<and> c \<noteq> CHR ''@'' \<and>
                  (case tenant_len of None \<Rightarrow> False | Some n \<Rightarrow> length (ts_tenant t) < n)
               then t\<lparr>ts_tenant := ts_tenant t @ [c]\<rparr> else t)
      in if in_clust t \<and> c \<noteq> CHR ''#'' \<and>
            (case clust_len of None \<Rightarrow> False | Some n \<Rightarrow> length (ts_clust t) < n)
         then t\<lparr>ts_clust := ts_clust t @ [c]\<rparr> else t)"

fun tenant_loop :: "nat option \<Rightarrow> nat option \<Rightarrow> cstring \<Rightarrow> tenant_scan \<Rightarrow> tenant_scan" where
  "tenant_loop tenant_len clust_len [] t = t"
| "tenant_loop tenant_len clust_len (c # s) t =
     (let go = (\<lambda>t. tenant_loop tenant_len clust_len s (tenant_put tenant_len clust_len c t)) in
      if (c = DQ \<or> c = SQ) \<and> ts_quto t = NUL then go (t\<lparr>ts_quto := c\<rparr>)
      else if (c = DQ \<or> c = SQ) \<and> ts_quto t \<noteq> NUL then go (t\<lparr>ts_quto := NUL\<rparr>)
      else if c = CHR ''@'' \<and> \<not> in_tenant t \<and> ts_quto t = NUL then go (t\<lparr>in_tenant := True\<rparr>)
      else if c = CHR ''#'' \<and> in_tenant t \<and> ts_quto t = NUL
        then go (t\<lparr>in_tenant := False, in_clust := True\<rparr>)
      else if c = CHR '':'' \<and> in_clust t \<and> ts_quto t = NUL then t\<lparr>in_clust := False\<rparr>
      else go t)"

definition get_tenant_clust_name ::
  "cstring option \<Rightarrow> nat option \<Rightarrow> nat option \<Rightarrow> string \<times> string" where
  "get_tenant_clust_name username tenant_len clust_len =
     (case username of
        None \<Rightarrow> ([], [])
      | Some u \<Rightarrow>
          let t = tenant_loop tenant_len clust_len u
                    \<lparr>ts_quto = NUL, in_tenant = False, in_clust = False, ts_tenant = [], ts_clust = []\<rparr>
          in (ts_tenant t, ts_clust t))"

section \<open>Proxies and hosts\<close>

text \<open>
  The four values of \<open>host,port,user,password\<close>; strings are pointers into the array.
  \<open>s5_set\<close> stores the value that begins at \<open>str\<close> as the one of index \<open>idx\<close>.
\<close>

record socket5 =
  s5_host :: "nat option"
  s5_port :: "int option"
  s5_user :: "nat option"
  s5_pwd :: "nat option"

definition s5_set :: "string \<Rightarrow> nat \<Rightarrow> nat \<Rightarrow> socket5 \<Rightarrow> socket5" where
  "s5_set a str idx v =
     (if idx = 0 then v\<lparr>s5_host := Some str\<rparr>
      else if idx = 1 then v\<lparr>s5_port := Some (atoi (cstr (drop str a)))\<rparr>
      else if idx = 2 then v\<lparr>s5_user := Some str\<rparr>
      else if idx = 3 then v\<lparr>s5_pwd := Some str\<rparr> else v)"

function socket5_loop ::
  "bool \<Rightarrow> nat \<Rightarrow> nat \<Rightarrow> socket5 \<Rightarrow> string \<Rightarrow> nat \<Rightarrow> socket5 \<times> string" where
  "socket5_loop in_string str idx v a p =
     (if ch_at a p = NUL then (s5_set a str idx v, a)
      else if ch_at a p = CHR ''['' then socket5_loop True (p + 1) idx v a (p + 1)
      else if ch_at a p = CHR '']'' \<and> in_string
        then socket5_loop False str idx v (a[p := NUL]) (p + 1)
      else if ch_at a p = CHR '','' \<and> \<not> in_string
        then socket5_loop in_string (p + 1) (idx + 1) (s5_set (a[p := NUL]) str idx v)
               (a[p := NUL]) (p + 1)
      else socket5_loop in_string str idx v a (p + 1))"
  by pat_completeness auto
termination
  by (relation "measure (\<lambda>(in_string, str, idx, v, a, p). length a - p)") (auto intro!: ch_at_step)

declare socket5_loop.simps [simp del]

definition parse_socket5_proxy :: "string \<Rightarrow> socket5 \<Rightarrow> socket5 \<times> string" where
  "parse_socket5_proxy a v = socket5_loop False 0 0 v a 0"

text \<open>
  The hosts of \<open>host1:port1,host2:port2\<close>: the map from pointers to ports is the list of the
  assignments made to it, which go to ever higher pointers.
\<close>

definition multi_host_char ::
  "string \<Rightarrow> nat \<Rightarrow> bool \<times> nat option \<times> nat option \<Rightarrow>
   (bool \<times> nat option \<times> nat option) \<times> string" where
  "multi_host_char a p = (\<lambda>(in_string, myhost, myport).
     if ch_at a p = CHR ''['' then ((True, Some (p + 1), myport), a)
     else if ch_at a p = CHR '']'' \<and> in_string then ((False, myhost, myport), a[p := NUL])
     else if ch_at a p = CHR '':'' \<and> \<not> in_string
       then ((in_string, myhost, Some (p + 1)), a[p := NUL])
     else if ch_at a p = CHR '','' \<and> \<not> in_string then ((in_string, Some (p + 1), None), a)
     else ((in_string, myhost, myport), a))"

lemma length_multi_host_char [simp]: "length (snd (multi_host_char a p st)) = length a"
  by (cases st) (simp add: multi_host_char_def)

function multi_host_loop ::
  "bool \<times> nat option \<times> nat option \<Rightarrow> (nat \<times> int) list \<Rightarrow> string \<Rightarrow> nat \<Rightarrow>
   (nat \<times> int) list \<times> string" where
  "multi_host_loop st mhost a p =
     (if ch_at a p = NUL then (mhost, a)
      else
        case multi_host_char a p st of ((in_string, Some h, Some t), a') \<Rightarrow>
            multi_host_loop (in_string, None, None)
              (if atoi (cstr (drop t a')) > 0 then mhost @ [(h, atoi (cstr (drop t a')))] else mhost)
              a' (p + 1)
        | (st', a') \<Rightarrow> multi_host_loop st' mhost a' (p + 1))"
  by pat_completeness auto
termination
  by (relation "measure (\<lambda>(st, mhost, a, p). length a - p)")
    (auto dest!: ch_at_in dest: arg_cong [of _ _ "\<lambda>r. length (snd r)"])

declare multi_host_loop.simps [simp del]

definition parse_multi_host :: "string option \<Rightarrow> (nat \<times> int) list \<Rightarrow> (nat \<times> int) list \<times> string option" where
  "parse_multi_host host mhost =
     (case host of
        None \<Rightarrow> (mhost, None)
      | Some a \<Rightarrow>
          if strchr (cstr a) CHR '','' = None then (mhost, host)
          else apsnd Some (multi_host_loop (False, Some 0, None) mhost a 0))"

section \<open>Quoted arguments\<close>

text \<open>
  Writing an argument between quotes: the quote is doubled, and a backslash too unless the
  quote is a backtick.
\<close>

definition quote_char :: "char \<Rightarrow> char \<Rightarrow> string" where
  "quote_char q c = (if c = q \<or> c = BSL \<and> q \<noteq> BQ then [c, c] else [c])"

definition quote_arg :: "char \<Rightarrow> string \<Rightarrow> string" where
  "quote_arg q s = concat (map (quote_char q) s)"

lemma quote_arg_Cons [simp]: "quote_arg q (c # s) = quote_char q c @ quote_arg q s"
  and quote_arg_Nil [simp]: "quote_arg q [] = []"
  by (simp_all add: quote_arg_def)

lemma is_cstr_quote_arg: "is_cstr s \<Longrightarrow> is_cstr (quote_arg q s)"
  by (induction s) (auto simp: quote_char_def)

lemma delete_at_append:
  "delete_at (pre @ c # xs) (length pre) = pre @ cstr xs @ NUL # drop (Suc (length pre + length (cstr xs))) (pre @ c # xs)"
  by (simp add: delete_at_def Let_def)

lemma ch_at_cstr_NUL [simp]: "ch_at (cstr xs @ NUL # ys) 0 = ch_at xs 0"
  by (cases xs) (auto simp: cstr_Cons)

lemma arg_loop_quoted:
  assumes "q \<in> {SQ, DQ, BQ}"
  shows "is_cstr s \<Longrightarrow> ch_at rest 0 \<noteq> q \<Longrightarrow>
   \<exists>junk. arg_loop GET False q (pre @ quote_arg q s @ q # rest) (length pre)
     = (pre @ s @ NUL # junk, length pre + length s, NUL)"
proof (induction s arbitrary: pre rest)
  case Nil
  then show ?case using assms
    by (auto simp: arg_loop.simps [of GET False q "pre @ q # rest" "length pre"])
next
  case (Cons c s)
  have c: "c \<noteq> NUL" and s: "is_cstr s" using Cons.prems by simp_all
  let ?E = "quote_arg q s"
  show ?case
  proof (cases "c = q \<or> c = BSL \<and> q \<noteq> BQ")
    case True
    let ?a = "pre @ c # c # ?E @ q # rest"
    let ?rest = "cstr rest @ NUL # drop (Suc (length pre + length (cstr (c # ?E @ q # rest)))) ?a"
    have q: "q \<noteq> NUL" using assms by auto
    have d: "delete_at ?a (length pre) = (pre @ [c]) @ ?E @ q # ?rest"
      using c q is_cstr_quote_arg [OF s, of q]
      by (subst delete_at_append) (simp add: cstr_Cons cstr_append)
    have "ch_at ?rest 0 \<noteq> q" using Cons.prems(2) by (simp only: ch_at_cstr_NUL) simp
    then obtain junk where j: "arg_loop GET False q ((pre @ [c]) @ ?E @ q # ?rest) (length (pre @ [c]))
        = ((pre @ [c]) @ s @ NUL # junk, length (pre @ [c]) + length s, NUL)"
      using Cons.IH [OF s, of ?rest "pre @ [c]"] by blast
    have E: "pre @ quote_arg q (c # s) @ q # rest = ?a" using True by (simp add: quote_char_def)
    have "arg_loop GET False q ?a (length pre) = arg_loop GET False q (delete_at ?a (length pre)) (length (pre @ [c]))"
      using True c assms by (subst arg_loop.simps) auto
    also have "\<dots> = (pre @ (c # s) @ NUL # junk, length pre + length (c # s), NUL)"
      unfolding d using j by simp
    finally show ?thesis unfolding E by blast
  next
    case False
    let ?a = "pre @ c # ?E @ q # rest"
    obtain junk where j: "arg_loop GET False q ((pre @ [c]) @ ?E @ q # rest) (length (pre @ [c]))
        = ((pre @ [c]) @ s @ NUL # junk, length (pre @ [c]) + length s, NUL)"
      using Cons.IH [OF s Cons.prems(2), of "pre @ [c]"] by blast
    have E: "pre @ quote_arg q (c # s) @ q # rest = ?a" using False by (simp add: quote_char_def)
    have "arg_loop GET False q ?a (length pre) = arg_loop GET False q ?a (length (pre @ [c]))"
    proof -
      have "q \<noteq> NUL" and "c \<noteq> q" and "c \<noteq> BSL \<or> q = BQ" using assms False by auto
      then show ?thesis using c 
        by (subst arg_loop.simps [of GET False q ?a "length pre"]) (elim disjE, simp_all)
    qed
    also have "\<dots> = (pre @ (c # s) @ NUL # junk, length pre + length (c # s), NUL)"
      using j by simp
    finally show ?thesis unfolding E by blast
  qed
qed

text \<open>A command word, and the blanks after it.\<close>

definition command_word :: "charset_info \<Rightarrow> string \<Rightarrow> bool" where
  "command_word cs w \<longleftrightarrow> w \<noteq> [] \<and> hd w \<noteq> BSL \<and> (\<forall>c \<in> set w. c \<noteq> NUL \<and> \<not> my_isspace cs c)"

lemma skip_space_stop: "ch_at (drop i a) 0 = c \<Longrightarrow> drop i a \<noteq> [] \<Longrightarrow> \<not> my_isspace cs c \<Longrightarrow> skip_space cs a i = i"
  by (cases "drop i a") (auto simp: skip_space_def)

lemma skip_space_append:
  "\<forall>c \<in> set sp. my_isspace cs c \<Longrightarrow> rest = [] \<or> \<not> my_isspace cs (hd rest) \<Longrightarrow>
   skip_space cs (pre @ sp @ rest) (length pre) = length pre + length sp"
  by (cases rest) (auto simp: skip_space_def takeWhile_append_stop takeWhile_eq_all_conv [THEN iffD2])

lemma skip_word_append:
  "\<forall>c \<in> set w. c \<noteq> NUL \<and> \<not> my_isspace cs c \<Longrightarrow> rest = [] \<or> my_isspace cs (hd rest) \<Longrightarrow>
   skip_word cs (w @ rest) 0 = length w"
  by (cases rest) (auto simp: skip_word_def takeWhile_append_stop takeWhile_eq_all_conv [THEN iffD2])

lemma arg_begin_command:
  assumes "command_word cs w" and "rest = [] \<or> my_isspace cs (hd rest)" and "mode \<noteq> GET_NEXT"
  shows "arg_begin cs (w @ rest) 0 mode = (False, length w)"
proof -
  obtain c v where w: "w = c # v" using assms(1) by (cases w) (auto simp: command_word_def)
  have "skip_space cs (w @ rest) 0 = 0"
    using assms(1) w by (auto simp: skip_space_def command_word_def)
  then show ?thesis
    using assms skip_word_append [of w cs rest] w by (auto simp: arg_begin_def command_word_def)
qed

lemma get_arg_quoted:
  assumes "command_word cs w" and "sp \<noteq> []" and "\<forall>c \<in> set sp. my_isspace cs c \<and> c \<noteq> NUL"
    and "q \<in> {SQ, DQ, BQ}" and "\<not> my_isspace cs q" and "is_cstr s" and "s \<noteq> []"
    and "ch_at rest 0 \<noteq> q"
  shows "\<exists>a. get_arg cs (w @ sp @ q # quote_arg q s @ q # rest) 0 GET = (Some (length w + length sp + 1), a)
    \<and> cstr (drop (length w + length sp + 1) a) = s"
proof -
  let ?line = "w @ sp @ q # quote_arg q s @ q # rest"
  let ?pre = "w @ sp @ [q]"
  have b: "arg_begin cs ?line 0 GET = (False, length w)"
    using assms(2,3) by (intro arg_begin_command assms(1)) (cases sp, auto)
  have nn: "ch_at ?line (length w) \<noteq> NUL" using assms(2,3) by (cases sp) auto
  have sk: "skip_space cs ?line (length w) = length w + length sp"
    using assms(3,5) by (intro skip_space_append) auto
  have at: "ch_at ?line (length w + length sp) = q"
    using ch_at_append_length [of "w @ sp"] by simp
  obtain junk where l: "arg_loop GET False q ?line (length ?pre) = (?pre @ s @ NUL # junk, length ?pre + length s, NUL)"
    using arg_loop_quoted [OF assms(4,6,8), of ?pre] by auto
  have "get_arg cs ?line 0 GET = (Some (length w + length sp + 1), ?pre @ s @ NUL # junk)"
    using b nn sk at l assms(4,7) by (auto simp: get_arg_def Let_def)
  moreover have "cstr (drop (length w + length sp + 1) (?pre @ s @ NUL # junk)) = s"
    using assms(6) by (simp add: cstr_append_NUL)
  ultimately show ?thesis by blast
qed

section \<open>Connect strings taken apart\<close>

lemma seek_append:
  "x \<notin> set xs \<Longrightarrow> is_cstr xs \<Longrightarrow> rest = [] \<or> hd rest = x \<or> hd rest = NUL \<Longrightarrow>
   seek x (pre @ xs @ rest) (length pre) = length pre + length xs"
proof -
  assume xs: "x \<notin> set xs" "is_cstr xs" and rest: "rest = [] \<or> hd rest = x \<or> hd rest = NUL"
  let ?P = "\<lambda>c. c \<noteq> NUL \<and> c \<noteq> x"
  have "takeWhile ?P (xs @ rest) = xs @ takeWhile ?P rest"
    using xs by (intro takeWhile_append2) (auto simp: is_cstr_def)
  moreover have "takeWhile ?P rest = []" using rest by (cases rest) auto
  ultimately show ?thesis by (simp add: seek_def)
qed

lemma unquoted_len_append:
  "DQ \<notin> set xs \<Longrightarrow> is_cstr xs \<Longrightarrow> \<forall>c \<in> set xs. \<forall>d. \<not> stop c d \<Longrightarrow>
   unquoted_len stop False (xs @ ys) = length xs + unquoted_len stop False ys"
  by (induction xs) auto

lemma list_update_mid: "(pre @ c # xs)[length pre := d] = pre @ d # xs"
  by simp

text \<open>A user name, with a tenant or not, ends at the slash.\<close>

lemma rewrite_user_end:
  assumes "is_cstr u" and "DQ \<notin> set u" and "CHR ''/'' \<notin> set u" and "t \<noteq> []" and "hd t \<noteq> NUL"
  shows "seek CHR ''/'' (pre @ u @ CHR ''/'' # t) (length pre
      + unquoted_len (\<lambda>c d. (c = CHR ''/'' \<or> c = CHR ''@'') \<and> d \<noteq> NUL) False (u @ CHR ''/'' # t))
    = length pre + length u"
    and "ch_at (pre @ u @ CHR ''/'' # t) (length pre
      + unquoted_len (\<lambda>c d. (c = CHR ''/'' \<or> c = CHR ''@'') \<and> d \<noteq> NUL) False (u @ CHR ''/'' # t)) \<noteq> NUL"
proof -
  let ?stop = "\<lambda>c d. (c = CHR ''/'' \<or> c = CHR ''@'') \<and> d \<noteq> NUL"
  define v where "v = takeWhile (\<lambda>c. c \<noteq> CHR ''@'') u"
  define r where "r = dropWhile (\<lambda>c. c \<noteq> CHR ''@'') u"
  have u: "u = v @ r" by (simp add: v_def r_def)
  have v: "\<forall>c \<in> set v. \<forall>d. \<not> ?stop c d" "DQ \<notin> set v" "is_cstr v"
    using assms(1-3) by (auto simp: v_def is_cstr_def dest: set_takeWhileD)
  have r: "r = [] \<or> hd r = CHR ''@''" unfolding r_def using hd_dropWhile by blast
  have nxt: "ch_at (tl r @ CHR ''/'' # t) 0 \<noteq> NUL"
    using assms(1) u by (cases r; cases "tl r") auto
  have "ch_at t 0 \<noteq> NUL" using assms(4,5) by (cases t) auto
  then have "unquoted_len ?stop False (r @ CHR ''/'' # t) = 0"
    using r nxt by (cases r) auto
  then have n: "unquoted_len ?stop False (u @ CHR ''/'' # t) = length v"
    using unquoted_len_append [OF v(2,3,1), of "r @ CHR ''/'' # t"] u by simp
  have "seek CHR ''/'' ((pre @ v) @ r @ CHR ''/'' # t) (length (pre @ v)) = length (pre @ v) + length r"
    using assms(1,3) u by (intro seek_append) auto
  then show "seek CHR ''/'' (pre @ u @ CHR ''/'' # t) (length pre + unquoted_len ?stop False (u @ CHR ''/'' # t))
      = length pre + length u"
    unfolding n by (simp add: u)
  have "ch_at ((pre @ v) @ r @ CHR ''/'' # t) (length (pre @ v)) \<noteq> NUL"
    unfolding ch_at_append_length using r by (cases r) auto
  then show "ch_at (pre @ u @ CHR ''/'' # t) (length pre + unquoted_len ?stop False (u @ CHR ''/'' # t)) \<noteq> NUL"
    unfolding n by (simp add: u)
qed

definition plain_host :: "string \<Rightarrow> bool" where
  "plain_host h \<longleftrightarrow> is_cstr h \<and> CHR '':'' \<notin> set h \<and> h \<noteq> [] \<and> hd h \<notin> {CHR ''/'', CHR ''[''}"

lemma rewrite_host_plain:
  assumes "plain_host h" and "\<forall>c \<in> set d. is_digit c"
  shows "rewrite_host (pre @ h @ CHR '':'' # d) (length pre) = (1, pre @ h @ SPACE # d)"
proof -
  have h: "is_cstr h" "CHR '':'' \<notin> set h" "h \<noteq> []" "hd h \<noteq> CHR ''/''" "hd h \<noteq> CHR ''[''"
    using assms(1) by (auto simp: plain_host_def)
  have first: "ch_at (pre @ h @ CHR '':'' # d) (length pre) = hd h"
    using h(3) by (cases h) auto
  have colon: "seek CHR '':'' (pre @ h @ CHR '':'' # d) (length pre) = length pre + length h"
    using h by (intro seek_append) auto
  have at: "ch_at ((pre @ h) @ CHR '':'' # d) (length (pre @ h)) = CHR '':''"
    by (simp only: ch_at_append_length) simp
  have upd: "((pre @ h) @ CHR '':'' # d)[length (pre @ h) := SPACE] = (pre @ h) @ SPACE # d"
    by (rule list_update_mid)
  have d: "takeWhile is_digit d = d" using assms(2) by (simp add: takeWhile_eq_all_conv)
  have "ch_at (pre @ h @ SPACE # d) (Suc (length pre + length h + length d)) = NUL"
    by (simp add: ch_at_def)
  then have "rewrite_port (pre @ h @ SPACE # d) (length pre + length h + 1) = (1, pre @ h @ SPACE # d)"
    by (simp add: rewrite_port_def Let_def d)
  then show ?thesis
    using first colon at upd h by (simp add: rewrite_host_def Let_def)
qed

lemma rewrite_password:
  assumes "is_cstr w" and "DQ \<notin> set w" and "CHR ''@'' \<notin> set w"
  shows "unquoted_len (\<lambda>c d. c = CHR ''@'') False (w @ CHR ''@'' # t) = length w"
proof -
  have "unquoted_len (\<lambda>c d. c = CHR ''@'') False (w @ CHR ''@'' # t)
      = length w + unquoted_len (\<lambda>c d. c = CHR ''@'') False (CHR ''@'' # t)"
    using assms by (intro unquoted_len_append) auto
  then show ?thesis by simp
qed

section \<open>Several hosts\<close>

text \<open>The text that names hosts with ports, and the array after it has been taken apart.\<close>

fun hosts_text :: "(string \<times> nat) list \<Rightarrow> string" where
  "hosts_text [] = []"
| "hosts_text [(h, n)] = h @ CHR '':'' # dec_str n"
| "hosts_text ((h, n) # hs) = h @ CHR '':'' # dec_str n @ CHR '','' # hosts_text hs"

fun hosts_split :: "(string \<times> nat) list \<Rightarrow> string" where
  "hosts_split [] = []"
| "hosts_split [(h, n)] = h @ NUL # dec_str n"
| "hosts_split ((h, n) # hs) = h @ NUL # dec_str n @ CHR '','' # hosts_split hs"

fun host_ptrs :: "nat \<Rightarrow> (string \<times> nat) list \<Rightarrow> (nat \<times> int) list" where
  "host_ptrs i [] = []"
| "host_ptrs i ((h, n) # hs) = (i, int n) # host_ptrs (i + length h + length (dec_str n) + 2) hs"

definition plain_name :: "string \<Rightarrow> bool" where
  "plain_name h \<longleftrightarrow> set h \<inter> {NUL, CHR ''['', CHR '']'', CHR '':'', CHR '',''} = {}"

lemma plain_name_Cons [simp]: "plain_name (c # h) \<longleftrightarrow>
    c \<noteq> NUL \<and> c \<noteq> CHR ''['' \<and> c \<noteq> CHR '']'' \<and> c \<noteq> CHR '':'' \<and> c \<noteq> CHR '','' \<and> plain_name h"
  by (auto simp: plain_name_def)

lemma plain_name_dec_str: "plain_name (dec_str n)"
proof -
  have "c \<notin> {NUL, CHR ''['', CHR '']'', CHR '':'', CHR '',''}" if "is_digit c" for c
    using that by (auto simp: is_digit_iff)
  then show ?thesis using dec_str_digits [of n] by (auto simp: plain_name_def)
qed

lemma multi_host_plain:
  assumes "\<not> (myhost \<noteq> None \<and> myport \<noteq> None)"
  shows "plain_name xs \<Longrightarrow> multi_host_loop (False, myhost, myport) m (pre @ xs @ ys) (length pre)
    = multi_host_loop (False, myhost, myport) m ((pre @ xs) @ ys) (length (pre @ xs))"
proof (induction xs arbitrary: pre)
  case (Cons x xs)
  have "multi_host_loop (False, myhost, myport) m (pre @ x # xs @ ys) (length pre)
      = multi_host_loop (False, myhost, myport) m ((pre @ [x]) @ xs @ ys) (length (pre @ [x]))"
    using Cons.prems assms
    by (subst multi_host_loop.simps) (auto simp: multi_host_char_def split: option.splits)
  also have "\<dots> = multi_host_loop (False, myhost, myport) m (((pre @ [x]) @ xs) @ ys) (length ((pre @ [x]) @ xs))"
    using Cons.prems by (intro Cons.IH) simp
  finally show ?case by simp
qed simp

text \<open>One host with its port, up to the comma or the end.\<close>

lemma multi_host_one:
  assumes "plain_name h" and "0 < n" and "t = [] \<or> hd t = CHR '',''"
  shows "multi_host_loop (False, Some (length pre), None) m (pre @ h @ CHR '':'' # dec_str n @ t) (length pre)
    = multi_host_loop (False, None, None) (m @ [(length pre, int n)])
        ((pre @ h @ NUL # dec_str n) @ t) (length (pre @ h @ NUL # dec_str n))"
proof -
  let ?p = "pre @ h"
  have dc: "is_cstr (dec_str n)" using plain_name_dec_str [of n] by (auto simp: plain_name_def is_cstr_def)
  have port: "atoi (cstr (drop (Suc (length ?p)) (?p @ NUL # dec_str n @ t))) = int n"
  proof -
    have "cstr t = [] \<or> \<not> is_digit (hd (cstr t))"
      using assms(3) by (cases t) (auto simp: cstr_Cons is_digit_iff)
    then show ?thesis using atoi_dec_str [of "cstr t" n] by (simp add: cstr_append dc)
  qed
  have "multi_host_loop (False, Some (length pre), None) m (pre @ h @ CHR '':'' # dec_str n @ t) (length pre)
      = multi_host_loop (False, Some (length pre), None) m (?p @ CHR '':'' # dec_str n @ t) (length ?p)"
    by (rule multi_host_plain) (use assms(1) in simp_all)
  also have "\<dots> = multi_host_loop (False, None, None) (m @ [(length pre, int n)])
      ((?p @ [NUL]) @ dec_str n @ t) (length (?p @ [NUL]))"
  proof -
    have "multi_host_char (?p @ CHR '':'' # dec_str n @ t) (length ?p) (False, Some (length pre), None)
        = ((False, Some (length pre), Some (Suc (length ?p))), ?p @ NUL # dec_str n @ t)"
      unfolding multi_host_char_def by (simp only: ch_at_append_length list_update_mid) simp
    then show ?thesis
      using port assms(2)
      by (subst multi_host_loop.simps) (simp only: ch_at_append_length, simp)
  qed
  also have "\<dots> = multi_host_loop (False, None, None) (m @ [(length pre, int n)])
      (((?p @ [NUL]) @ dec_str n) @ t) (length ((?p @ [NUL]) @ dec_str n))"
    by (rule multi_host_plain) (simp_all add: plain_name_dec_str)
  finally show ?thesis by simp
qed

lemma multi_host_all:
  "\<forall>(h, n) \<in> set hs. plain_name h \<and> 0 < n \<Longrightarrow> hs \<noteq> [] \<Longrightarrow>
   multi_host_loop (False, Some (length pre), None) m (pre @ hosts_text hs) (length pre)
     = (m @ host_ptrs (length pre) hs, pre @ hosts_split hs)"
proof (induction hs arbitrary: pre m rule: hosts_text.induct)
  case (2 h n)
  have "multi_host_loop (False, Some (length pre), None) m (pre @ h @ CHR '':'' # dec_str n @ []) (length pre)
    = multi_host_loop (False, None, None) (m @ [(length pre, int n)])
        ((pre @ h @ NUL # dec_str n) @ []) (length (pre @ h @ NUL # dec_str n))"
    using 2 by (intro multi_host_one) auto
  also have "\<dots> = (m @ [(length pre, int n)], pre @ h @ NUL # dec_str n)"
    by (subst multi_host_loop.simps) (simp add: ch_at_def)
  finally show ?case by simp
next
  case (3 h n g hs)
  let ?pre = "pre @ h @ NUL # dec_str n"
  have "multi_host_loop (False, Some (length pre), None) m
      (pre @ h @ CHR '':'' # dec_str n @ CHR '','' # hosts_text (g # hs)) (length pre)
    = multi_host_loop (False, None, None) (m @ [(length pre, int n)])
        (?pre @ CHR '','' # hosts_text (g # hs)) (length ?pre)"
    using 3 by (intro multi_host_one) auto
  also have "\<dots> = multi_host_loop (False, Some (length (?pre @ [CHR '','']) ), None) (m @ [(length pre, int n)])
      ((?pre @ [CHR '','']) @ hosts_text (g # hs)) (length (?pre @ [CHR '','']))"
  proof -
    have "multi_host_char (?pre @ CHR '','' # hosts_text (g # hs)) (length ?pre) (False, None, None)
        = ((False, Some (Suc (length ?pre)), None), ?pre @ CHR '','' # hosts_text (g # hs))"
      unfolding multi_host_char_def by (simp only: ch_at_append_length) simp
    then show ?thesis
      by (subst multi_host_loop.simps) (simp only: ch_at_append_length, simp)
  qed
  also have "\<dots> = ((m @ [(length pre, int n)]) @ host_ptrs (length (?pre @ [CHR '',''])) (g # hs),
      (?pre @ [CHR '','']) @ hosts_split (g # hs))"
    using 3 by (intro "3.IH") auto
  finally show ?case by (simp add: algebra_simps)
qed simp

lemma hosts_split_names:
  "\<forall>(h, n) \<in> set hs. plain_name h \<Longrightarrow>
   map (\<lambda>(i, n). (cstr (drop i (pre @ hosts_split hs)), n)) (host_ptrs (length pre) hs)
     = map (\<lambda>(h, n). (h, int n)) hs"
proof (induction hs arbitrary: pre rule: hosts_split.induct)
  case (2 h n)
  then have "is_cstr h" by (auto simp: plain_name_def is_cstr_def)
  then show ?case by (simp add: cstr_append_NUL)
next
  case (3 h n g hs)
  have h: "is_cstr h" using 3 by (auto simp: plain_name_def is_cstr_def)
  have "map (\<lambda>(i, k). (cstr (drop i ((pre @ h @ NUL # dec_str n @ [CHR '','']) @ hosts_split (g # hs))), k))
      (host_ptrs (length (pre @ h @ NUL # dec_str n @ [CHR '',''])) (g # hs))
    = map (\<lambda>(h, n). (h, int n)) (g # hs)"
    using 3 by (intro "3.IH") auto
  then show ?case using h by (simp add: cstr_append_NUL algebra_simps)
qed simp

section \<open>Properties\<close>


lemma latin1_command_words:
  "command_word my_charset_latin1 ''use''" "command_word my_charset_latin1 ''conn''"
  "my_isspace my_charset_latin1 SPACE" "\<not> my_isspace my_charset_latin1 SQ"
  by (simp_all add: command_word_def my_isspace_latin1 latin1_spaces_def)


text \<open>
  C21: a connect string \<open>user@tenant/password@host:port\<close> in Oracle form is rewritten in place
  to its four parts with blanks between them, and reported as rewritten.
\<close>

theorem rewrite_by_oracle_parts:
  assumes "command_word cs w" and "my_isspace cs SPACE"
    and "is_cstr u" and "DQ \<notin> set u" and "CHR ''/'' \<notin> set u"
    and "is_cstr p" and "DQ \<notin> set p" and "CHR ''@'' \<notin> set p"
    and "plain_host h" and "\<forall>c \<in> set d. is_digit c"
  shows "rewrite_by_oracle cs (w @ SPACE # u @ CHR ''/'' # p @ CHR ''@'' # h @ CHR '':'' # d)
    = (1, w @ SPACE # u @ SPACE # p @ SPACE # h @ SPACE # d)"
proof -
  let ?t = "p @ CHR ''@'' # h @ CHR '':'' # d"
  let ?u = "SPACE # u"
  let ?a = "w @ ?u @ CHR ''/'' # ?t"
  let ?pre = "w @ ?u"
  have w: "skip_word cs ?a 0 = length w"
    using assms(1,2) by (intro skip_word_append) (auto simp: command_word_def)
  have w0: "skip_space cs ?a 0 = 0" and wb: "ch_at ?a 0 \<noteq> BSL"
    using assms(1) by (cases w; auto simp: skip_space_def command_word_def)+
  have t: "?t \<noteq> []" "hd ?t \<noteq> NUL" using assms(6) by (cases p; auto)+
  note user = rewrite_user_end [of ?u ?t w, OF _ _ _ t]
  have pw: "unquoted_len (\<lambda>c d. c = CHR ''@'') False ?t = length p"
    using assms(6-8) by (rule rewrite_password)
  have at: "ch_at (?pre @ CHR ''/'' # ?t) (length ?pre) \<noteq> NUL"
    and upd: "(?pre @ CHR ''/'' # ?t)[length ?pre := SPACE] = ?pre @ SPACE # ?t"
    by (simp_all only: ch_at_append_length list_update_mid) simp
  let ?pre2 = "?pre @ SPACE # p"
  have at2: "ch_at (?pre2 @ CHR ''@'' # h @ CHR '':'' # d) (length ?pre2) \<noteq> NUL"
    and upd2: "(?pre2 @ CHR ''@'' # h @ CHR '':'' # d)[length ?pre2 := SPACE] = ?pre2 @ SPACE # h @ CHR '':'' # d"
    by (simp_all only: ch_at_append_length list_update_mid) simp
  have host: "rewrite_host ((?pre2 @ [SPACE]) @ h @ CHR '':'' # d) (length (?pre2 @ [SPACE]))
      = (1, (?pre2 @ [SPACE]) @ h @ SPACE # d)"
    using assms(9,10) by (rule rewrite_host_plain)
  show ?thesis
    using w w0 wb user at upd pw at2 upd2 host assms(3-5)
    by (simp add: rewrite_by_oracle_def Let_def add.assoc)
qed

theorem rewrite_by_oracle_parts_witness:
  "rewrite_by_oracle my_charset_latin1 ''conn root@sys/pw@db1:2881'' = (1, ''conn root@sys pw db1 2881'')"
  using rewrite_by_oracle_parts [of my_charset_latin1 "''conn''" "''root@sys''" "''pw''" "''db1''" "''2881''"]
  by (simp add: latin1_command_words plain_host_def is_digit_def less_eq_char_def)




end
