(* ===== verification/Commands.thy ===== *)
theory Commands
  imports Keywords Comments CommandArgs CompletionHash
begin

text \<open>
  The table of client commands and the ways of finding a command in it: by its letter after
  a backslash and by its name at the beginning of a line (\<^verbatim>\<open>commands\<close>,
  \<^verbatim>\<open>find_command\<close>, \<^verbatim>\<open>is_delimiter_command\<close>,
  \<^verbatim>\<open>get_command_index\<close>, \<^verbatim>\<open>init_disable_commands\<close> and
  \<^verbatim>\<open>is_command_valid\<close> of \<^verbatim>\<open>client/mysql.cc\<close>). A command that is found is
  given by its index in the table and the value its \<open>cmdstr\<close> is set to.
\<close>

section \<open>The table\<close>

datatype com_func = Com_help | Com_clear | Com_connect | Com_delimiter | Com_edit | Com_ego
  | Com_quit | Com_go | Com_nopager | Com_notee | Com_pager | Com_print | Com_prompt
  | Com_rehash | Com_source | Com_status | Com_shell | Com_tee | Com_use | Com_charset
  | Com_warnings | Com_nowarnings

record COMMANDS =
  c_name :: cstring
  cmd_char :: char
  c_func :: "com_func option"
  takes_params :: bool
  c_doc :: cstring

definition client_commands :: "COMMANDS list" where
  "client_commands = [
    \<lparr>c_name = ''?'', cmd_char = CHR ''?'', c_func = Some Com_help, takes_params = True,
     c_doc = ''Synonym for '' @ [BQ] @ ''help'' @ [SQ] @ ''.''\<rparr>,
    \<lparr>c_name = ''clear'', cmd_char = CHR ''c'', c_func = Some Com_clear, takes_params = False,
     c_doc = ''Clear the current input statement.''\<rparr>,
    \<lparr>c_name = ''connect'', cmd_char = CHR ''r'', c_func = Some Com_connect, takes_params = True,
     c_doc = ''Reconnect to the server. Optional arguments are db and host.''\<rparr>,
    \<lparr>c_name = ''conn'', cmd_char = NUL, c_func = Some Com_connect, takes_params = True,
     c_doc = ''Reconnect to the server. Optional arguments are db and host.''\<rparr>,
    \<lparr>c_name = ''delimiter'', cmd_char = CHR ''d'', c_func = Some Com_delimiter, takes_params = True,
     c_doc = ''Set statement delimiter.''\<rparr>,
    \<lparr>c_name = ''edit'', cmd_char = CHR ''e'', c_func = Some Com_edit, takes_params = False,
     c_doc = ''Edit command with $EDITOR.''\<rparr>,
    \<lparr>c_name = ''ego'', cmd_char = CHR ''G'', c_func = Some Com_ego, takes_params = False,
     c_doc = ''Send command to OceanBase server, display result vertically.''\<rparr>,
    \<lparr>c_name = ''exit'', cmd_char = CHR ''q'', c_func = Some Com_quit, takes_params = False,
     c_doc = ''Exit mysql. Same as quit.''\<rparr>,
    \<lparr>c_name = ''go'', cmd_char = CHR ''g'', c_func = Some Com_go, takes_params = False,
     c_doc = ''Send command to OceanBase server.''\<rparr>,
    \<lparr>c_name = ''help'', cmd_char = CHR ''h'', c_func = Some Com_help, takes_params = True,
     c_doc = ''Display this help.''\<rparr>,
    \<lparr>c_name = ''nopager'', cmd_char = CHR ''n'', c_func = Some Com_nopager, takes_params = False,
     c_doc = ''Disable pager, print to stdout.''\<rparr>,
    \<lparr>c_name = ''notee'', cmd_char = CHR ''t'', c_func = Some Com_notee, takes_params = False,
     c_doc = ''Don'' @ [SQ] @ ''t write into outfile.''\<rparr>,
    \<lparr>c_name = ''pager'', cmd_char = CHR ''P'', c_func = Some Com_pager, takes_params = True,
     c_doc = ''Set PAGER [to_pager]. Print the query results via PAGER.''\<rparr>,
    \<lparr>c_name = ''print'', cmd_char = CHR ''p'', c_func = Some Com_print, takes_params = False,
     c_doc = ''Print current command.''\<rparr>,
    \<lparr>c_name = ''prompt'', cmd_char = CHR ''R'', c_func = Some Com_prompt, takes_params = True,
     c_doc = ''Change your mysql prompt.''\<rparr>,
    \<lparr>c_name = ''quit'', cmd_char = CHR ''q'', c_func = Some Com_quit, takes_params = False,
     c_doc = ''Quit mysql.''\<rparr>,
    \<lparr>c_name = ''rehash'', cmd_char = CHR ''#'', c_func = Some Com_rehash, takes_params = False,
     c_doc = ''Rebuild completion hash.''\<rparr>,
    \<lparr>c_name = ''source'', cmd_char = CHR ''.'', c_func = Some Com_source, takes_params = True,
     c_doc = ''Execute an SQL script file. Takes a file name as an argument.''\<rparr>,
    \<lparr>c_name = ''status'', cmd_char = CHR ''s'', c_func = Some Com_status, takes_params = False,
     c_doc = ''Get status information from the server.''\<rparr>,
    \<lparr>c_name = ''system'', cmd_char = CHR ''!'', c_func = Some Com_shell, takes_params = True,
     c_doc = ''Execute a system shell command.''\<rparr>,
    \<lparr>c_name = ''tee'', cmd_char = CHR ''T'', c_func = Some Com_tee, takes_params = True,
     c_doc = ''Set outfile [to_outfile]. Append everything into given outfile.''\<rparr>,
    \<lparr>c_name = ''use'', cmd_char = CHR ''u'', c_func = Some Com_use, takes_params = True,
     c_doc = ''Use another database. Takes database name as argument.''\<rparr>,
    \<lparr>c_name = ''charset'', cmd_char = CHR ''C'', c_func = Some Com_charset, takes_params = True,
     c_doc = ''Switch to another charset. Might be needed for processing binlog with multi-byte charsets.''\<rparr>,
    \<lparr>c_name = ''warnings'', cmd_char = CHR ''W'', c_func = Some Com_warnings, takes_params = False,
     c_doc = ''Show warnings after every statement.''\<rparr>,
    \<lparr>c_name = ''nowarning'', cmd_char = CHR ''w'', c_func = Some Com_nowarnings, takes_params = False,
     c_doc = ''Don'' @ [SQ] @ ''t show warnings after every statement.''\<rparr>]"

definition commands :: "COMMANDS list" where
  "commands = client_commands
     @ map (\<lambda>w. \<lparr>c_name = w, cmd_char = NUL, c_func = None, takes_params = False, c_doc = []\<rparr>) sql_words"

section \<open>Disabled commands\<close>

text \<open>
  \<open>disable_comands\<close> is one array of \<open>COMMAND_MAX\<close> rows of \<open>COMMAND_NAME_LEN\<close> bytes; a
  write behind its end is the value \<open>None\<close>.
\<close>

abbreviation COMMAND_MAX :: nat where "COMMAND_MAX \<equiv> 50"

abbreviation COMMAND_NAME_LEN :: nat where "COMMAND_NAME_LEN \<equiv> 32"

record disabled =
  disable_comands :: string
  disable_command_count :: nat

definition no_disabled :: disabled where
  "no_disabled = \<lparr>disable_comands = replicate (COMMAND_MAX * COMMAND_NAME_LEN) NUL, disable_command_count = 0\<rparr>"

fun disable_loop :: "cstring \<Rightarrow> nat \<Rightarrow> disabled \<Rightarrow> disabled option" where
  "disable_loop [] j d =
     Some (if j > 0 then d\<lparr>disable_command_count := disable_command_count d + 1\<rparr> else d)"
| "disable_loop (c # p) j d =
     (if c = CHR '','' \<or> c = CHR '';'' then
        disable_loop p 0 (if j > 0 then d\<lparr>disable_command_count := disable_command_count d + 1\<rparr> else d)
      else if j < COMMAND_NAME_LEN then
        (let k = disable_command_count d * COMMAND_NAME_LEN + j in
         if k < length (disable_comands d)
         then disable_loop p (j + 1) (d\<lparr>disable_comands := (disable_comands d)[k := c]\<rparr>)
         else None)
      else disable_loop p j d)"

definition init_disable_commands :: "cstring option \<Rightarrow> disabled \<Rightarrow> disabled option" where
  "init_disable_commands ob_disable_commands_str d =
     (case ob_disable_commands_str of
        None \<Rightarrow> Some d
      | Some p \<Rightarrow>
          disable_loop p 0 (d\<lparr>disable_comands := replicate (COMMAND_MAX * COMMAND_NAME_LEN) NUL\<rparr>))"

definition disabled_name :: "disabled \<Rightarrow> nat \<Rightarrow> cstring" where
  "disabled_name d i = cstr (drop (i * COMMAND_NAME_LEN) (disable_comands d))"

definition is_command_valid :: "disabled \<Rightarrow> cstring \<Rightarrow> bool" where
  "is_command_valid d name =
     list_all (\<lambda>i. \<not> (length (disabled_name d i) = length name
                      \<and> strncaseeq (disabled_name d i) name (length name)))
       [0..<disable_command_count d]"

section \<open>Finding a command\<close>

definition DELIMITER_NAME :: cstring where "DELIMITER_NAME = ''delimiter''"

abbreviation DELIMITER_NAME_LEN :: nat where "DELIMITER_NAME_LEN \<equiv> 9"

definition is_delimiter_command :: "cstring \<Rightarrow> nat \<Rightarrow> bool" where
  "is_delimiter_command name len \<longleftrightarrow> DELIMITER_NAME_LEN \<le> len
     \<and> my_strnncoll_simple my_charset_latin1 (take DELIMITER_NAME_LEN name) DELIMITER_NAME = 0"

text \<open>The loops over the table run over the commands that have a function.\<close>

fun find_index :: "(COMMANDS \<Rightarrow> bool) \<Rightarrow> COMMANDS list \<Rightarrow> nat \<Rightarrow> nat option" where
  "find_index P [] i = None"
| "find_index P (c # cs) i =
     (if c_func c = None then None else if P c then Some i else find_index P cs (i + 1))"

definition get_command_index :: "char \<Rightarrow> nat option" where
  "get_command_index c = find_index (\<lambda>d. cmd_char d = c) commands 0"

definition charset_index :: "nat option" where "charset_index = get_command_index CHR ''C''"

definition delimiter_index :: "nat option" where "delimiter_index = get_command_index CHR ''d''"

type_synonym found = "(nat \<times> cstring option) option"

definition if_valid :: "disabled \<Rightarrow> nat option \<Rightarrow> cstring option \<Rightarrow> found" where
  "if_valid d index cmdstr =
     (case index of
        None \<Rightarrow> None
      | Some i \<Rightarrow> if is_command_valid d (c_name (commands ! i)) then Some (i, cmdstr) else None)"

definition find_command_char :: "bool \<Rightarrow> disabled \<Rightarrow> char \<Rightarrow> found" where
  "find_command_char real_binary_mode d c =
     if_valid d (if real_binary_mode then (if c = CHR ''C'' then charset_index else None)
                 else get_command_index c) None"

text \<open>The first word of the line has length \<open>len\<close>; \<open>args\<close> tells if something follows it.\<close>

definition command_matches :: "charset_info \<Rightarrow> cstring \<Rightarrow> nat \<Rightarrow> bool \<Rightarrow> COMMANDS \<Rightarrow> bool" where
  "command_matches cs name len args c \<longleftrightarrow>
     my_strnncoll_simple my_charset_latin1 (take len name) (take len (c_name c)) = 0
     \<and> ch_at (c_name c) len = NUL
     \<and> (\<not> args \<or> takes_params c \<and> fst (get_arg cs name 0 CHECK) \<noteq> None)"

definition find_command_name ::
  "charset_info \<Rightarrow> bool \<Rightarrow> disabled \<Rightarrow> cstring \<Rightarrow> cstring \<Rightarrow> found" where
  "find_command_name cs real_binary_mode d delimiter name =
     (case get_trim_comment_sql name (int (length name)) of
        None \<Rightarrow> None
      | Some str \<Rightarrow>
          let name = dropWhile (my_isspace cs) str in
          if \<not> real_binary_mode \<and> strstr name [BSL, CHR ''g''] \<noteq> None
             \<or> strstr name delimiter \<noteq> None \<and> \<not> is_delimiter_command name DELIMITER_NAME_LEN
          then None
          else
            let (len, args) =
                  (case strcont name [SPACE, TAB] of
                     Some end \<Rightarrow> (length name - length end, dropWhile (my_isspace cs) end \<noteq> [])
                   | None \<Rightarrow> (length name, False))
            in if_valid d
                 (if real_binary_mode
                  then (if is_delimiter_command name len then delimiter_index else None)
                  else find_index (command_matches cs name len args) commands 0)
                 (Some str))"

section \<open>The words to complete\<close>

text \<open>The first part of \<open>build_completion_hash\<close>: the commands and the keywords.\<close>

definition build_commands_hash :: "(nat \<Rightarrow> bool \<times> bool) \<Rightarrow> hashtable \<Rightarrow> hashtable" where
  "build_commands_hash alloc ht = fold (\<lambda>c ht. add_word alloc ht (c_name c)) commands ht"

text \<open>\<open>mytoupper\<close> in place.\<close>

definition mytoupper :: "cstring \<Rightarrow> cstring" where
  "mytoupper s = map (\<lambda>c. if CHR ''a'' \<le> c \<and> c \<le> CHR ''z'' then char_of (of_char c - 32 :: nat) else c) s"

section \<open>Names in either case\<close>

definition name_weights :: "cstring \<Rightarrow> nat list" where
  "name_weights s = map (sort_weight my_charset_latin1) s"

lemma client_weights:
  "map (name_weights \<circ> c_name) client_commands = [
    [63], [67, 76, 69, 65, 82], [67, 79, 78, 78, 69, 67, 84], [67, 79, 78, 78],
    [68, 69, 76, 73, 77, 73, 84, 69, 82], [69, 68, 73, 84], [69, 71, 79], [69, 88, 73, 84],
    [71, 79], [72, 69, 76, 80], [78, 79, 80, 65, 71, 69, 82], [78, 79, 84, 69, 69],
    [80, 65, 71, 69, 82], [80, 82, 73, 78, 84], [80, 82, 79, 77, 80, 84], [81, 85, 73, 84],
    [82, 69, 72, 65, 83, 72], [83, 79, 85, 82, 67, 69], [83, 84, 65, 84, 85, 83],
    [83, 89, 83, 84, 69, 77], [84, 69, 69], [85, 83, 69], [67, 72, 65, 82, 83, 69, 84],
    [87, 65, 82, 78, 73, 78, 71, 83], [78, 79, 87, 65, 82, 78, 73, 78, 71]]"
  by code_simp

lemma client_weights_distinct: "distinct (map (name_weights \<circ> c_name) client_commands)"
  unfolding client_weights by simp

lemma client_funcs: "c \<in> set client_commands \<Longrightarrow> c_func c \<noteq> None"
  by (auto simp: client_commands_def)

lemma find_index_nth:
  "i < length xs \<Longrightarrow> \<forall>c \<in> set (take (Suc i) xs). c_func c \<noteq> None \<Longrightarrow> P (xs ! i) \<Longrightarrow>
   \<forall>j < i. \<not> P (xs ! j) \<Longrightarrow> find_index P (xs @ ys) k = Some (k + i)"
proof (induction xs arbitrary: i k)
  case (Cons x xs)
  show ?case
  proof (cases i)
    case 0
    with Cons.prems show ?thesis by simp
  next
    case (Suc j)
    have "\<not> P x" using Cons.prems(4) Suc by auto
    moreover have "find_index P (xs @ ys) (k + 1) = Some (k + 1 + j)"
      using Cons.prems Suc by (intro Cons.IH) auto
    ultimately show ?thesis using Cons.prems(2) Suc by simp
  qed
qed simp

lemma find_index_Some:
  "find_index P xs k = Some i \<Longrightarrow> k \<le> i \<and> i - k < length xs \<and> P (xs ! (i - k)) \<and> c_func (xs ! (i - k)) \<noteq> None"
proof (induction P xs k rule: find_index.induct)
  case (2 P c cs k)
  show ?case
  proof (cases "c_func c \<noteq> None \<and> \<not> P c")
    case True
    then have "find_index P cs (k + 1) = Some i" using "2.prems" by (auto split: if_splits)
    then have "Suc k \<le> i" "i - Suc k < length cs" "P (cs ! (i - Suc k))" "c_func (cs ! (i - Suc k)) \<noteq> None"
      using 2 True by auto
    moreover from this(1) have "i - k = Suc (i - Suc k)" by simp
    ultimately show ?thesis by simp
  next
    case False
    with 2 show ?thesis by (auto split: if_splits)
  qed
qed simp

lemma command_matches_iff:
  assumes "is_cstr (c_name c)"
  shows "command_matches cs name (length name) False c \<longleftrightarrow> name_weights name = name_weights (c_name c)"
proof -
  have "map (sort_weight my_charset_latin1) name = map (sort_weight my_charset_latin1) (take (length name) (c_name c))
      \<and> ch_at (c_name c) (length name) = NUL
    \<longleftrightarrow> map (sort_weight my_charset_latin1) name = map (sort_weight my_charset_latin1) (c_name c)"
    (is "?l \<longleftrightarrow> ?r")
  proof
    assume l: ?l
    have "length name \<le> length (c_name c)" using l by (metis length_map length_take min.cobounded2 min.commute)
    moreover have "\<not> length name < length (c_name c)"
      using l assms by (metis ch_at_def is_cstr_def nth_mem)
    ultimately show ?r using l by simp
  next
    assume r: ?r
    then have "length name = length (c_name c)" by (metis length_map)
    with r show ?l by (simp add: ch_at_def)
  qed
  then show ?thesis
    by (simp add: command_matches_def name_weights_def my_strnncoll_simple_eq_0)
qed

text \<open>A word that neither begins a comment nor contains a blank or a backslash.\<close>

definition plain_word :: "charset_info \<Rightarrow> cstring \<Rightarrow> bool" where
  "plain_word cs w \<longleftrightarrow> w \<noteq> [] \<and>
     (\<forall>c \<in> set w. c \<notin> {NUL, SPACE, TAB, NL, CR, BSL, CHR ''/'', CHR ''-''} \<and> \<not> my_isspace cs c)"

lemma plain_word_facts:
  assumes "plain_word cs w"
  shows "get_trim_comment_sql w (int (length w)) = Some w" and "dropWhile (my_isspace cs) w = w"
    and "strcont w [SPACE, TAB] = None" and "strstr w [BSL, CHR ''g''] = None"
proof -
  obtain c v where w: "w = c # v" using assms by (cases w) (auto simp: plain_word_def)
  have "starts w" using assms w by (auto simp: plain_word_def starts_def is_blank_def)
  moreover have i: "is_cstr w" using assms by (auto simp: plain_word_def is_cstr_def)
  ultimately have "trim_loop w (int (length w)) = w" by (intro trim_loop_starts)
  then show "get_trim_comment_sql w (int (length w)) = Some w"
    using i w by (simp add: get_trim_comment_sql_def)
  show "dropWhile (my_isspace cs) w = w" using assms w by (auto simp: plain_word_def)
  show "strcont w [SPACE, TAB] = None"
    using assms by (auto simp: plain_word_def strcont_None)
  have "\<not> sublist [BSL, CHR ''g''] w"
  proof
    assume "sublist [BSL, CHR ''g''] w"
    then have "BSL \<in> set w" by (auto simp: sublist_def)
    with assms show False by (auto simp: plain_word_def)
  qed
  then show "strstr w [BSL, CHR ''g''] = None" by (simp add: strstr_None)
qed

section \<open>The list of disabled commands\<close>

definition row :: "cstring \<Rightarrow> string" where
  "row n = n @ replicate (COMMAND_NAME_LEN - length n) NUL"

definition rows :: "cstring list \<Rightarrow> disabled \<Rightarrow> bool" where
  "rows ns d \<longleftrightarrow> disable_command_count d = length ns \<and>
     disable_comands d = concat (map row ns) @ replicate ((COMMAND_MAX - length ns) * COMMAND_NAME_LEN) NUL"

definition name_ok :: "cstring \<Rightarrow> bool" where
  "name_ok n \<longleftrightarrow> n \<noteq> [] \<and> length n < COMMAND_NAME_LEN \<and> NUL \<notin> set n \<and> CHR '','' \<notin> set n \<and> CHR '';'' \<notin> set n"

fun join_comma :: "cstring list \<Rightarrow> cstring" where
  "join_comma [] = []"
| "join_comma [n] = n"
| "join_comma (n # ns) = n @ CHR '','' # join_comma ns"

lemma length_rows: "\<forall>n \<in> set ns. name_ok n \<Longrightarrow> length (concat (map row ns)) = length ns * COMMAND_NAME_LEN"
  by (induction ns) (auto simp: row_def name_ok_def)

text \<open>The bytes of one name go into its row.\<close>

lemma disable_loop_name:
  "CHR '','' \<notin> set n \<Longrightarrow> CHR '';'' \<notin> set n \<Longrightarrow> j + length n \<le> COMMAND_NAME_LEN \<Longrightarrow>
   disable_comands d = pre @ replicate r NUL \<Longrightarrow> length pre = disable_command_count d * COMMAND_NAME_LEN + j \<Longrightarrow>
   length n \<le> r \<Longrightarrow>
   disable_loop (n @ p) j d
     = disable_loop p (j + length n) (d\<lparr>disable_comands := pre @ n @ replicate (r - length n) NUL\<rparr>)"
proof (induction n arbitrary: j d pre r)
  case Nil
  then show ?case by (cases d) simp
next
  case (Cons c n)
  obtain r' where r: "r = Suc r'" using Cons.prems(6) by (cases r) auto
  have c: "c \<noteq> CHR '',''" "c \<noteq> CHR '';''" using Cons.prems(1,2) by auto
  have "disable_loop ((c # n) @ p) j d
      = disable_loop (n @ p) (j + 1) (d\<lparr>disable_comands := (pre @ [c]) @ replicate r' NUL\<rparr>)"
    using Cons.prems(3-6) r c by (simp add: list_update_append)
  also have "\<dots> = disable_loop p (j + 1 + length n)
      (d\<lparr>disable_comands := (pre @ [c]) @ replicate r' NUL,
         disable_comands := (pre @ [c]) @ n @ replicate (r' - length n) NUL\<rparr>)"
    using Cons.prems r by (intro Cons.IH) simp_all
  finally show ?case using r by simp
qed

lemma rows_snoc:
  assumes "rows ns d" and "name_ok n" and "length ns < COMMAND_MAX"
    and "\<forall>m \<in> set ns. name_ok m"
  shows "\<exists>d'. rows (ns @ [n]) d' \<and> disable_loop (n @ CHR '','' # p) 0 d = disable_loop p 0 d'
    \<and> disable_loop n 0 d = Some d'"
proof -
  let ?R = "(COMMAND_MAX - length ns) * COMMAND_NAME_LEN"
  let ?d = "d\<lparr>disable_comands := concat (map row ns) @ n @ replicate (?R - length n) NUL\<rparr>"
  obtain k where k: "COMMAND_MAX - length ns = Suc k" using assms(3) by (cases "COMMAND_MAX - length ns") auto
  have R: "length n \<le> ?R" using assms(2) by (simp add: k name_ok_def)
  have len: "length (concat (map row ns)) = disable_command_count d * COMMAND_NAME_LEN + 0"
    unfolding length_rows [OF assms(4)] using assms(1) by (simp add: rows_def)
  have arr: "disable_comands d = concat (map row ns) @ replicate ?R NUL"
    using assms(1) unfolding rows_def by (rule conjunct2)
  have "disable_loop (n @ p) 0 d = disable_loop p (0 + length n) ?d" for p
    by (rule disable_loop_name [OF _ _ _ arr len R]) (use assms(2) in \<open>simp_all add: name_ok_def\<close>)
  then have step: "disable_loop (n @ p) 0 d = disable_loop p (length n) ?d" for p
    by (simp only: add_0)
  have "?R - length n = (COMMAND_NAME_LEN - length n) + k * COMMAND_NAME_LEN"
    using assms(2) by (simp add: k name_ok_def)
  then have "n @ replicate (?R - length n) NUL = row n @ replicate (k * COMMAND_NAME_LEN) NUL"
    by (simp add: row_def replicate_add)
  moreover have "COMMAND_MAX - length (ns @ [n]) = k" using k by simp
  ultimately have rows: "rows (ns @ [n]) (?d\<lparr>disable_command_count := disable_command_count ?d + 1\<rparr>)"
    using assms(1) unfolding rows_def by (simp del: replicate.simps length_concat)
  have "length n > 0" using assms(2) by (simp add: name_ok_def)
  then show ?thesis
    using rows step [of "CHR '','' # p"] step [of "[]"]
    by (intro exI [of _ "?d\<lparr>disable_command_count := disable_command_count ?d + 1\<rparr>"]) simp
qed

lemma disable_loop_rows:
  "rows ms d \<Longrightarrow> \<forall>n \<in> set (ms @ ns). name_ok n \<Longrightarrow> length (ms @ ns) \<le> COMMAND_MAX \<Longrightarrow>
   \<exists>d'. disable_loop (join_comma ns) 0 d = Some d' \<and> rows (ms @ ns) d'"
proof (induction ns arbitrary: ms d rule: join_comma.induct)
  case 1
  then show ?case by simp
next
  case (2 n)
  then show ?case using rows_snoc [of ms d n "[]"] by auto
next
  case (3 n m ns)
  obtain d' where d': "rows (ms @ [n]) d'"
      "disable_loop (n @ CHR '','' # join_comma (m # ns)) 0 d = disable_loop (join_comma (m # ns)) 0 d'"
    using rows_snoc [of ms d n "join_comma (m # ns)"] 3 by auto
  with "3.IH" [of "ms @ [n]" d'] "3.prems" show ?case by simp
qed

lemma disabled_name_rows:
  assumes "rows ns d" and "\<forall>n \<in> set ns. name_ok n" and "i < length ns"
  shows "disabled_name d i = ns ! i"
proof -
  have "ns = take i ns @ ns ! i # drop (Suc i) ns" by (rule id_take_nth_drop [OF assms(3)])
  then have "concat (map row ns) = concat (map row (take i ns)) @ row (ns ! i) @ concat (map row (drop (Suc i) ns))"
    by (metis concat.simps(2) concat_append list.simps(9) map_append)
  moreover have "length (concat (map row (take i ns))) = i * COMMAND_NAME_LEN"
    using length_rows [of "take i ns"] assms(2,3) by (auto dest: in_set_takeD)
  ultimately have drop: "drop (i * COMMAND_NAME_LEN) (concat (map row ns)) =
      row (ns ! i) @ concat (map row (drop (Suc i) ns))"
    by simp
  have n: "name_ok (ns ! i)" using assms(2,3) by simp
  then obtain k where "COMMAND_NAME_LEN - length (ns ! i) = Suc k"
    by (cases "COMMAND_NAME_LEN - length (ns ! i)") (auto simp: name_ok_def)
  moreover have "i * COMMAND_NAME_LEN \<le> length (concat (map row ns))"
    using length_rows [OF assms(2)] assms(3) by simp
  moreover have "is_cstr (ns ! i)" using n by (simp add: name_ok_def is_cstr_def)
  ultimately show ?thesis
    using assms(1) drop by (simp add: disabled_name_def rows_def row_def cstr_append_NUL)
qed

section \<open>Properties\<close>

lemma delimiter_index_eq: "delimiter_index = Some 4" and charset_index_eq: "charset_index = Some 22"
  by (simp_all add: delimiter_index_def charset_index_def get_command_index_def commands_def client_commands_def)

lemma commands_nth: "i < length client_commands \<Longrightarrow> commands ! i = client_commands ! i"
  by (simp add: commands_def nth_append)

lemma client_names: "c \<in> set client_commands \<Longrightarrow> is_cstr (c_name c)"
  by (auto simp: client_commands_def is_cstr_def)

text \<open>
  C23: a client command written alone on its line, in upper or lower case, is found at its
  own place in the table, unless the statement delimiter occurs in it.
\<close>

theorem find_command_by_name:
  assumes "i < length client_commands" and "plain_word cs name"
    and "name_weights name = name_weights (c_name (client_commands ! i))"
    and "strstr name delimiter = None"
  shows "find_command_name cs False d delimiter name = if_valid d (Some i) (Some name)"
proof -
  let ?P = "command_matches cs name (length name) False"
  have iff: "?P c \<longleftrightarrow> name_weights name = name_weights (c_name c)" if "c \<in> set client_commands" for c
    using client_names [OF that] by (rule command_matches_iff)
  have "\<not> ?P (client_commands ! j)" if "j < i" for j
  proof -
    have "name_weights (c_name (client_commands ! j)) \<noteq> name_weights (c_name (client_commands ! i))"
      using nth_eq_iff_index_eq [OF client_weights_distinct, of j i] assms(1) that by simp
    then show ?thesis using iff [of "client_commands ! j"] assms(1,3) that by simp
  qed
  moreover have "?P (client_commands ! i)" using iff assms(1,3) by simp
  ultimately have "find_index ?P commands 0 = Some (0 + i)"
    unfolding commands_def using assms(1) client_funcs
    by (intro find_index_nth) (auto dest: in_set_takeD)
  then show ?thesis
    using plain_word_facts [OF assms(2)] assms(4) by (simp add: find_command_name_def)
qed

theorem find_command_by_name_witness:
  "find_command_name my_charset_latin1 False no_disabled '';'' ''USE'' = Some (21, Some ''USE'')"
proof -
  have "name_weights ''USE'' = [85, 83, 69]" by code_simp
  moreover have "map (name_weights \<circ> c_name) client_commands ! 21 = [85, 83, 69]"
    unfolding client_weights by simp
  ultimately have w: "name_weights ''USE'' = name_weights (c_name (client_commands ! 21))"
    by (simp add: client_commands_def)
  have l: "21 < length client_commands" by (simp add: client_commands_def)
  have p: "plain_word my_charset_latin1 ''USE''"
    by (simp add: plain_word_def my_isspace_latin1 latin1_spaces_def)
  show ?thesis
    using find_command_by_name [OF l p w, of "'';''" no_disabled]
    by (simp add: if_valid_def is_command_valid_def no_disabled_def)
qed

text \<open>
  C24: in binary mode a letter after a backslash finds only the \<open>charset\<close> command, and a
  name at the beginning of a line only the \<open>delimiter\<close> command.
\<close>

theorem find_command_binary:
  shows "(find_command_char True d c = Some (i, str) \<longrightarrow> c_func (commands ! i) = Some Com_charset)
    \<and> (find_command_name cs True d delimiter name = Some (i, str) \<longrightarrow>
         c_func (commands ! i) = Some Com_delimiter)"
proof -
  have "c_func (commands ! 4) = Some Com_delimiter" and "c_func (commands ! 22) = Some Com_charset"
    by (simp_all add: commands_def client_commands_def)
  then show ?thesis
    by (auto simp: find_command_char_def find_command_name_def if_valid_def delimiter_index_eq
        charset_index_eq Let_def split: option.splits if_splits prod.splits)
qed

theorem find_command_binary_witness:
  "\<exists>i str. find_command_char True no_disabled CHR ''C'' = Some (i, str)
     \<and> c_func (commands ! i) = Some Com_charset"
proof -
  have "find_command_char True no_disabled CHR ''C'' = Some (22, None)"
    by (simp add: find_command_char_def charset_index_eq if_valid_def is_command_valid_def no_disabled_def)
  then show ?thesis using find_command_binary [of no_disabled "CHR ''C''" 22 None] by blast
qed

text \<open>
  C25: with a list of at most fifty names of fewer than 32 bytes, exactly the commands on the
  list, in either case, are invalid, and neither way of finding a command returns one.
\<close>

theorem disabled_commands_not_found:
  assumes "\<forall>n \<in> set ns. name_ok n" and "length ns \<le> COMMAND_MAX"
  shows "\<exists>d. init_disable_commands (Some (join_comma ns)) no_disabled = Some d
    \<and> (\<forall>n. is_command_valid d n \<longleftrightarrow> map to_lower_ascii n \<notin> map to_lower_ascii ` set ns)
    \<and> (\<forall>cs binary delimiter name i str. find_command_name cs binary d delimiter name = Some (i, str) \<longrightarrow>
         map to_lower_ascii (c_name (commands ! i)) \<notin> map to_lower_ascii ` set ns)
    \<and> (\<forall>binary c i str. find_command_char binary d c = Some (i, str) \<longrightarrow>
         map to_lower_ascii (c_name (commands ! i)) \<notin> map to_lower_ascii ` set ns)"
proof -
  have "rows [] no_disabled" by (simp add: rows_def no_disabled_def)
  then obtain d where d: "disable_loop (join_comma ns) 0 no_disabled = Some d" "rows ns d"
    using disable_loop_rows [of "[]" no_disabled ns] assms by auto
  have valid: "is_command_valid d n \<longleftrightarrow> map to_lower_ascii n \<notin> map to_lower_ascii ` set ns" for n
  proof -
    have "is_command_valid d n \<longleftrightarrow> (\<forall>i < length ns. \<not> (length (ns ! i) = length n
        \<and> strncaseeq (ns ! i) n (length n)))"
      using d(2) disabled_name_rows [OF d(2) assms(1)]
      by (auto simp: is_command_valid_def list_all_iff rows_def)
    also have "\<dots> \<longleftrightarrow> (\<forall>m \<in> set ns. map to_lower_ascii m \<noteq> map to_lower_ascii n)"
      by (metis in_set_conv_nth length_map strncaseeq_all)
    finally show ?thesis by (metis imageE image_eqI)
  qed
  have "find_command_name cs binary d delimiter name = Some (i, str) \<Longrightarrow>
      is_command_valid d (c_name (commands ! i))" for cs binary delimiter name i str
    by (auto simp: find_command_name_def if_valid_def Let_def split: option.splits if_splits prod.splits)
  moreover have "find_command_char binary d c = Some (i, str) \<Longrightarrow>
      is_command_valid d (c_name (commands ! i))" for binary c i str
    by (auto simp: find_command_char_def if_valid_def split: option.splits if_splits)
  moreover have "init_disable_commands (Some (join_comma ns)) no_disabled = Some d"
    using d(1) by (simp add: init_disable_commands_def no_disabled_def)
  ultimately show ?thesis using valid by blast
qed

theorem disabled_commands_not_found_witness:
  "\<exists>d. init_disable_commands (Some ''system,EDIT'') no_disabled = Some d
    \<and> \<not> is_command_valid d ''edit'' \<and> is_command_valid d ''use''"
proof -
  have ok: "\<forall>n \<in> set [''system'', ''EDIT'']. name_ok n" by (simp add: name_ok_def)
  have two: "length [''system'', ''EDIT''] \<le> COMMAND_MAX" by simp
  have low: "map to_lower_ascii ''edit'' = map to_lower_ascii ''EDIT''"
    "map to_lower_ascii ''use'' \<noteq> map to_lower_ascii ''EDIT''"
    "map to_lower_ascii ''use'' \<noteq> map to_lower_ascii ''system''" by code_simp+
  obtain d where d: "init_disable_commands (Some (join_comma [''system'', ''EDIT''])) no_disabled = Some d"
    "\<forall>n. is_command_valid d n \<longleftrightarrow> map to_lower_ascii n \<notin> map to_lower_ascii ` set [''system'', ''EDIT'']"
    using disabled_commands_not_found [OF ok two] by (elim exE conjE) (rule that)
  have "\<not> is_command_valid d ''edit''"
    using low(1) by (simp only: d(2) [rule_format] list.set image_insert insertI1 insertI2 not_not)
  moreover have "is_command_valid d ''use''"
    using low(2,3) by (simp only: d(2) [rule_format] list.set image_insert insert_iff image_empty empty_iff) simp
  moreover have "join_comma [''system'', ''EDIT''] = ''system,EDIT''" by simp
  ultimately show ?thesis using d(1) by metis
qed

text \<open>
  C26: the table has no room check for the number of names: with fifty names listed, one more
  is written behind the end of the array.
\<close>

theorem disable_commands_overflow:
  assumes "\<forall>n \<in> set ns. name_ok n" and "length ns = COMMAND_MAX" and "name_ok m"
  shows "init_disable_commands (Some (join_comma (ns @ [m]))) no_disabled = None"
proof -
  have join: "join_comma (xs @ [x]) = (if xs = [] then x else join_comma xs @ CHR '','' # x)" for xs x
    by (induction xs rule: join_comma.induct) auto
  have split: "disable_loop (p @ CHR '','' # q) j d = disable_loop q 0 d'" if "disable_loop p j d = Some d'" for p q j d d'
    using that by (induction p j d rule: disable_loop.induct) (auto simp: Let_def split: if_splits)
  have "rows [] no_disabled" by (simp add: rows_def no_disabled_def)
  then obtain d where d: "disable_loop (join_comma ns) 0 no_disabled = Some d" "rows ns d"
    using disable_loop_rows [of "[]" no_disabled ns] assms by auto
  have len: "length (disable_comands d) = COMMAND_MAX * COMMAND_NAME_LEN"
    using d(2) length_rows [OF assms(1)] assms(2) by (simp add: rows_def del: length_concat)
  have none: "disable_loop m 0 d = None"
  proof (cases m)
    case Nil
    then show ?thesis using assms(3) by (simp add: name_ok_def)
  next
    case (Cons c cs)
    then have "c \<noteq> CHR '',''" and "c \<noteq> CHR '';''" using assms(3) by (auto simp: name_ok_def)
    then show ?thesis using Cons len d(2) assms(2) by (simp add: rows_def Let_def)
  qed
  have "disable_loop (join_comma (ns @ [m])) 0 no_disabled = None"
  proof -
    have "ns \<noteq> []" using assms(2) by auto
    then show ?thesis using split [OF d(1), of m] none by (simp only: join) simp
  qed
  then show ?thesis by (simp add: init_disable_commands_def no_disabled_def)
qed

theorem disable_commands_overflow_witness:
  "init_disable_commands (Some (join_comma (replicate 50 ''x'' @ [''y'']))) no_disabled = None"
  using disable_commands_overflow [of "replicate 50 ''x''" "''y''"] by (simp add: name_ok_def)



end
