(* ===== verification/NumFormat.thy ===== *)
theory NumFormat
  imports Prelude
begin

text \<open>
  Fitting numbers into a column of fixed width in Oracle mode (\<^verbatim>\<open>auto_incr\<close>,
  \<^verbatim>\<open>parse_normal_number_object_from_str\<close>,
  \<^verbatim>\<open>parse_binary_number_object_from_str\<close>, \<^verbatim>\<open>format_fix_width_num\<close> and
  \<^verbatim>\<open>format_fix_width_num_binary\<close> of \<^verbatim>\<open>client/mysql.cc\<close>). The arrays
  \<open>num_info\<close> and \<open>obclient_num_array\<close> are lists of \<open>OB_MAX_NUM_LENGTH + 2\<close> bytes. Parsing
  more digits than \<open>num_info\<close> has room for is the value \<open>None\<close>.
\<close>

section \<open>Data\<close>

abbreviation OB_NUM_ARRAY :: nat where "OB_NUM_ARRAY \<equiv> 130"

record str_normal_number =
  num_info :: string
  start_pos :: nat
  dot_pos :: int
  num_mark :: nat

record str_normal_number_binary =
  bin_info :: string
  exp_info :: int
  bin_start_pos :: nat
  bin_mark :: nat
  is_zero :: bool

text \<open>\<open>memset\<close> of the first bytes, \<open>memcpy\<close> to an offset, and the length of the string there.\<close>

definition memset :: "string \<Rightarrow> char \<Rightarrow> nat \<Rightarrow> string" where
  "memset dst c n = replicate n c @ drop n dst"

definition memcpy :: "string \<Rightarrow> nat \<Rightarrow> string \<Rightarrow> string" where
  "memcpy dst off src = take off dst @ src @ drop (off + length src) dst"

definition str_at :: "string \<Rightarrow> nat \<Rightarrow> cstring" where
  "str_at a i = cstr (drop i a)"

section \<open>Adding one\<close>

text \<open>The digits of \<open>str\<close> from index \<open>pos\<close> down; the overflow flag tells of a carry out.\<close>

fun auto_incr_loop :: "string \<Rightarrow> nat \<Rightarrow> bool \<Rightarrow> bool \<times> string" where
  "auto_incr_loop str i overflow =
     (let c = ch_at str i in
      if c = CHR ''.'' then (case i of 0 \<Rightarrow> (overflow, str) | Suc k \<Rightarrow> auto_incr_loop str k overflow)
      else if CHR ''0'' \<le> c \<and> c < CHR ''9'' then (False, str[i := char_of (of_char c + 1 :: nat)])
      else if c = CHR ''9'' then
        (case i of 0 \<Rightarrow> (True, str[i := CHR ''0'']) | Suc k \<Rightarrow> auto_incr_loop (str[i := CHR ''0'']) k True)
      else (overflow, str))"

declare auto_incr_loop.simps [simp del]

definition auto_incr :: "string \<Rightarrow> nat \<Rightarrow> bool \<times> string" where
  "auto_incr str pos = auto_incr_loop str pos False"

text \<open>\<open>auto_incr(a + start, pos)\<close>, and the leading one that a carry out puts before the digits.\<close>

definition incr_at :: "string \<Rightarrow> nat \<Rightarrow> nat \<Rightarrow> bool \<times> string" where
  "incr_at a start pos =
     (case auto_incr (drop start a) pos of (overflow, s) \<Rightarrow> (overflow, take start a @ s))"

section \<open>Parsing\<close>

fun skip_zeros :: "bool \<Rightarrow> string \<Rightarrow> bool \<times> string" where
  "skip_zeros positive [] = (positive, [])"
| "skip_zeros positive (c # s) =
     (if \<not> positive then (positive, c # s)
      else let positive = (c \<noteq> CHR ''.'')
           in if c \<noteq> CHR ''0'' then (positive, c # s) else skip_zeros positive s)"

text \<open>The digits go to \<open>num_info\<close> from \<open>j\<close> on; the flag is whether \<open>my_ret\<close> is still 0.\<close>

fun digits_loop :: "bool \<Rightarrow> string \<Rightarrow> nat \<Rightarrow> str_normal_number \<Rightarrow> (bool \<times> nat \<times> str_normal_number) option" where
  "digits_loop positive [] j n = Some (True, j, n)"
| "digits_loop positive (c # s) j n =
     (if is_digit c then
        (if j < OB_NUM_ARRAY
         then digits_loop positive s (j + 1)
                (n\<lparr>num_info := (num_info n)[j := c], dot_pos := (if positive then int j else dot_pos n)\<rparr>)
         else None)
      else if c = CHR ''.'' then digits_loop False s j n
      else Some (False, j, n))"

text \<open>The comparison is of unsigned values, so a negative \<open>dot_pos - 1\<close> is a large one.\<close>

fun trim_zeros :: "nat \<Rightarrow> str_normal_number \<Rightarrow> str_normal_number" where
  "trim_zeros 0 n = n"
| "trim_zeros (Suc i) n =
     (if dot_pos n - 1 < 0 \<or> int (Suc i) < dot_pos n - 1 \<or> ch_at (num_info n) (Suc i) \<noteq> CHR ''0'' then n
      else trim_zeros i (n\<lparr>num_info := (num_info n)[Suc i := NUL]\<rparr>))"

definition zero_number :: str_normal_number where
  "zero_number = \<lparr>num_info = replicate OB_NUM_ARRAY NUL, start_pos = 0, dot_pos = -1, num_mark = 0\<rparr>"

definition parse_normal_number :: "string \<Rightarrow> (bool \<times> str_normal_number) option" where
  "parse_normal_number str =
     (case str of
        [] \<Rightarrow> Some (True, zero_number)
      | c # s \<Rightarrow>
          let ok = (c = CHR ''+'' \<or> c = CHR ''-'' \<or> c = CHR ''.'' \<or> is_digit c);
              n = zero_number\<lparr>num_mark := (if c = CHR ''+'' then 1 else if c = CHR ''-'' then 2 else 0)\<rparr>;
              rest = (if c = CHR ''+'' \<or> c = CHR ''-'' then s else str);
              (positive, rest) = (if ok then skip_zeros (c \<noteq> CHR ''.'') rest else (True, rest))
          in map_option (\<lambda>(ret, j, n). (ret, trim_zeros j (n\<lparr>start_pos := 1\<rparr>)))
               (if ok then digits_loop positive rest 1 n else Some (False, 1, n)))"

text \<open>
  The mantissa and the exponent of a binary float; there is no case for a leading \<open>4\<close>, and
  the last digit of the exponent is read from the place of the one before it.
\<close>

fun bin_loop :: "string \<Rightarrow> nat \<Rightarrow> str_normal_number_binary \<Rightarrow> (bool \<times> nat \<times> str_normal_number_binary) option" where
  "bin_loop [] j n = Some (True, j, n)"
| "bin_loop (c # s) j n =
     (if is_digit c then
        (if j < OB_NUM_ARRAY then bin_loop s (j + 1) (n\<lparr>bin_info := (bin_info n)[j := c]\<rparr>) else None)
      else if c = CHR ''.'' then bin_loop s j n
      else if c = CHR ''E'' then
        (if length s < 4 \<or> (s ! 0 \<noteq> CHR ''+'' \<and> s ! 0 \<noteq> CHR ''-'')
            \<or> \<not> is_digit (s ! 1) \<or> \<not> is_digit (s ! 2) \<or> \<not> is_digit (s ! 3)
         then Some (False, j, n)
         else
           let e = int (100 * digit_val (s ! 1) + 10 * digit_val (s ! 2) + digit_val (s ! 2))
           in Some (True, j, n\<lparr>exp_info := (if s ! 0 = CHR ''-'' then - e else e)\<rparr>))
      else Some (False, j, n))"

fun bin_trim :: "nat \<Rightarrow> str_normal_number_binary \<Rightarrow> str_normal_number_binary" where
  "bin_trim 0 n = n"
| "bin_trim (Suc i) n =
     (if bin_start_pos n \<ge> Suc i \<or> ch_at (bin_info n) (Suc i) \<noteq> CHR ''0'' then n
      else bin_trim i (n\<lparr>bin_info := (bin_info n)[Suc i := NUL]\<rparr>))"

definition zero_binary :: str_normal_number_binary where
  "zero_binary = \<lparr>bin_info = replicate OB_NUM_ARRAY NUL, exp_info = 0, bin_start_pos = 0, bin_mark = 0,
     is_zero = False\<rparr>"

definition parse_binary_number :: "string \<Rightarrow> (bool \<times> str_normal_number_binary) option" where
  "parse_binary_number str =
     (case str of
        [] \<Rightarrow> Some (True, zero_binary)
      | c # s \<Rightarrow>
          if c = CHR ''0'' then Some (True, zero_binary\<lparr>is_zero := True\<rparr>)
          else
            let n = zero_binary\<lparr>bin_mark := (if c = CHR ''+'' then 1 else if c = CHR ''-'' then 2 else 0)\<rparr>;
                start =
                  (if c = CHR ''+'' \<or> c = CHR ''-'' then Some (s, 1, n)
                   else if c = CHR ''.'' then Some (str, 1, n)
                   else if is_digit c \<and> c \<noteq> CHR ''4'' then
                     (if length str < 8 \<or> ch_at str 1 \<noteq> CHR ''.'' then None
                      else Some (drop 2 str, 2, n\<lparr>bin_info := (bin_info n)[1 := c]\<rparr>))
                   else None)
            in map_option (\<lambda>(ret, j, n). (ret, bin_trim (j - 1) (n\<lparr>bin_start_pos := 1\<rparr>)))
                 (case start of None \<Rightarrow> Some (False, 1, n) | Some (rest, j, n) \<Rightarrow> bin_loop rest j n))"

section \<open>Formatting\<close>

text \<open>
  The characters put into \<open>obclient_num_array\<close> one after the other from an offset on are one
  \<open>memcpy\<close>. Zeros are put until the offset is \<open>lim\<close>.
\<close>

definition zeros_upto :: "nat \<Rightarrow> int \<Rightarrow> string" where
  "zeros_upto off lim = replicate (nat (lim - int off)) CHR ''0''"

definition exp_digits :: "nat \<Rightarrow> string" where
  "exp_digits e = [char_of (48 + e div 10), char_of (48 + e mod 10)]"

text \<open>Trailing zeros from index \<open>i\<close> down to the one above \<open>low\<close> are cut off.\<close>

fun cut_zeros :: "nat \<Rightarrow> nat \<Rightarrow> string \<Rightarrow> string" where
  "cut_zeros low 0 a = a"
| "cut_zeros low (Suc i) a =
     (if Suc i \<le> low \<or> ch_at a (Suc i) \<noteq> CHR ''0'' then a else cut_zeros low i (a[Suc i := NUL]))"

text \<open>
  A number with an integer part that needs rounding and whose integer part fits: \<open>out\<close> is
  the array with the sign, \<open>off\<close> the offset behind it.
\<close>

definition fix_round :: "nat \<Rightarrow> nat \<Rightarrow> string \<Rightarrow> nat \<Rightarrow> str_normal_number \<Rightarrow> string" where
  "fix_round width fwidth out off n =
     (let dot = nat (dot_pos n); st = start_pos n; a = num_info n;
          (a, st) =
            (if fwidth < dot - st + 1 + 2 then
               (let (a, st) =
                      (if ch_at a (dot + 1) > CHR ''4'' then
                         (case incr_at a st (dot - st) of
                            (True, a) \<Rightarrow> (a[0 := CHR ''1''], 0) | (False, a) \<Rightarrow> (a, st))
                       else (a, st))
                in (a[dot + 1 := NUL], st))
             else
               (let (a, st) =
                      (if ch_at a (fwidth - 1 + st) > CHR ''4'' then
                         (case incr_at a st (fwidth - 1) of
                            (True, a) \<Rightarrow> (a[0 := CHR ''1''], 0) | (False, a) \<Rightarrow> (a, st))
                       else (a, st))
                in (a[fwidth - 1 + st := NUL], st)));
          a = cut_zeros dot (fwidth - 1 + st - 1) a
      in if st = 0 \<and> fwidth < dot - st + 1 then
           (let exp_len = dot - st in
            if exp_len > 100 then memset out CHR ''#'' width
            else memcpy out off (''1.'' @ zeros_upto (off + 2) (int fwidth - 4) @ ''E+'' @ exp_digits exp_len))
         else if str_at a st = [] then memcpy out off ''0''
         else
           let ip = take (dot - st + 1) (drop st a); fp = str_at a (dot + 1)
           in memcpy out off (ip @ (if fp \<noteq> [] then CHR ''.'' # fp else [])))"

text \<open>A number whose integer part does not fit is written with an exponent.\<close>

definition fix_exp :: "nat \<Rightarrow> nat \<Rightarrow> string \<Rightarrow> nat \<Rightarrow> str_normal_number \<Rightarrow> string" where
  "fix_exp width fwidth out off n =
     (if fwidth < 7 then memset out CHR ''#'' width
      else
        let valid_pos = fwidth - 5; st = start_pos n; a = num_info n;
            (a, st) =
              (if ch_at a (valid_pos + 1) > CHR ''4'' then
                 (case incr_at a st (valid_pos + 1) of
                    (True, a) \<Rightarrow> (a[0 := CHR ''1''], 0) | (False, a) \<Rightarrow> (a, st))
               else (a, st));
            a = a[st + valid_pos := NUL];
            fr = str_at a (st + 1);
            mant = [ch_at a st, CHR ''.''] @ (if fr = [] then ''0'' else fr);
            exp_len = nat (dot_pos n) - st
        in if exp_len > 100 then memset (memcpy out off mant) CHR ''#'' width
           else memcpy out off (mant @ zeros_upto (off + length mant) (int fwidth - 4) @ ''E+'' @ exp_digits exp_len))"

text \<open>A number without integer part that is too long.\<close>

definition fix_small :: "nat \<Rightarrow> nat \<Rightarrow> string \<Rightarrow> nat \<Rightarrow> str_normal_number \<Rightarrow> string" where
  "fix_small width fwidth out off n =
     (let st = start_pos n; a = num_info n;
          len = length (str_at a st);
          zero_prefix_len = length (takeWhile (\<lambda>c. c = CHR ''0'') (take (len - st) (drop st a)))
      in if 4 < zero_prefix_len \<and> 7 \<le> fwidth then
           (let valid_pos = fwidth - 5 + zero_prefix_len;
                (overflow, a) = (if ch_at a (st + valid_pos) > CHR ''4'' then incr_at a st valid_pos else (False, a))
            in if overflow then memcpy out off ''1''
               else
                 let a = cut_zeros 0 (valid_pos - 1 + st) (a[st + valid_pos := NUL]);
                     zpl = (if ch_at a (zero_prefix_len - 1 + st) \<noteq> CHR ''0'' then zero_prefix_len - 1
                            else zero_prefix_len);
                     fr = str_at a (zpl + 1 + st);
                     mant = [ch_at a (zpl + st), CHR ''.'']
                 in if fr = [] then memcpy out off (mant @ ''0'')
                    else if zpl + 1 > 100 then memset (memcpy out off (mant @ fr)) CHR ''#'' width
                    else memcpy out off (mant @ fr @ ''E-'' @ exp_digits (zpl + 1)))
         else if int fwidth - 1 - int zero_prefix_len < 0 then (memset out NUL width)[0 := CHR ''0'']
         else
           (let (overflow, a) = (if ch_at a (st + fwidth - 1) > CHR ''4'' then incr_at a st (fwidth - 1) else (False, a))
            in if overflow then memcpy out off ''1''
               else
                 let a = cut_zeros (st - 1) (fwidth - 2 + st) (a[st + fwidth - 1 := NUL]) in
                 if str_at a st = [] then memcpy (memset out NUL width) off ''0''
                 else memcpy out off (CHR ''.'' # str_at a st)))"

definition num_width :: "nat \<Rightarrow> nat" where
  "num_width w = (if w < 2 \<or> 128 < w then 10 else w)"

text \<open>The width, the array and the global number object before and after.\<close>

definition format_fix_width_num ::
  "nat \<Rightarrow> string \<Rightarrow> string \<Rightarrow> (nat \<times> string \<times> str_normal_number) option" where
  "format_fix_width_num obclient_num_width obclient_num_array str =
     (let width = num_width obclient_num_width;
          out = memset obclient_num_array NUL (width + 1)
      in map_option (\<lambda>(ret, n).
           if \<not> ret then (width, memset out CHR ''#'' width, n)
           else
             let neg = num_mark n = 2;
                 fwidth = (if neg then width - 1 else width);
                 off = (if neg then 1 else 0);
                 out = (if neg then out[0 := CHR ''-''] else out);
                 s = str_at (num_info n) (start_pos n);
                 dot = nat (dot_pos n)
             in (width,
                 (if s = [] then out[0 := CHR ''0'']
                  else if 0 < dot_pos n then
                    (if length s < fwidth \<or> length s = fwidth \<and> length s = dot then
                       memcpy out off (take dot (drop (start_pos n) (num_info n))
                         @ (if dot < length s then CHR ''.'' # drop dot s else []))
                     else if dot - start_pos n + 1 \<le> fwidth then fix_round width fwidth out off n
                     else fix_exp width fwidth out off n)
                  else if length s \<le> fwidth - 1 then memcpy out off (CHR ''.'' # s)
                  else fix_small width fwidth out off n), n))
         (parse_normal_number str))"

text \<open>
  The sign of a binary float is looked up in \<open>str_num_object\<close>, the object of the last normal
  number, here the argument \<open>last_num\<close>.
\<close>

definition format_fix_width_num_binary ::
  "nat \<Rightarrow> string \<Rightarrow> str_normal_number \<Rightarrow> string \<Rightarrow> (nat \<times> string) option" where
  "format_fix_width_num_binary obclient_num_width obclient_num_array last_num str =
     (let width = num_width obclient_num_width;
          out = memset obclient_num_array NUL (width + 1)
      in map_option (\<lambda>(ret, n).
           if \<not> ret then (width, memset out CHR ''#'' width)
           else if is_zero n then (width, out[0 := CHR ''0''])
           else
             let neg = num_mark last_num = 2;
                 off = (if neg then 1 else 0);
                 out = (if neg then out[0 := CHR ''-''] else out);
                 valid_size = width - off - 6
             in if valid_size < 2 then (width, memset out CHR ''#'' width)
                else
                  let a = bin_info n; st = bin_start_pos n;
                      (a, st) =
                        (if valid_size < length (str_at a st) then
                           (let (a, st) =
                                  (if ch_at a (st + valid_size) > CHR ''4'' then
                                     (case incr_at a st (st + valid_size) of
                                        (True, a) \<Rightarrow> (a[0 := CHR ''1''], 0) | (False, a) \<Rightarrow> (a, st))
                                   else (a, st));
                                a = a[st + valid_size := NUL]
                            in (cut_zeros st (length (str_at a st) - 1) a, st))
                         else (a, st));
                      fr = str_at a (st + 1);
                      e = (if st = 0 then exp_info n + 1 else exp_info n);
                      m = nat \<bar>e\<bar>;
                      mant = [ch_at a st, CHR ''.''] @ (if fr \<noteq> [] then fr else ''0'') @ ''E''
                  in if e > 999 \<or> e < -999 then (width, memset (memcpy out off mant) CHR ''#'' width)
                     else (width, memcpy out off (mant @ [if e \<ge> 0 then CHR ''+'' else CHR ''-'',
                             char_of (48 + m div 100), char_of (48 + (m mod 100) div 10), char_of (48 + m mod 10)])))
         (parse_binary_number str))"

section \<open>Adding one to a decimal number\<close>

lemma digit_succ:
  assumes "CHR ''0'' \<le> c" and "c < CHR ''9''"
  shows "is_digit (char_of (of_char c + 1 :: nat))"
    and "digit_val (char_of (of_char c + 1 :: nat)) = digit_val c + 1"
proof -
  have "48 \<le> (of_char c :: nat)" "(of_char c :: nat) < 57"
    using assms by (simp_all add: less_eq_char_def less_char_def)
  moreover from this have "of_char (char_of (of_char c + 1 :: nat) :: char) = (of_char c + 1 :: nat)" by simp
  ultimately show "is_digit (char_of (of_char c + 1 :: nat))"
    and "digit_val (char_of (of_char c + 1 :: nat)) = digit_val c + 1"
    by (simp_all add: is_digit_iff digit_val_def)
qed

lemma digit_cases: "is_digit c \<Longrightarrow> c = CHR ''9'' \<or> CHR ''0'' \<le> c \<and> c < CHR ''9''"
  unfolding is_digit_def by (metis order_le_less)

lemma digits_value_snoc:
  "\<forall>c \<in> set s. is_digit c \<Longrightarrow> is_digit d \<Longrightarrow> digits_value 0 (s @ [d]) = 10 * digits_value 0 s + digit_val d"
  by (simp add: digits_value_append)

lemma ch_at_snoc [simp]: "ch_at (s @ c # t) (length s) = c"
  by (simp add: ch_at_def)

lemma auto_incr_value:
  "s \<noteq> [] \<Longrightarrow> \<forall>c \<in> set s. is_digit c \<Longrightarrow>
   \<exists>ov s'. auto_incr_loop (s @ t) (length s - 1) overflow = (ov, s' @ t) \<and> length s' = length s
     \<and> (\<forall>c \<in> set s'. is_digit c)
     \<and> digits_value 0 s' + (if ov then 10 ^ length s else 0) = digits_value 0 s + 1"
proof (induction s arbitrary: t overflow rule: rev_induct)
  case (snoc c s)
  have c: "is_digit c" and s: "\<forall>c \<in> set s. is_digit c" using snoc.prems by auto
  have dot: "c \<noteq> CHR ''.''" using c by (auto simp: is_digit_iff)
  show ?case
  proof (cases "c = CHR ''9''")
    case False
    then have c9: "CHR ''0'' \<le> c" "c < CHR ''9''" using digit_cases [OF c] by auto
    let ?d = "char_of (of_char c + 1 :: nat)"
    have "auto_incr_loop ((s @ [c]) @ t) (length (s @ [c]) - 1) overflow = (False, (s @ [?d]) @ t)"
      using dot c9 by (simp add: auto_incr_loop.simps [of "s @ c # t"] Let_def)
    then show ?thesis
      using digit_succ [OF c9] s c by (intro exI [of _ False] exI [of _ "s @ [?d]"]) (auto simp: digits_value_snoc)
  next
    case True
    show ?thesis
    proof (cases "s = []")
      case s0: True
      have "auto_incr_loop ((s @ [c]) @ t) (length (s @ [c]) - 1) overflow = (True, (s @ [CHR ''0'']) @ t)"
        using True s0 by (simp add: auto_incr_loop.simps [of "CHR ''9'' # t"] Let_def)
      then show ?thesis using s0 True
        by (intro exI [of _ True] exI [of _ "[CHR ''0'']"]) (simp add: is_digit_iff digit_val_def)
    next
      case False
      then obtain k where k: "length s = Suc k" by (cases s) auto
      have "auto_incr_loop ((s @ [c]) @ t) (length (s @ [c]) - 1) overflow
          = auto_incr_loop (s @ CHR ''0'' # t) (length s - 1) True"
        using True k ch_at_snoc [of s "CHR ''9''" t] list_update_length [of s "CHR ''9''" t "CHR ''0''"]
        by (simp add: auto_incr_loop.simps [of "s @ CHR ''9'' # t"] Let_def)
      moreover obtain ov s' where IH: "auto_incr_loop (s @ CHR ''0'' # t) (length s - 1) True = (ov, s' @ CHR ''0'' # t)"
          "length s' = length s" "\<forall>c \<in> set s'. is_digit c"
          "digits_value 0 s' + (if ov then 10 ^ length s else 0) = digits_value 0 s + 1"
        using snoc.IH [OF False s, of "CHR ''0'' # t" True] by blast
      moreover have "digits_value 0 (s' @ [CHR ''0'']) = 10 * digits_value 0 s'"
        using digits_value_snoc [OF IH(3), of "CHR ''0''"] by (simp add: is_digit_iff digit_val_def)
      moreover have "digits_value 0 (s @ [c]) = 10 * digits_value 0 s + 9"
        using digits_value_snoc [OF s c] True by (simp add: digit_val_def)
      moreover have "\<forall>c \<in> set (s' @ [CHR ''0'']). is_digit c" using IH(3) by (simp add: is_digit_iff)
      ultimately show ?thesis
        by (intro exI [of _ ov] exI [of _ "s' @ [CHR ''0'']"], cases ov) simp_all
    qed
  qed
qed simp

section \<open>Numbers that fit\<close>

text \<open>The array with the digits \<open>ds\<close> from index 1 on.\<close>

definition digit_array :: "string \<Rightarrow> string" where
  "digit_array ds = NUL # ds @ replicate (OB_NUM_ARRAY - 1 - length ds) NUL"

lemma skip_zeros_stop: "c \<noteq> CHR ''0'' \<Longrightarrow> c \<noteq> CHR ''.'' \<Longrightarrow>
    skip_zeros True (replicate k CHR ''0'' @ c # s) = (True, c # s)"
  by (induction k) auto

lemma digit_array_snoc:
  assumes "Suc (length ds) < OB_NUM_ARRAY"
  shows "(digit_array ds)[Suc (length ds) := c] = digit_array (ds @ [c])"
proof -
  obtain r where r: "OB_NUM_ARRAY - 1 - length ds = Suc r" using assms
    by (cases "OB_NUM_ARRAY - 1 - length ds") auto
  then have "OB_NUM_ARRAY - 1 - length (ds @ [c]) = r" by simp
  with r show ?thesis by (simp add: digit_array_def del: replicate.simps) simp
qed

lemma digits_loop_digits:
  "\<forall>c \<in> set ip. is_digit c \<Longrightarrow> length (ds @ ip) < OB_NUM_ARRAY \<Longrightarrow> num_info n = digit_array ds \<Longrightarrow>
   digits_loop positive (ip @ s) (Suc (length ds)) n
     = digits_loop positive s (Suc (length (ds @ ip)))
         (n\<lparr>num_info := digit_array (ds @ ip),
            dot_pos := (if positive \<and> ip \<noteq> [] then int (length (ds @ ip)) else dot_pos n)\<rparr>)"
proof (induction ip arbitrary: ds n)
  case Nil
  then show ?case by (cases n) simp
next
  case (Cons c ip)
  let ?n = "n\<lparr>num_info := digit_array (ds @ [c]),
    dot_pos := (if positive then int (Suc (length ds)) else dot_pos n)\<rparr>"
  have "digits_loop positive ((c # ip) @ s) (Suc (length ds)) n
      = digits_loop positive (ip @ s) (Suc (length (ds @ [c]))) ?n"
    using Cons.prems digit_array_snoc [of ds c] by simp
  also have "\<dots> = digits_loop positive s (Suc (length ((ds @ [c]) @ ip)))
      (?n\<lparr>num_info := digit_array ((ds @ [c]) @ ip),
        dot_pos := (if positive \<and> ip \<noteq> [] then int (length ((ds @ [c]) @ ip)) else dot_pos ?n)\<rparr>)"
    using Cons.prems by (intro Cons.IH) simp_all
  finally show ?case by (cases n) auto
qed

lemma str_at_digit_array:
  assumes "is_cstr ds" and "length ds < OB_NUM_ARRAY - 1"
  shows "str_at (digit_array ds) 1 = ds"
proof -
  obtain r where r: "OB_NUM_ARRAY - 1 - length ds = Suc r" using assms(2)
    by (cases "OB_NUM_ARRAY - 1 - length ds") auto
  show ?thesis using assms(1) unfolding digit_array_def r by (simp add: str_at_def cstr_append_NUL)
qed

text \<open>A number as the server writes it: a sign, zeros, the integer part, a fraction.\<close>

definition fraction :: "string \<Rightarrow> string" where
  "fraction fp = (if fp = [] then [] else CHR ''.'' # fp)"

definition number_text :: "string \<Rightarrow> nat \<Rightarrow> string \<Rightarrow> string \<Rightarrow> string" where
  "number_text sign k ip fp = sign @ replicate k CHR ''0'' @ ip @ fraction fp"

definition number_ok :: "string \<Rightarrow> string \<Rightarrow> string \<Rightarrow> bool" where
  "number_ok sign ip fp \<longleftrightarrow> sign \<in> {[], ''+'', ''-''} \<and> ip \<noteq> [] \<and> hd ip \<noteq> CHR ''0''
     \<and> (\<forall>c \<in> set (ip @ fp). is_digit c)"

lemma digits_loop_number:
  assumes "\<forall>c \<in> set (ip @ fp). is_digit c" and "ip \<noteq> []" and "length (ip @ fp) < OB_NUM_ARRAY"
    and "num_info n = digit_array []"
  shows "digits_loop True (ip @ fraction fp) 1 n = Some (True, Suc (length (ip @ fp)),
    n\<lparr>num_info := digit_array (ip @ fp), dot_pos := int (length ip)\<rparr>)"
proof -
  let ?n = "n\<lparr>num_info := digit_array ip, dot_pos := int (length ip)\<rparr>"
  have ip: "digits_loop True (ip @ fraction fp) 1 n = digits_loop True (fraction fp) (Suc (length ip)) ?n"
    using digits_loop_digits [of ip "[]" n True "fraction fp"] assms by simp
  show ?thesis
  proof (cases "fp = []")
    case True
    with ip show ?thesis by (simp add: fraction_def)
  next
    case False
    have "digits_loop False (fp @ []) (Suc (length ip)) ?n = digits_loop False [] (Suc (length (ip @ fp)))
        (?n\<lparr>num_info := digit_array (ip @ fp), dot_pos := (if False \<and> fp \<noteq> [] then int (length (ip @ fp)) else dot_pos ?n)\<rparr>)"
      using assms by (intro digits_loop_digits) simp_all
    with ip False show ?thesis by (simp add: fraction_def is_digit_iff)
  qed
qed

lemma parse_number_text:
  assumes "number_ok sign ip fp" and "length (ip @ fp) < OB_NUM_ARRAY - 1"
  shows "parse_normal_number (number_text sign k ip fp) = Some (True,
    \<lparr>num_info = digit_array (ip @ fp), start_pos = 1, dot_pos = int (length ip),
     num_mark = (if sign = ''+'' then 1 else if sign = ''-'' then 2 else 0)\<rparr>)"
proof -
  let ?body = "replicate k CHR ''0'' @ ip @ fraction fp"
  let ?m = "if sign = ''+'' then 1 else if sign = ''-'' then 2 else 0 :: nat"
  obtain c ip' where ip: "ip = c # ip'" using assms(1) by (cases ip) (auto simp: number_ok_def)
  have c: "is_digit c" "c \<noteq> CHR ''0''" using assms(1) ip by (auto simp: number_ok_def)
  have "c \<noteq> CHR ''.''" using c(1) by (auto simp: is_digit_iff)
  then have sz: "skip_zeros True ?body = (True, ip @ fraction fp)"
    using skip_zeros_stop [of c k "ip' @ fraction fp"] c ip by simp
  obtain d r where body: "?body = d # r" "is_digit d"
    using c ip by (cases k) (auto simp: is_digit_iff)
  have d: "d \<noteq> CHR ''+''" "d \<noteq> CHR ''-''" "d \<noteq> CHR ''.''" using body(2) by (auto simp: is_digit_iff)
  have za: "num_info (zero_number\<lparr>num_mark := ?m\<rparr>) = digit_array []"
    by (simp add: zero_number_def digit_array_def flip: replicate_Suc)
  have dl: "digits_loop True (ip @ fraction fp) 1 (zero_number\<lparr>num_mark := ?m\<rparr>)
      = Some (True, Suc (length (ip @ fp)), (zero_number\<lparr>num_mark := ?m\<rparr>)
          \<lparr>num_info := digit_array (ip @ fp), dot_pos := int (length ip)\<rparr>)"
    using assms za ip by (intro digits_loop_number) (auto simp: number_ok_def)
  have parse: "parse_normal_number (number_text sign k ip fp) =
      map_option (\<lambda>(ret, j, n). (ret, trim_zeros j (n\<lparr>start_pos := 1\<rparr>)))
        (digits_loop True (ip @ fraction fp) 1 (zero_number\<lparr>num_mark := ?m\<rparr>))"
    using assms(1) body d sz
    by (auto simp: number_ok_def number_text_def parse_normal_number_def)
  have "ch_at (digit_array (ip @ fp)) (Suc (length (ip @ fp))) = NUL"
    using assms(2) by (simp add: digit_array_def ch_at_def nth_append)
  then show ?thesis unfolding parse dl by (simp add: zero_number_def)
qed

lemma is_cstr_digits: "\<forall>c \<in> set s. is_digit c \<Longrightarrow> is_cstr s"
  by (induction s) (auto dest: is_digit_not)

text \<open>Bytes copied into a cleared array are the string there.\<close>

lemma cstr_copied:
  assumes "is_cstr s" and "length pre + length s < w" and "is_cstr pre"
  shows "cstr (memcpy (pre @ replicate (w - length pre) NUL @ rest) (length pre) s) = pre @ s"
proof -
  obtain r where r: "w - length pre - length s = Suc r" using assms(2)
    by (cases "w - length pre - length s") auto
  have "drop (length pre + length s) (pre @ replicate (w - length pre) NUL @ rest)
      = replicate (w - length pre - length s) NUL @ rest"
    using assms(2) by (simp add: drop_replicate)
  then show ?thesis using assms(1,3) unfolding memcpy_def r
    by (simp add: cstr_append cstr_Cons)
qed

section \<open>Properties\<close>

text \<open>
  C28: a number with an integer part whose digits are fewer than the width leaves room for
  is written as it is, without a plus sign and without leading zeros.
\<close>

theorem format_fix_width_num_fits:
  assumes "number_ok sign ip fp" and "2 \<le> w" and "w \<le> 128"
    and "length (ip @ fp) < (if sign = ''-'' then w - 1 else w)"
  shows "\<exists>out n. format_fix_width_num w arr (number_text sign k ip fp) = Some (w, out, n)
    \<and> cstr out = (if sign = ''-'' then ''-'' else []) @ ip @ fraction fp"
proof -
  let ?neg = "sign = ''-''"
  let ?pre = "if ?neg then ''-'' else []"
  let ?out = "?pre @ replicate (w + 1 - length ?pre) NUL @ drop (w + 1) arr"
  let ?n = "\<lparr>num_info = digit_array (ip @ fp), start_pos = 1, dot_pos = int (length ip),
    num_mark = (if sign = ''+'' then 1 else if ?neg then 2 else 0)\<rparr>"
  have parse: "parse_normal_number (number_text sign k ip fp) = Some (True, ?n)"
    using assms by (intro parse_number_text) (auto split: if_splits)
  have dig: "\<forall>c \<in> set (ip @ fp). is_digit c" "ip \<noteq> []" using assms(1) by (simp_all add: number_ok_def)
  then have cs: "is_cstr (ip @ fp)" by (intro is_cstr_digits)
  have s: "str_at (digit_array (ip @ fp)) 1 = ip @ fp"
    using cs assms by (intro str_at_digit_array) (auto split: if_splits)
  have ip: "take (length ip) (drop 1 (digit_array (ip @ fp))) = ip" by (simp add: digit_array_def)
  have out0: "(if ?neg then (memset arr NUL (w + 1))[0 := CHR ''-''] else memset arr NUL (w + 1)) = ?out"
    by (simp add: memset_def)
  have "format_fix_width_num w arr (number_text sign k ip fp)
      = Some (w, memcpy ?out (length ?pre) (ip @ fraction fp), ?n)"
    using assms dig s ip out0 unfolding format_fix_width_num_def parse
    by (auto simp: num_width_def Let_def fraction_def)
  moreover have "cstr (memcpy ?out (length ?pre) (ip @ fraction fp)) = ?pre @ ip @ fraction fp"
    using cs assms(2-4) by (intro cstr_copied) (auto simp: fraction_def split: if_splits)
  ultimately show ?thesis by blast
qed

theorem format_fix_width_num_fits_witness:
  "\<exists>out n. format_fix_width_num 10 [] ''-00123.50'' = Some (10, out, n) \<and> cstr out = ''-123.50''"
  using format_fix_width_num_fits [of "''-''" "''123''" "''50''" 10 "[]" 2]
  by (simp add: number_ok_def number_text_def fraction_def is_digit_iff numeral_2_eq_2)





text \<open>
  C30: on a string of decimal digits \<open>auto_incr\<close> adds one to the number it denotes, and reports
  the carry out of the first digit.
\<close>

theorem auto_incr_adds_one:
  assumes "s \<noteq> []" and "\<forall>c \<in> set s. is_digit c"
  shows "\<exists>ov s'. auto_incr s (length s - 1) = (ov, s') \<and> length s' = length s
    \<and> digits_value 0 s' + (if ov then 10 ^ length s else 0) = digits_value 0 s + 1"
  using auto_incr_value [OF assms, of "[]" False] unfolding auto_incr_def append_Nil2 by blast

theorem auto_incr_adds_one_witness:
  "\<exists>s'. auto_incr ''199'' (length ''199'' - 1) = (False, s') \<and> digits_value 0 s' = 200"
proof -
  have v: "digits_value 0 ''199'' = 199" by (simp add: is_digit_def digit_val_def)
  have l: "length ''199'' = (3 :: nat)" by simp
  have d: "\<forall>c \<in> set ''199''. is_digit c" by code_simp
  obtain ov s' where s': "auto_incr ''199'' (length ''199'' - 1) = (ov, s')"
      "digits_value 0 s' + (if ov then 10 ^ length ''199'' else 0) = digits_value 0 ''199'' + 1"
    using auto_incr_adds_one [OF _ d] by blast
  have e: "digits_value 0 s' + (if ov then 1000 else 0) = 200"
    using s' (2) unfolding v l by (cases ov) simp_all
  have ov: "ov = False" using e by (cases ov) simp_all
  show ?thesis using s' (1) e unfolding ov by (intro exI conjI) simp_all
qed

end
