(* ===== verification/Output.thy ===== *)
theory Output
  imports NumFormat Charset
begin

text \<open>
  Printing of result sets and messages: the \<^verbatim>\<open>tee_*\<close> routines, \<^verbatim>\<open>put_info\<close> and
  the five result printers of \<^verbatim>\<open>client/mysql.cc\<close>. What is written is a log of pairs of
  a file and a text, in order; consecutive \<open>putc\<close> calls are one write. A result set is the
  data the client library hands out: its fields and its rows of nullable byte strings. The
  outcome \<open>None\<close> is a write behind the end of an array while a number is formatted, or a row
  without fields. Field names are never null pointers.
\<close>

section \<open>Files\<close>

datatype FILE = STDOUT | STDERR | PIPE | OUTFILE

record console =
  written :: "(FILE \<times> string) list"
  opt_outfile :: bool
  PAGER :: FILE
  obclient_num_width :: nat
  obclient_num_array :: string
  str_num_object :: str_normal_number

type_synonym act = "console \<Rightarrow> console option"

text \<open>The actions of a list, one after the other.\<close>

fun acts :: "act list \<Rightarrow> act" where
  "acts [] c = Some c"
| "acts (p # ps) c = (case p c of None \<Rightarrow> None | Some c' \<Rightarrow> acts ps c')"

definition put :: "FILE \<Rightarrow> string \<Rightarrow> console \<Rightarrow> console" where
  "put f s c = c\<lparr>written := written c @ [(f, s)]\<rparr>"

definition tee_fputs :: "cstring \<Rightarrow> FILE \<Rightarrow> console \<Rightarrow> console" where
  "tee_fputs s f c = (let c = put f s c in if opt_outfile c then put OUTFILE s c else c)"

definition tee_fprintf :: "FILE \<Rightarrow> string \<Rightarrow> console \<Rightarrow> console" where
  "tee_fprintf f s c = (let c = put f s c in if opt_outfile c then put OUTFILE s c else c)"

definition tee_puts :: "cstring \<Rightarrow> FILE \<Rightarrow> console \<Rightarrow> console" where
  "tee_puts s f c =
     (let c = put f [NL] (put f s c) in if opt_outfile c then put OUTFILE [NL] (put OUTFILE s c) else c)"

definition tee_putc :: "char \<Rightarrow> FILE \<Rightarrow> console \<Rightarrow> console" where
  "tee_putc ch f c = (let c = put f [ch] c in if opt_outfile c then put OUTFILE [ch] c else c)"

definition tee_outfile :: "cstring \<Rightarrow> console \<Rightarrow> console" where
  "tee_outfile s c = (if opt_outfile c then put OUTFILE s c else c)"

text \<open>The actions on the pager: a teed text, and one that goes to the pager only.\<close>

definition tee :: "string \<Rightarrow> act" where
  "tee s c = Some (tee_fprintf (PAGER c) s c)"

definition tee_line :: "cstring \<Rightarrow> act" where
  "tee_line s c = Some (tee_puts s (PAGER c) c)"

definition raw :: "string \<Rightarrow> act" where
  "raw s c = Some (put (PAGER c) s c)"

section \<open>Formatting\<close>

text \<open>Arithmetic on unsigned 32-bit values, and the conversions of \<open>printf\<close>.\<close>

definition u32 :: "int \<Rightarrow> nat" where
  "u32 n = nat (n mod 4294967296)"

definition spaces :: "nat \<Rightarrow> string" where
  "spaces n = replicate n CHR '' ''"

definition pad_left :: "nat \<Rightarrow> string \<Rightarrow> string" where
  "pad_left n s = spaces (n - length s) @ s"

definition pad_right :: "nat \<Rightarrow> string \<Rightarrow> string" where
  "pad_right n s = s @ spaces (n - length s)"

definition zero_pad :: "nat \<Rightarrow> string \<Rightarrow> string" where
  "zero_pad n s = replicate (n - length s) CHR ''0'' @ s"

definition hex_digit :: "char \<Rightarrow> nat \<Rightarrow> char" where
  "hex_digit a n = (if n < 10 then digit_char n else char_of (of_char a + n - 10))"

definition hex_byte :: "char \<Rightarrow> string" where
  "hex_byte b = (let n = of_char b in [hex_digit CHR ''A'' (n div 16), hex_digit CHR ''A'' (n mod 16)])"

fun hex_str :: "nat \<Rightarrow> string" where
  "hex_str n = (if n < 16 then [hex_digit CHR ''a'' n]
                else hex_str (n div 16) @ [hex_digit CHR ''a'' (n mod 16)])"

declare hex_str.simps [simp del]

section \<open>Result sets\<close>

datatype enum_field_types = MYSQL_TYPE_DECIMAL | MYSQL_TYPE_TINY | MYSQL_TYPE_SHORT | MYSQL_TYPE_LONG
  | MYSQL_TYPE_FLOAT | MYSQL_TYPE_DOUBLE | MYSQL_TYPE_NULL | MYSQL_TYPE_TIMESTAMP | MYSQL_TYPE_LONGLONG
  | MYSQL_TYPE_INT24 | MYSQL_TYPE_DATE | MYSQL_TYPE_TIME | MYSQL_TYPE_DATETIME | MYSQL_TYPE_YEAR
  | MYSQL_TYPE_NEWDATE | MYSQL_TYPE_VARCHAR | MYSQL_TYPE_BIT | MYSQL_TYPE_NEWDECIMAL | MYSQL_TYPE_ENUM
  | MYSQL_TYPE_SET | MYSQL_TYPE_TINY_BLOB | MYSQL_TYPE_MEDIUM_BLOB | MYSQL_TYPE_LONG_BLOB
  | MYSQL_TYPE_BLOB | MYSQL_TYPE_VAR_STRING | MYSQL_TYPE_STRING | MYSQL_TYPE_GEOMETRY
  | MYSQL_TYPE_ORA_BLOB | MYSQL_TYPE_ORA_CLOB | MYSQL_TYPE_OB_RAW | MYSQL_TYPE_OB_INTERVAL_YM
  | MYSQL_TYPE_OB_INTERVAL_DS | MYSQL_TYPE_OB_NUMBER_FLOAT | MYSQL_TYPE_OB_NVARCHAR2
  | MYSQL_TYPE_OB_NCHAR | MYSQL_TYPE_OB_TIMESTAMP_WITH_TIME_ZONE
  | MYSQL_TYPE_OB_TIMESTAMP_WITH_LOCAL_TIME_ZONE | MYSQL_TYPE_OB_TIMESTAMP_NANO | MYSQL_TYPE_CURSOR
  | MYSQL_TYPE_OB_UROWID

record mysql_field =
  f_name :: cstring
  f_org_table :: cstring
  f_table :: cstring
  f_db :: cstring
  f_catalog :: cstring
  f_length :: nat
  f_max_length :: nat
  f_name_length :: nat
  f_flags :: nat
  f_decimals :: nat
  f_charsetnr :: nat
  f_type :: enum_field_types

type_synonym cell = "string option"

record mysql_res =
  r_fields :: "mysql_field list"
  r_rows :: "cell list list"

text \<open>
  The settings the printers read. The type tests \<open>IS_NUM\<close>, \<open>IS_NUM_TERMINAL\<close> and
  \<open>IS_NUM_BINARY_TERMINAL\<close> and the names of character sets are those of the client library.
  \<open>interrupted\<close> tells whether \<open>interrupted_query\<close> is set when row \<open>i\<close> has been fetched.
\<close>

record settings =
  column_names :: bool
  quick :: bool
  oracle_mode :: bool
  opt_binhex :: bool
  opt_raw_data :: bool
  column_types_flag :: bool
  force_set_num_width_close :: bool
  in_com_source :: bool
  is_termout_oracle :: bool
  opt_silent :: nat
  charset :: charset_info
  is_num :: "enum_field_types \<Rightarrow> bool"
  is_num_terminal :: "enum_field_types \<Rightarrow> bool"
  is_num_binary_terminal :: "enum_field_types \<Rightarrow> bool"
  get_charset_name :: "nat \<Rightarrow> cstring"
  interrupted :: "nat \<Rightarrow> bool"

definition is_termout_oracle_enable :: "settings \<Rightarrow> bool" where
  "is_termout_oracle_enable cfg =
     (\<not> oracle_mode cfg \<or> \<not> (oracle_mode cfg \<and> in_com_source cfg \<and> \<not> is_termout_oracle cfg))"

text \<open>The rows that are printed before the query is interrupted, with their numbers.\<close>

definition printed_rows :: "settings \<Rightarrow> mysql_res \<Rightarrow> (nat \<times> cell list) list" where
  "printed_rows cfg r = takeWhile (\<lambda>(i, row). \<not> interrupted cfg i) (enumerate 0 (r_rows r))"

definition cell_text :: "cell \<Rightarrow> string" where
  "cell_text cell = (case cell of None \<Rightarrow> [] | Some s \<Rightarrow> s)"

text \<open>The row count of a result that is fetched row by row is 0 until rows are fetched.\<close>

definition mysql_num_rows :: "settings \<Rightarrow> mysql_res \<Rightarrow> nat" where
  "mysql_num_rows cfg r = (if quick cfg then 0 else length (r_rows r))"

definition is_binary_field :: "mysql_field \<Rightarrow> bool" where
  "is_binary_field f \<longleftrightarrow> f_charsetnr f = 63 \<and>
     (f_type f = MYSQL_TYPE_BIT \<or> f_type f = MYSQL_TYPE_BLOB \<or> f_type f = MYSQL_TYPE_LONG_BLOB
      \<or> f_type f = MYSQL_TYPE_MEDIUM_BLOB \<or> f_type f = MYSQL_TYPE_TINY_BLOB
      \<or> f_type f = MYSQL_TYPE_VAR_STRING \<or> f_type f = MYSQL_TYPE_OB_NVARCHAR2
      \<or> f_type f = MYSQL_TYPE_OB_NCHAR \<or> f_type f = MYSQL_TYPE_STRING
      \<or> f_type f = MYSQL_TYPE_VARCHAR \<or> f_type f = MYSQL_TYPE_GEOMETRY)"

definition is_binary_field_oracle :: "mysql_field \<Rightarrow> bool" where
  "is_binary_field_oracle f \<longleftrightarrow> f_charsetnr f = 63 \<and>
     (f_type f = MYSQL_TYPE_BLOB \<or> f_type f = MYSQL_TYPE_LONG_BLOB
      \<or> f_type f = MYSQL_TYPE_MEDIUM_BLOB \<or> f_type f = MYSQL_TYPE_TINY_BLOB)"

section \<open>Types and flags\<close>

definition fieldtype2str :: "enum_field_types \<Rightarrow> cstring" where
  "fieldtype2str type =
     (case type of
        MYSQL_TYPE_BIT \<Rightarrow> ''BIT''
      | MYSQL_TYPE_BLOB \<Rightarrow> ''BLOB''
      | MYSQL_TYPE_ORA_BLOB \<Rightarrow> ''OB_BLOB''
      | MYSQL_TYPE_ORA_CLOB \<Rightarrow> ''OB_CLOB''
      | MYSQL_TYPE_OB_RAW \<Rightarrow> ''RAW''
      | MYSQL_TYPE_OB_INTERVAL_YM \<Rightarrow> ''INTERVAL_YEAR_TO_MONTH''
      | MYSQL_TYPE_OB_INTERVAL_DS \<Rightarrow> ''INTERVAL_DAY_TO_SECOND''
      | MYSQL_TYPE_OB_NUMBER_FLOAT \<Rightarrow> ''MYSQL_TYPE_OB_NUMBER_FLOAT''
      | MYSQL_TYPE_OB_NVARCHAR2 \<Rightarrow> ''MYSQL_TYPE_OB_NVARCHAR2''
      | MYSQL_TYPE_OB_NCHAR \<Rightarrow> ''MYSQL_TYPE_OB_NCHAR''
      | MYSQL_TYPE_DATE \<Rightarrow> ''DATE''
      | MYSQL_TYPE_DATETIME \<Rightarrow> ''DATETIME''
      | MYSQL_TYPE_NEWDECIMAL \<Rightarrow> ''NEWDECIMAL''
      | MYSQL_TYPE_DECIMAL \<Rightarrow> ''DECIMAL''
      | MYSQL_TYPE_DOUBLE \<Rightarrow> ''DOUBLE''
      | MYSQL_TYPE_ENUM \<Rightarrow> ''ENUM''
      | MYSQL_TYPE_FLOAT \<Rightarrow> ''FLOAT''
      | MYSQL_TYPE_GEOMETRY \<Rightarrow> ''GEOMETRY''
      | MYSQL_TYPE_INT24 \<Rightarrow> ''INT24''
      | MYSQL_TYPE_LONG \<Rightarrow> ''LONG''
      | MYSQL_TYPE_LONGLONG \<Rightarrow> ''LONGLONG''
      | MYSQL_TYPE_LONG_BLOB \<Rightarrow> ''LONG_BLOB''
      | MYSQL_TYPE_MEDIUM_BLOB \<Rightarrow> ''MEDIUM_BLOB''
      | MYSQL_TYPE_NEWDATE \<Rightarrow> ''NEWDATE''
      | MYSQL_TYPE_NULL \<Rightarrow> ''NULL''
      | MYSQL_TYPE_SET \<Rightarrow> ''SET''
      | MYSQL_TYPE_SHORT \<Rightarrow> ''SHORT''
      | MYSQL_TYPE_STRING \<Rightarrow> ''STRING''
      | MYSQL_TYPE_TIME \<Rightarrow> ''TIME''
      | MYSQL_TYPE_TIMESTAMP \<Rightarrow> ''TIMESTAMP''
      | MYSQL_TYPE_OB_TIMESTAMP_WITH_TIME_ZONE \<Rightarrow> ''TIMESTAMP_WITH_TIME_ZONE''
      | MYSQL_TYPE_OB_TIMESTAMP_WITH_LOCAL_TIME_ZONE \<Rightarrow> ''TIMESTAMP_WITH_LOCAL_TIME_ZONE''
      | MYSQL_TYPE_OB_TIMESTAMP_NANO \<Rightarrow> ''TIMESTAMP_NANO''
      | MYSQL_TYPE_TINY \<Rightarrow> ''TINY''
      | MYSQL_TYPE_TINY_BLOB \<Rightarrow> ''TINY_BLOB''
      | MYSQL_TYPE_VAR_STRING \<Rightarrow> ''VAR_STRING''
      | MYSQL_TYPE_YEAR \<Rightarrow> ''YEAR''
      | MYSQL_TYPE_CURSOR \<Rightarrow> ''CURSOR''
      | MYSQL_TYPE_OB_UROWID \<Rightarrow> ''UROWID''
      | _ \<Rightarrow> ''?-unknown-?'')"

text \<open>The flags in the order they are tested; \<open>NUM\<close> and \<open>GROUP\<close> are the same bit.\<close>

definition field_flags :: "(nat \<times> cstring) list" where
  "field_flags = [(1, ''NOT_NULL ''), (2, ''PRI_KEY ''), (4, ''UNIQUE_KEY ''), (8, ''MULTIPLE_KEY ''),
     (16, ''BLOB ''), (32, ''UNSIGNED ''), (64, ''ZEROFILL ''), (128, ''BINARY ''), (256, ''ENUM ''),
     (512, ''AUTO_INCREMENT ''), (1024, ''TIMESTAMP ''), (2048, ''SET ''), (4096, ''NO_DEFAULT_VALUE ''),
     (32768, ''NUM ''), (16384, ''PART_KEY ''), (32768, ''GROUP ''), (131072, ''BINCMP ''),
     (8192, ''ON_UPDATE_NOW '')]"

text \<open>A flag is a power of two, so the bit is tested and cleared by division.\<close>

definition has_flag :: "nat \<Rightarrow> nat \<Rightarrow> bool" where
  "has_flag f x \<longleftrightarrow> odd (f div x)"

fun flags_loop :: "(nat \<times> cstring) list \<Rightarrow> nat \<Rightarrow> cstring" where
  "flags_loop [] f = (if f \<noteq> 0 then '' unknows=0x'' @ zero_pad 4 (hex_str f) else [])"
| "flags_loop ((x, s) # xs) f = (if has_flag f x then s @ flags_loop xs (f - x) else flags_loop xs f)"

definition fieldflags2str :: "nat \<Rightarrow> cstring" where
  "fieldflags2str f = flags_loop field_flags f"

definition IS_NOT_NULL :: "nat \<Rightarrow> bool" where
  "IS_NOT_NULL flags = has_flag flags 1"

definition field_types_text :: "settings \<Rightarrow> nat \<Rightarrow> mysql_field \<Rightarrow> string" where
  "field_types_text cfg i f =
     ''Field '' @ pad_left 3 (dec_str i) @ '':  `'' @ f_name f @ ''`'' @ [NL]
     @ ''Catalog:    `'' @ f_catalog f @ ''`'' @ [NL]
     @ ''Database:   `'' @ f_db f @ ''`'' @ [NL]
     @ ''Table:      `'' @ f_table f @ ''`'' @ [NL]
     @ ''Org_table:  `'' @ f_org_table f @ ''`'' @ [NL]
     @ ''Type:       '' @ fieldtype2str (f_type f) @ [NL]
     @ ''Collation:  '' @ get_charset_name cfg (f_charsetnr f) @ '' ('' @ dec_str (f_charsetnr f) @ '')'' @ [NL]
     @ ''Length:     '' @ dec_str (f_length f) @ [NL]
     @ ''Max_length: '' @ dec_str (f_max_length f) @ [NL]
     @ ''Decimals:   '' @ dec_str (f_decimals f) @ [NL]
     @ ''Flags:      '' @ fieldflags2str (f_flags f) @ [NL, NL]"

definition print_field_types :: "settings \<Rightarrow> mysql_res \<Rightarrow> act" where
  "print_field_types cfg r =
     acts (map (\<lambda>(i, f). tee (field_types_text cfg i f)) (enumerate 1 (r_fields r)) @ [tee_line []])"

section \<open>Cells\<close>

text \<open>The digits are written with \<open>fprintf\<close>, so they do not go to the outfile; the padding does.\<close>

definition print_as_hex :: "string \<Rightarrow> nat \<Rightarrow> act" where
  "print_as_hex str width =
     acts [raw (''0x'' @ concat (map hex_byte str)), tee (spaces (width - (2 * length str + 2)))]"

definition print_as_hex_oracle :: "string \<Rightarrow> nat \<Rightarrow> act" where
  "print_as_hex_oracle str width =
     acts [raw (concat (map hex_byte str)), tee (spaces (width - 2 * length str))]"

definition tee_print_sized_data :: "string \<Rightarrow> nat \<Rightarrow> bool \<Rightarrow> act" where
  "tee_print_sized_data data width right_justified =
     (let pad = spaces (width - length data); text = map (\<lambda>c. if c = NUL then CHR '' '' else c) data
      in tee (if right_justified then pad @ text else text @ pad))"

text \<open>A number is formatted into \<open>obclient_num_array\<close> and the string there is passed on.\<close>

definition with_num :: "string \<Rightarrow> (cstring \<Rightarrow> act) \<Rightarrow> act" where
  "with_num str k c =
     (case format_fix_width_num (obclient_num_width c) (obclient_num_array c) str of
        None \<Rightarrow> None
      | Some (w, arr, n) \<Rightarrow>
          k (cstr arr) (c\<lparr>obclient_num_width := w, obclient_num_array := arr, str_num_object := n\<rparr>))"

definition with_num_binary :: "string \<Rightarrow> (cstring \<Rightarrow> act) \<Rightarrow> act" where
  "with_num_binary str k c =
     (case format_fix_width_num_binary (obclient_num_width c) (obclient_num_array c) (str_num_object c) str of
        None \<Rightarrow> None
      | Some (w, arr) \<Rightarrow> k (cstr arr) (c\<lparr>obclient_num_width := w, obclient_num_array := arr\<rparr>))"

section \<open>Tables\<close>

abbreviation MAX_COLUMN_LENGTH :: nat where "MAX_COLUMN_LENGTH \<equiv> 1024"

text \<open>The width of a column, which is kept in \<open>field->max_length\<close>.\<close>

definition column_width :: "settings \<Rightarrow> mysql_field \<Rightarrow> nat" where
  "column_width cfg f =
     (let n = (if column_names cfg then f_name_length f else 0);
          n = u32 (int (max n (if quick cfg \<and> \<not> oracle_mode cfg then f_length f else f_max_length f)));
          n = (if n < 4 then 4 else n)
      in if oracle_mode cfg \<and> is_binary_field_oracle f then u32 (int n * 2)
         else if opt_binhex cfg \<and> is_binary_field f then u32 (2 + int n * 2)
         else n)"

definition separator :: "settings \<Rightarrow> mysql_field list \<Rightarrow> string" where
  "separator cfg fs = ''+'' @ concat (map (\<lambda>f. replicate (column_width cfg f + 2) CHR ''-'' @ ''+'') fs)"

definition header_cell :: "settings \<Rightarrow> mysql_field \<Rightarrow> string" where
  "header_cell cfg f =
     (let n = length (f_name f);
          display_length = column_width cfg f + n - cs_numcells (charset cfg) (f_name f)
      in '' '' @ pad_right (min display_length MAX_COLUMN_LENGTH) (f_name f) @ '' |'')"

definition table_cell :: "settings \<Rightarrow> mysql_field \<Rightarrow> cell \<Rightarrow> act" where
  "table_cell cfg f cell =
     (let buffer = (case cell of None \<Rightarrow> ''NULL'' | Some s \<Rightarrow> s);
          w = column_width cfg f;
          extra_padding = u32 (int (length buffer) - int (cs_numcells (charset cfg) buffer));
          width = u32 (int w + int extra_padding);
          num = is_num cfg (f_type f);
          numbers = (\<not> force_set_num_width_close cfg \<and> oracle_mode cfg \<and> cell \<noteq> None
                     \<and> is_num_terminal cfg (f_type f))
      in if numbers \<and> is_num_binary_terminal cfg (f_type f)
           then with_num_binary buffer (\<lambda>s. tee_print_sized_data s w num)
         else if numbers then with_num buffer (\<lambda>s. tee_print_sized_data s width True)
         else if oracle_mode cfg \<and> cell \<noteq> None \<and> is_binary_field_oracle f then print_as_hex_oracle buffer w
         else if opt_binhex cfg \<and> cell \<noteq> None \<and> is_binary_field f then print_as_hex buffer w
         else if w > MAX_COLUMN_LENGTH
           then tee_print_sized_data buffer (u32 (int MAX_COLUMN_LENGTH + int extra_padding)) False
         else tee_print_sized_data buffer width num)"

text \<open>The cells of a row: a blank before every one but the first, a bar behind each.\<close>

fun row_cells :: "settings \<Rightarrow> bool \<Rightarrow> mysql_field list \<Rightarrow> cell list \<Rightarrow> act list" where
  "row_cells cfg off (f # fs) (x # xs) =
     (if off then [tee '' ''] else []) @ [table_cell cfg f x, tee '' |''] @ row_cells cfg True fs xs"
| "row_cells cfg off _ _ = []"

definition table_row :: "settings \<Rightarrow> mysql_field list \<Rightarrow> cell list \<Rightarrow> act list" where
  "table_row cfg fs row = [tee ''| ''] @ row_cells cfg False fs row @ [tee [NL]]"

definition print_table_data :: "settings \<Rightarrow> mysql_res \<Rightarrow> act" where
  "print_table_data cfg r =
     (let fs = r_fields r; sep = separator cfg fs; on = is_termout_oracle_enable cfg;
          types = (if column_types_flag cfg then [print_field_types cfg r] else [])
      in if column_types_flag cfg \<and> mysql_num_rows cfg r = 0 then acts types
         else acts
           (types
            @ (if on then tee_line sep
                 # (if column_names cfg
                    then tee ''|'' # map (\<lambda>f. tee (header_cell cfg f)) fs @ [tee [NL], tee_line sep]
                    else [])
               else [])
            @ (if on then concat (map (\<lambda>(i, row). table_row cfg fs row) (printed_rows cfg r)) else [])
            @ (if on then [tee_line sep] else [])))"

definition get_field_disp_length :: "settings \<Rightarrow> mysql_field \<Rightarrow> nat" where
  "get_field_disp_length cfg f =
     (let n = (if column_names cfg then f_name_length f else 0);
          n = u32 (int (max n (if quick cfg then f_length f else f_max_length f)))
      in if n < 4 \<and> \<not> IS_NOT_NULL (f_flags f) then 4 else n)"

definition get_result_width :: "settings \<Rightarrow> mysql_res \<Rightarrow> nat" where
  "get_result_width cfg r =
     u32 (int (sum_list (map (\<lambda>f. get_field_disp_length cfg f + 3) (r_fields r))) + 1)"

section \<open>HTML, XML and vertical output\<close>

definition xmlmeta :: "(char \<times> cstring) list" where
  "xmlmeta = [(CHR ''&'', ''&amp;''), (CHR ''<'', ''&lt;''), (CHR ''>'', ''&gt;''), (DQ, ''&quot;''), (NUL, '' '')]"

fun array_value :: "(char \<times> cstring) list \<Rightarrow> char \<Rightarrow> cstring option" where
  "array_value [] key = None"
| "array_value ((k, v) # a) key = (if k = key then Some v else array_value a key)"

definition xml_char :: "char \<Rightarrow> string" where
  "xml_char c = (case array_value xmlmeta c of Some t \<Rightarrow> t | None \<Rightarrow> [c])"

definition xmlencode :: "string \<Rightarrow> string" where
  "xmlencode src = concat (map xml_char src)"

definition xmlencode_print :: "cell \<Rightarrow> act" where
  "xmlencode_print src = (case src of None \<Rightarrow> tee ''NULL'' | Some s \<Rightarrow> tee (xmlencode s))"

text \<open>
  A cell of HTML or XML output: \<open>f\<close> is its field, \<open>t\<close> the field whose type is tested for a
  number. In HTML output that is always the first field of the row.
\<close>

definition markup_cell :: "settings \<Rightarrow> mysql_field \<Rightarrow> mysql_field \<Rightarrow> cell \<Rightarrow> act" where
  "markup_cell cfg f t cell =
     (let s = cell_text cell; n = length s in
      if oracle_mode cfg \<and> is_binary_field_oracle f then
        (if \<not> force_set_num_width_close cfg \<and> cell \<noteq> None \<and> is_num_binary_terminal cfg (f_type t)
         then with_num_binary s (\<lambda>num. print_as_hex_oracle num n)
         else print_as_hex_oracle s n)
      else if opt_binhex cfg \<and> is_binary_field f then print_as_hex s n
      else if \<not> force_set_num_width_close cfg \<and> oracle_mode cfg \<and> cell \<noteq> None \<and> is_num_terminal cfg (f_type t)
      then with_num s (\<lambda>num. xmlencode_print (Some num))
      else xmlencode_print cell)"

definition html_row :: "settings \<Rightarrow> mysql_field list \<Rightarrow> cell list \<Rightarrow> act list" where
  "html_row cfg fs row =
     [tee ''<TR>'']
     @ concat (map2 (\<lambda>f x. [tee ''<TD>'', markup_cell cfg f (hd fs) x, tee ''</TD>'']) fs row)
     @ [tee ''</TR>'']"

definition html_head :: "mysql_field \<Rightarrow> act list" where
  "html_head f =
     [tee ''<TH>'',
      if f_name f \<noteq> [] then xmlencode_print (Some (take (f_name_length f) (f_name f)))
      else tee '' &nbsp; '',
      tee ''</TH>'']"

definition print_table_data_html :: "settings \<Rightarrow> mysql_res \<Rightarrow> act" where
  "print_table_data_html cfg r =
     acts ([tee ''<TABLE BORDER=1>'']
       @ (if column_names cfg
          then [tee ''<TR>''] @ concat (map html_head (r_fields r)) @ [tee ''</TR>''] else [])
       @ concat (map (\<lambda>(i, row). html_row cfg (r_fields r) row) (printed_rows cfg r))
       @ [tee ''</TABLE>''])"

definition xml_field :: "settings \<Rightarrow> mysql_field \<Rightarrow> cell \<Rightarrow> act list" where
  "xml_field cfg f x =
     [tee (TAB # ''<field name='' @ [DQ]), xmlencode_print (Some (f_name f))]
     @ (if x \<noteq> None
        then [tee (DQ # ''>''), markup_cell cfg f f x, tee (''</field>'' @ [NL])]
        else [tee (DQ # '' xsi:nil='' @ [DQ] @ ''true'' @ [DQ] @ '' />'' @ [NL])])"

definition print_table_data_xml :: "settings \<Rightarrow> cstring \<Rightarrow> mysql_res \<Rightarrow> act" where
  "print_table_data_xml cfg glob_buffer r =
     acts ([tee (''<?xml version='' @ [DQ] @ ''1.0'' @ [DQ] @ ''?>'' @ [NL, NL] @ ''<resultset statement='' @ [DQ]),
            xmlencode_print (Some glob_buffer),
            tee ([DQ] @ '' xmlns:xsi='' @ [DQ] @ ''http://www.w3.org/2001/XMLSchema-instance'' @ [DQ] @ ''>'')]
       @ concat (map (\<lambda>(i, row).
           [tee ([NL] @ ''  <row>'' @ [NL])] @ concat (map2 (xml_field cfg) (r_fields r) row)
           @ [tee (''  </row>'' @ [NL])]) (printed_rows cfg r))
       @ [tee (''</resultset>'' @ [NL])])"

definition vertical_text :: "settings \<Rightarrow> mysql_field \<Rightarrow> cstring \<Rightarrow> act" where
  "vertical_text cfg f s =
     acts [if opt_binhex cfg \<and> is_binary_field f then raw (concat (map hex_byte s))
           else tee (map (\<lambda>c. if c = NUL then CHR '' '' else c) s),
           tee [NL]]"

definition vertical_cell :: "settings \<Rightarrow> nat \<Rightarrow> mysql_field \<Rightarrow> cell \<Rightarrow> act list" where
  "vertical_cell cfg max_length f x =
     (if column_names cfg then [tee (pad_left max_length (f_name f) @ '': '')] else [])
     @ (case x of
          None \<Rightarrow> [tee (''NULL'' @ [NL])]
        | Some s \<Rightarrow>
            (if opt_binhex cfg \<and> is_binary_field f \<and> \<not> oracle_mode cfg then [raw ''0x''] else [])
            @ [if \<not> force_set_num_width_close cfg \<and> oracle_mode cfg \<and> is_num_binary_terminal cfg (f_type f)
               then with_num_binary s (vertical_text cfg f)
               else if \<not> force_set_num_width_close cfg \<and> oracle_mode cfg \<and> is_num_terminal cfg (f_type f)
               then with_num s (vertical_text cfg f)
               else vertical_text cfg f s])"

definition print_table_data_vertically :: "settings \<Rightarrow> mysql_res \<Rightarrow> act" where
  "print_table_data_vertically cfg r =
     (let max_length = foldl max 0 (map f_name_length (r_fields r)) in
      acts (concat (map (\<lambda>(i, row).
        [tee (''*************************** '' @ dec_str (i + 1) @ ''. row ***************************'' @ [NL])]
        @ concat (map2 (vertical_cell cfg max_length) (r_fields r) row)) (printed_rows cfg r))))"

section \<open>Tab-separated output\<close>

definition safe_char :: "char \<Rightarrow> string" where
  "safe_char c =
     (if c = NUL then [BSL, CHR ''0''] else if c = TAB then [BSL, CHR ''t'']
      else if c = NL then [BSL, CHR ''n''] else if c = BSL then [BSL, BSL] else [c])"

text \<open>A multi-byte character goes out as it is.\<close>

function safe_field :: "settings \<Rightarrow> string \<Rightarrow> string" where
  "safe_field cfg [] = []"
| "safe_field cfg (c # s) =
     (let l = (if use_mb (charset cfg) then my_ismbchar (charset cfg) (c # s) else 0) in
      if l > 0 then take l (c # s) @ safe_field cfg (drop l (c # s))
      else safe_char c @ safe_field cfg s)"
  by pat_completeness auto
termination
  by (relation "measure (\<lambda>(cfg, s). length s)") auto

definition safe_put_field :: "settings \<Rightarrow> cell \<Rightarrow> act" where
  "safe_put_field cfg pos =
     (case pos of None \<Rightarrow> tee ''NULL''
      | Some s \<Rightarrow> tee (if opt_raw_data cfg then s else safe_field cfg s))"

definition tab_cell :: "settings \<Rightarrow> mysql_field \<Rightarrow> cell \<Rightarrow> act" where
  "tab_cell cfg f x =
     (let s = cell_text x; n = length s in
      if oracle_mode cfg \<and> is_binary_field_oracle f then print_as_hex_oracle s n
      else if opt_binhex cfg \<and> is_binary_field f then print_as_hex s n
      else safe_put_field cfg x)"

definition tab_row :: "settings \<Rightarrow> mysql_field list \<Rightarrow> cell list \<Rightarrow> act list" where
  "tab_row cfg fs row =
     (case (fs, row) of
        (f # fs, x # xs) \<Rightarrow> [tab_cell cfg f x] @ concat (map2 (\<lambda>f x. [tee [TAB], tab_cell cfg f x]) fs xs)
          @ [tee [NL]]
      | _ \<Rightarrow> [\<lambda>c. None])"

fun tab_names :: "bool \<Rightarrow> mysql_field list \<Rightarrow> act list" where
  "tab_names first [] = []"
| "tab_names first (f # fs) = (if first then [] else [tee [TAB]]) @ [tee (f_name f)] @ tab_names False fs"

definition print_tab_data :: "settings \<Rightarrow> mysql_res \<Rightarrow> act" where
  "print_tab_data cfg r =
     (if is_termout_oracle_enable cfg
      then acts
        ((if opt_silent cfg < 2 \<and> column_names cfg then tab_names True (r_fields r) @ [tee [NL]] else [])
         @ concat (map (tab_row cfg (r_fields r)) (r_rows r)))
      else acts [])"

section \<open>Messages\<close>

datatype INFO_TYPE = INFO_INFO | INFO_ERROR | INFO_RESULT

text \<open>The globals \<open>put_info\<close> reads; flushing the files has no effect on the log.\<close>

record info_status =
  s_batch :: bool
  s_query_start_line :: nat
  s_file_name :: "cstring option"
  s_line_numbers :: bool
  s_ignore_errors :: bool
  s_verbose :: nat
  s_silent :: nat
  s_nobeep :: bool

definition trim_oracle_errmsg :: "cstring option \<Rightarrow> bool \<Rightarrow> bool \<times> cstring option" where
  "trim_oracle_errmsg str need_trim =
     (case str of
        None \<Rightarrow> (False, str)
      | Some s \<Rightarrow>
          if length s > 11 then
            (case strchr s CHR ''-'' of
               None \<Rightarrow> (False, str)
             | Some t \<Rightarrow>
                 if length s - length t \<le> 5 \<and> length t > 8
                    \<and> is_digit (ch_at t 1) \<and> is_digit (ch_at t 2) \<and> is_digit (ch_at t 3)
                    \<and> is_digit (ch_at t 4) \<and> is_digit (ch_at t 5) \<and> ch_at t 6 = CHR '':'' \<and> ch_at t 7 = CHR '' ''
                 then (True, if need_trim then Some (drop 8 t) else str)
                 else (False, str))
          else (False, str))"

text \<open>An unsigned error number printed with \<open>%d\<close> and \<open>%05d\<close>.\<close>

definition d32 :: "nat \<Rightarrow> string" where
  "d32 n = (if n < 2147483648 then dec_str n else ''-'' @ dec_str (4294967296 - n))"

definition d32_pad5 :: "nat \<Rightarrow> string" where
  "d32_pad5 n = (if n < 2147483648 then zero_pad 5 (dec_str n) else ''-'' @ zero_pad 4 (dec_str (4294967296 - n)))"

definition batch_error_text :: "info_status \<Rightarrow> cstring \<Rightarrow> nat \<Rightarrow> cstring option \<Rightarrow> bool \<Rightarrow> string" where
  "batch_error_text st str error sqlstate oracle =
     (if oracle \<and> fst (trim_oracle_errmsg (Some str) False) then str @ [NL]
      else
        (if oracle \<and> error \<noteq> 0 then ''ERROR-'' @ d32_pad5 error @ '': ''
         else ''ERROR''
           @ (if error = 0 then []
              else case sqlstate of
                     Some state \<Rightarrow> '' '' @ d32 error @ '' ('' @ state @ '')''
                   | None \<Rightarrow> '' '' @ d32 error))
        @ (if s_query_start_line st \<noteq> 0 \<and> s_line_numbers st then
             '' at line '' @ dec_str (s_query_start_line st)
             @ (case s_file_name st of Some f \<Rightarrow> '' in file: '' @ [SQ] @ f @ [SQ] | None \<Rightarrow> [])
           else [])
        @ '': '' @ str @ [NL])"

definition error_prefix :: "cstring \<Rightarrow> nat \<Rightarrow> cstring option \<Rightarrow> bool \<Rightarrow> string" where
  "error_prefix str error sqlstate oracle =
     (if error \<noteq> 0 then
        (if oracle \<and> fst (trim_oracle_errmsg (Some str) False) then []
         else if oracle then ''ERROR-'' @ d32_pad5 error @ '': ''
         else case sqlstate of
                Some state \<Rightarrow> ''ERROR '' @ d32 error @ '' ('' @ state @ ''): ''
              | None \<Rightarrow> ''ERROR '' @ d32 error @ '': '')
      else ''ERROR: '')"

definition put_info ::
  "info_status \<Rightarrow> cstring \<Rightarrow> INFO_TYPE \<Rightarrow> nat \<Rightarrow> cstring option \<Rightarrow> bool \<Rightarrow> console \<Rightarrow> int \<times> console" where
  "put_info st str info_type error sqlstate oracle c =
     (let f = (if info_type = INFO_ERROR then STDERR else STDOUT) in
      if s_batch st then
        if info_type = INFO_ERROR then
          (if s_ignore_errors st then -1 else 1, put f (batch_error_text st str error sqlstate oracle) c)
        else (0, if info_type = INFO_RESULT \<and> s_verbose st > 1 then tee_puts str f c else c)
      else
        (if info_type = INFO_ERROR then (if s_ignore_errors st then -1 else 1) else 0,
         if s_silent st = 0 \<or> info_type = INFO_ERROR then
           (let c = (if info_type = INFO_ERROR then
                       tee_fprintf f (error_prefix str error sqlstate oracle)
                         (if s_nobeep st then c else put STDOUT [CHR 0x07] c)
                     else c)
            in tee_puts str f c)
         else c))"

section \<open>What is printed\<close>

definition file_text :: "FILE \<Rightarrow> console \<Rightarrow> string" where
  "file_text f c = concat (map snd (filter (\<lambda>w. fst w = f) (written c)))"

text \<open>
  An action prints \<open>s\<close> to the pager and \<open>t\<close> to the outfile, if there is one, whatever was
  printed before.
\<close>

definition prints :: "string \<Rightarrow> string \<Rightarrow> act \<Rightarrow> bool" where
  "prints s t p \<longleftrightarrow> (\<forall>c. PAGER c \<noteq> OUTFILE \<longrightarrow>
     (\<exists>c'. p c = Some c' \<and> PAGER c' = PAGER c \<and> opt_outfile c' = opt_outfile c
        \<and> file_text (PAGER c) c' = file_text (PAGER c) c @ s
        \<and> file_text OUTFILE c' = file_text OUTFILE c @ (if opt_outfile c then t else [])))"

named_theorems prints_intros \<open>what the actions print\<close>

lemma file_text_put [simp]: "file_text f (put g s c) = file_text f c @ (if f = g then s else [])"
  by (simp add: file_text_def put_def)

lemma put_simps [simp]: "PAGER (put f s c) = PAGER c" "opt_outfile (put f s c) = opt_outfile c"
  by (simp_all add: put_def)

lemma prints_tee [prints_intros]: "prints s s (tee s)"
  by (simp add: prints_def tee_def tee_fprintf_def Let_def)

lemma prints_tee_line [prints_intros]: "prints (s @ [NL]) (s @ [NL]) (tee_line s)"
  by (simp add: prints_def tee_line_def tee_puts_def Let_def)

lemma prints_raw [prints_intros]: "prints s [] (raw s)"
  by (simp add: prints_def raw_def)

lemma prints_Nil [prints_intros]: "prints [] [] (acts [])"
  by (simp add: prints_def)

lemma prints_seq:
  assumes "prints s t p" and "prints s' t' q"
  shows "prints (s @ s') (t @ t') (\<lambda>c. case p c of None \<Rightarrow> None | Some c' \<Rightarrow> q c')"
  unfolding prints_def
proof (intro allI impI)
  fix c :: console assume c: "PAGER c \<noteq> OUTFILE"
  obtain c1 where c1: "p c = Some c1" "PAGER c1 = PAGER c" "opt_outfile c1 = opt_outfile c"
    "file_text (PAGER c) c1 = file_text (PAGER c) c @ s"
    "file_text OUTFILE c1 = file_text OUTFILE c @ (if opt_outfile c then t else [])"
    using assms(1) c unfolding prints_def by blast
  obtain c2 where c2: "q c1 = Some c2" "PAGER c2 = PAGER c1" "opt_outfile c2 = opt_outfile c1"
    "file_text (PAGER c1) c2 = file_text (PAGER c1) c1 @ s'"
    "file_text OUTFILE c2 = file_text OUTFILE c1 @ (if opt_outfile c1 then t' else [])"
    using assms(2) c c1(2) unfolding prints_def by metis
  then show "\<exists>c'. (case p c of None \<Rightarrow> None | Some c' \<Rightarrow> q c') = Some c'
      \<and> PAGER c' = PAGER c \<and> opt_outfile c' = opt_outfile c
      \<and> file_text (PAGER c) c' = file_text (PAGER c) c @ s @ s'
      \<and> file_text OUTFILE c' = file_text OUTFILE c @ (if opt_outfile c then t @ t' else [])"
    using c1 by simp
qed

lemma acts_Cons: "acts (p # ps) = (\<lambda>c. case p c of None \<Rightarrow> None | Some c' \<Rightarrow> acts ps c')"
  by (rule ext) simp

lemma acts_append: "acts (ps @ qs) = (\<lambda>c. case acts ps c of None \<Rightarrow> None | Some c' \<Rightarrow> acts qs c')"
  by (rule ext, induction ps) (auto split: option.splits)

declare acts.simps [simp del]

lemma prints_Cons [prints_intros]:
  "prints s t p \<Longrightarrow> prints s' t' (acts ps) \<Longrightarrow> prints (s @ s') (t @ t') (acts (p # ps))"
  unfolding acts_Cons by (rule prints_seq)

lemma prints_append [prints_intros]:
  "prints s t (acts ps) \<Longrightarrow> prints s' t' (acts qs) \<Longrightarrow> prints (s @ s') (t @ t') (acts (ps @ qs))"
  unfolding acts_append by (rule prints_seq)

lemma prints_eq: "prints s t p \<Longrightarrow> s = s' \<Longrightarrow> t = t' \<Longrightarrow> prints s' t' p"
  by simp

lemma prints_one: "prints s t p \<Longrightarrow> prints s t (acts [p])"
  using prints_Cons [OF _ prints_Nil, of s t p] by simp

lemma prints_map:
  "(\<And>x. x \<in> set xs \<Longrightarrow> prints (f x) (g x) (p x)) \<Longrightarrow>
   prints (concat (map f xs)) (concat (map g xs)) (acts (map p xs))"
  by (induction xs) (auto intro: prints_intros)

lemma prints_concat:
  "(\<And>x. x \<in> set xs \<Longrightarrow> prints (f x) (g x) (acts (h x))) \<Longrightarrow>
   prints (concat (map f xs)) (concat (map g xs)) (acts (concat (map h xs)))"
  by (induction xs) (auto intro: prints_intros)


section \<open>Encodings of characters\<close>

text \<open>
  Text is encoded character by character so that it can be read back. \<open>decode\<close> reads with
  at most the given number of steps.
\<close>

fun decode :: "(string \<Rightarrow> (char \<times> string) option) \<Rightarrow> nat \<Rightarrow> string \<Rightarrow> string" where
  "decode dec 0 s = []"
| "decode dec (Suc n) s = (case dec s of None \<Rightarrow> [] | Some (c, r) \<Rightarrow> c # decode dec n r)"

locale char_codec =
  fixes enc :: "char \<Rightarrow> string"
    and dec :: "string \<Rightarrow> (char \<times> string) option"
    and shown :: "char \<Rightarrow> char"
    and reserved :: "char set"
  assumes dec_Nil: "dec [] = None"
    and dec_enc: "dec (enc c @ r) = Some (shown c, r)"
    and enc_reserved: "set (enc c) \<inter> reserved = {}"
begin

lemma enc_nonempty: "enc c \<noteq> []"
proof
  assume "enc c = []"
  then have "dec [] = Some (shown c, [])" using dec_enc [of c "[]"] by simp
  then show False by (simp add: dec_Nil)
qed

lemma decode_steps: "length s \<le> n \<Longrightarrow> decode dec n (concat (map enc s)) = map shown s"
proof (induction s arbitrary: n)
  case Nil
  then show ?case by (cases n) (simp_all add: dec_Nil)
next
  case (Cons c s)
  then show ?case by (cases n) (simp_all add: dec_enc)
qed

lemma length_encoded: "length s \<le> length (concat (map enc s))"
proof (induction s)
  case (Cons c s)
  then show ?case using enc_nonempty [of c] by (cases "enc c") auto
qed simp

lemma decode_encode: "decode dec (length (concat (map enc s))) (concat (map enc s)) = map shown s"
  by (rule decode_steps [OF length_encoded])

lemma encoded_reserved: "set (concat (map enc s)) \<inter> reserved = {}"
  using enc_reserved by auto

end

definition shown_char :: "char \<Rightarrow> char" where
  "shown_char c = (if c = NUL then CHR '' '' else c)"

definition xml_dec :: "string \<Rightarrow> (char \<times> string) option" where
  "xml_dec s =
     (if prefix ''&amp;'' s then Some (CHR ''&'', drop 5 s)
      else if prefix ''&lt;'' s then Some (CHR ''<'', drop 4 s)
      else if prefix ''&gt;'' s then Some (CHR ''>'', drop 4 s)
      else if prefix ''&quot;'' s then Some (DQ, drop 6 s)
      else case s of [] \<Rightarrow> None | c # r \<Rightarrow> Some (c, r))"

lemma xml_char_simps: "xml_char c =
    (if c = CHR ''&'' then ''&amp;'' else if c = CHR ''<'' then ''&lt;'' else if c = CHR ''>'' then ''&gt;''
     else if c = DQ then ''&quot;'' else if c = NUL then '' '' else [c])"
  by (simp add: xml_char_def xmlmeta_def)

interpretation xml: char_codec xml_char xml_dec shown_char "{CHR ''<'', CHR ''>'', DQ, NUL}"
  by unfold_locales (auto simp: xml_dec_def xml_char_simps shown_char_def)

definition tab_dec :: "string \<Rightarrow> (char \<times> string) option" where
  "tab_dec s =
     (case s of
        [] \<Rightarrow> None
      | c # r \<Rightarrow>
          if c \<noteq> BSL then Some (c, r)
          else case r of
                 [] \<Rightarrow> Some (c, r)
               | d # r \<Rightarrow> Some (if d = CHR ''0'' then NUL else if d = CHR ''t'' then TAB
                               else if d = CHR ''n'' then NL else d, r))"

interpretation tab: char_codec safe_char tab_dec id "{TAB, NL, NUL}"
  by unfold_locales (auto simp: tab_dec_def safe_char_def)

definition xml_decode :: "string \<Rightarrow> string" where
  "xml_decode t = decode xml_dec (length t) t"

definition tab_decode :: "string \<Rightarrow> string" where
  "tab_decode t = decode tab_dec (length t) t"

lemma xml_decode_encode: "xml_decode (xmlencode s) = map shown_char s"
  unfolding xml_decode_def xmlencode_def by (rule xml.decode_encode)

lemma xmlencode_reserved: "set (xmlencode s) \<inter> {CHR ''<'', CHR ''>'', DQ, NUL} = {}"
  unfolding xmlencode_def by (rule xml.encoded_reserved)

lemma safe_field_chars: "\<not> use_mb (charset cfg) \<Longrightarrow> safe_field cfg s = concat (map safe_char s)"
  by (induction s) auto

lemma tab_decode_field: "\<not> use_mb (charset cfg) \<Longrightarrow> tab_decode (safe_field cfg s) = s"
  using tab.decode_encode [of s] by (simp add: tab_decode_def safe_field_chars)

lemma safe_field_reserved: "\<not> use_mb (charset cfg) \<Longrightarrow> set (safe_field cfg s) \<inter> {TAB, NL, NUL} = {}"
  using tab.encoded_reserved [of s] by (simp add: safe_field_chars)

section \<open>Splitting\<close>

fun split_on :: "char \<Rightarrow> string \<Rightarrow> string list" where
  "split_on c [] = [[]]"
| "split_on c (x # s) =
     (if x = c then [] # split_on c s
      else case split_on c s of [] \<Rightarrow> [[x]] | p # ps \<Rightarrow> (x # p) # ps)"

definition join :: "char \<Rightarrow> string list \<Rightarrow> string" where
  "join c xs = (case xs of [] \<Rightarrow> [] | x # xs \<Rightarrow> x @ concat (map (Cons c) xs))"

lemma split_on_not_Nil [simp]: "split_on c s \<noteq> []"
  by (induction s) (auto split: list.splits)

lemma split_on_free: "c \<notin> set s \<Longrightarrow> split_on c s = [s]"
  by (induction s) auto

lemma split_on_append: "c \<notin> set s \<Longrightarrow> split_on c (s @ c # t) = s # split_on c t"
  by (induction s) auto

lemma split_on_concat: "c \<notin> set s \<Longrightarrow> \<forall>x \<in> set xs. c \<notin> set x \<Longrightarrow>
    split_on c (s @ concat (map (Cons c) xs)) = s # xs"
  by (induction xs arbitrary: s) (auto simp: split_on_append split_on_free)

lemma split_on_join: "xs \<noteq> [] \<Longrightarrow> \<forall>x \<in> set xs. c \<notin> set x \<Longrightarrow> split_on c (join c xs) = xs"
  by (cases xs) (auto simp: join_def split_on_concat)

lemma set_join: "set (join c xs) \<subseteq> insert c (\<Union>x \<in> set xs. set x)"
  by (auto simp: join_def split: list.splits)

lemma split_on_lines: "\<forall>x \<in> set xs. c \<notin> set x \<Longrightarrow>
    split_on c (concat (map (\<lambda>x. x @ [c]) xs)) = xs @ [[]]"
  by (induction xs) (auto simp: split_on_append)

section \<open>Tab-separated output\<close>

definition cell_shown :: "cell \<Rightarrow> string" where
  "cell_shown x = (case x of None \<Rightarrow> ''NULL'' | Some s \<Rightarrow> s)"

definition tab_text :: "settings \<Rightarrow> cell \<Rightarrow> string" where
  "tab_text cfg x = (case x of None \<Rightarrow> ''NULL'' | Some s \<Rightarrow> safe_field cfg s)"

text \<open>The mode in which every cell is printed as its own text.\<close>

definition plain_mode :: "settings \<Rightarrow> bool" where
  "plain_mode cfg \<longleftrightarrow> \<not> oracle_mode cfg \<and> \<not> opt_binhex cfg \<and> \<not> opt_raw_data cfg
     \<and> \<not> use_mb (charset cfg) \<and> (\<forall>s. cs_numcells (charset cfg) s = length s)
     \<and> \<not> column_types_flag cfg \<and> (\<forall>i. \<not> interrupted cfg i)"

definition wf_result :: "mysql_res \<Rightarrow> bool" where
  "wf_result r \<longleftrightarrow> r_fields r \<noteq> [] \<and> (\<forall>row \<in> set (r_rows r). length row = length (r_fields r))"

definition parse_tab :: "string \<Rightarrow> string list list" where
  "parse_tab t = map (\<lambda>l. map tab_decode (split_on TAB l)) (butlast (split_on NL t))"

lemma plain_termout: "plain_mode cfg \<Longrightarrow> is_termout_oracle_enable cfg"
  by (simp add: plain_mode_def is_termout_oracle_enable_def)

lemma prints_tab_cell: "plain_mode cfg \<Longrightarrow> prints (tab_text cfg x) (tab_text cfg x) (tab_cell cfg f x)"
  by (cases x) (auto simp: plain_mode_def tab_cell_def safe_put_field_def tab_text_def prints_tee)

lemma prints_tab_cells: "length fs = length xs \<Longrightarrow> plain_mode cfg \<Longrightarrow>
    prints (concat (map (\<lambda>x. TAB # tab_text cfg x) xs)) (concat (map (\<lambda>x. TAB # tab_text cfg x) xs))
      (acts (concat (map2 (\<lambda>f x. [tee [TAB], tab_cell cfg f x]) fs xs)))"
proof (induction fs xs rule: list_induct2)
  case (Cons f fs x xs)
  have "prints ([TAB] @ tab_text cfg x @ concat (map (\<lambda>x. TAB # tab_text cfg x) xs))
      ([TAB] @ tab_text cfg x @ concat (map (\<lambda>x. TAB # tab_text cfg x) xs))
      (acts (tee [TAB] # tab_cell cfg f x # concat (map2 (\<lambda>f x. [tee [TAB], tab_cell cfg f x]) fs xs)))"
    using Cons by (intro prints_Cons prints_tee prints_tab_cell)
  then show ?case by simp
qed (simp add: prints_Nil)

lemma prints_tab_row:
  assumes "plain_mode cfg" and "length row = length fs" and "fs \<noteq> []"
  shows "prints (join TAB (map (tab_text cfg) row) @ [NL]) (join TAB (map (tab_text cfg) row) @ [NL])
    (acts (tab_row cfg fs row))"
proof -
  obtain f fs' x xs where fs: "fs = f # fs'" "row = x # xs" "length fs' = length xs"
    using assms(2,3) by (cases fs; cases row) auto
  let ?t = "concat (map (\<lambda>x. TAB # tab_text cfg x) xs)"
  have "prints (tab_text cfg x @ ?t @ [NL]) (tab_text cfg x @ ?t @ [NL]) (acts (tab_cell cfg f x
      # concat (map2 (\<lambda>f x. [tee [TAB], tab_cell cfg f x]) fs' xs) @ [tee [NL]]))"
    using assms(1) fs(3)
    by (intro prints_Cons prints_append prints_one prints_tee prints_tab_cell prints_tab_cells)
  then show ?thesis by (simp add: fs tab_row_def join_def comp_def)
qed

lemma prints_tab_names: "prints (concat (map (\<lambda>f. TAB # f_name f) fs)) (concat (map (\<lambda>f. TAB # f_name f) fs))
    (acts (tab_names False fs))"
proof (induction fs)
  case (Cons f fs)
  have "prints ([TAB] @ f_name f @ concat (map (\<lambda>f. TAB # f_name f) fs))
      ([TAB] @ f_name f @ concat (map (\<lambda>f. TAB # f_name f) fs)) (acts (tee [TAB] # tee (f_name f) # tab_names False fs))"
    using Cons by (intro prints_Cons prints_tee)
  then show ?case by simp
qed (simp add: prints_Nil)

lemma prints_tab_header: "fs \<noteq> [] \<Longrightarrow>
    prints (join TAB (map f_name fs) @ [NL]) (join TAB (map f_name fs) @ [NL]) (acts (tab_names True fs @ [tee [NL]]))"
proof (cases fs)
  case (Cons f fs')
  let ?t = "concat (map (\<lambda>f. TAB # f_name f) fs')"
  have "prints (f_name f @ ?t @ [NL]) (f_name f @ ?t @ [NL]) (acts (tee (f_name f) # tab_names False fs' @ [tee [NL]]))"
    by (intro prints_Cons prints_append prints_one prints_tee prints_tab_names)
  then show ?thesis using Cons by (simp add: join_def comp_def)
qed simp

definition tab_lines :: "settings \<Rightarrow> mysql_res \<Rightarrow> string list list" where
  "tab_lines cfg r =
     (if opt_silent cfg < 2 \<and> column_names cfg then [map f_name (r_fields r)] else [])
     @ map (map (tab_text cfg)) (r_rows r)"

lemma prints_tab_data:
  assumes "plain_mode cfg" and "wf_result r"
  shows "prints (concat (map (\<lambda>l. join TAB l @ [NL]) (tab_lines cfg r)))
    (concat (map (\<lambda>l. join TAB l @ [NL]) (tab_lines cfg r))) (print_tab_data cfg r)"
proof -
  let ?rows = "concat (map (\<lambda>row. join TAB (map (tab_text cfg) row) @ [NL]) (r_rows r))"
  have rows: "prints ?rows ?rows (acts (concat (map (tab_row cfg (r_fields r)) (r_rows r))))"
    using assms by (intro prints_concat prints_tab_row) (auto simp: wf_result_def)
  have head: "prints (join TAB (map f_name (r_fields r)) @ [NL]) (join TAB (map f_name (r_fields r)) @ [NL])
      (acts (tab_names True (r_fields r) @ [tee [NL]]))"
    using assms(2) by (intro prints_tab_header) (simp add: wf_result_def)
  show ?thesis
    using rows prints_append [OF head rows] plain_termout [OF assms(1)]
    by (simp add: print_tab_data_def tab_lines_def comp_def)
qed

lemma parse_tab_lines:
  assumes "\<forall>l \<in> set ls. l \<noteq> [] \<and> (\<forall>x \<in> set l. TAB \<notin> set x \<and> NL \<notin> set x)"
  shows "parse_tab (concat (map (\<lambda>l. join TAB l @ [NL]) ls)) = map (map tab_decode) ls"
proof -
  have nl: "NL \<notin> set (join TAB l)" if "l \<in> set ls" for l
    using assms that set_join [of TAB l] by auto
  have "split_on NL (concat (map (\<lambda>x. x @ [NL]) (map (join TAB) ls))) = map (join TAB) ls @ [[]]"
    using nl by (intro split_on_lines) auto
  moreover have "split_on TAB (join TAB l) = l" if "l \<in> set ls" for l
    using assms that by (intro split_on_join) auto
  ultimately show ?thesis by (simp add: parse_tab_def comp_def)
qed

lemma decode_plain: "length s \<le> n \<Longrightarrow> BSL \<notin> set s \<Longrightarrow> decode tab_dec n s = s"
proof (induction s arbitrary: n)
  case Nil
  then show ?case by (cases n) (simp_all add: tab_dec_def)
next
  case (Cons c s)
  then have "tab_dec (c # s) = Some (c, s)" by (auto simp: tab_dec_def)
  with Cons show ?case by (cases n) simp_all
qed

lemma tab_decode_plain: "BSL \<notin> set s \<Longrightarrow> tab_decode s = s"
  by (simp add: tab_decode_def decode_plain)

lemma tab_text_facts:
  assumes "plain_mode cfg"
  shows "TAB \<notin> set (tab_text cfg x)" "NL \<notin> set (tab_text cfg x)" "tab_decode (tab_text cfg x) = cell_shown x"
  using assms safe_field_reserved [of cfg] tab_decode_field [of cfg] tab_decode_plain [of "''NULL''"]
  by (cases x; force simp: plain_mode_def tab_text_def cell_shown_def)+


text \<open>A small result to apply the properties to.\<close>

definition sample_field :: "cstring \<Rightarrow> nat \<Rightarrow> nat \<Rightarrow> mysql_field" where
  "sample_field name flags max_len = \<lparr>f_name = name, f_org_table = ''t'', f_table = ''t'', f_db = ''d'',
     f_catalog = ''def'', f_length = 11, f_max_length = max_len, f_name_length = length name, f_flags = flags,
     f_decimals = 0, f_charsetnr = 8, f_type = MYSQL_TYPE_VAR_STRING\<rparr>"

definition sample_res :: mysql_res where
  "sample_res = \<lparr>r_fields = [sample_field ''id'' 1 1, sample_field ''text'' 0 6],
     r_rows = [[Some ''1'', Some (''a<b'' @ [TAB, NL])], [Some ''2'', None]]\<rparr>"

definition sample_settings :: settings where
  "sample_settings = \<lparr>column_names = True, quick = False, oracle_mode = False, opt_binhex = False,
     opt_raw_data = False, column_types_flag = False, force_set_num_width_close = False, in_com_source = False,
     is_termout_oracle = True, opt_silent = 0, charset = my_charset_latin1, is_num = (\<lambda>t. False),
     is_num_terminal = (\<lambda>t. False), is_num_binary_terminal = (\<lambda>t. False), get_charset_name = (\<lambda>n. ''latin1''),
     interrupted = (\<lambda>i. False)\<rparr>"

definition sample_console :: console where
  "sample_console = \<lparr>written = [], opt_outfile = True, PAGER = STDOUT, obclient_num_width = 10,
     obclient_num_array = replicate OB_NUM_ARRAY NUL, str_num_object = zero_number\<rparr>"

lemma sample_plain: "plain_mode sample_settings"
  by (simp add: plain_mode_def sample_settings_def use_mb_def my_charset_latin1_def my_numcells_8bit_def)

lemma sample_wf: "wf_result sample_res"
  by (simp add: wf_result_def sample_res_def)

lemma sample_simps:
  "PAGER sample_console = STDOUT" "opt_outfile sample_console" "opt_silent sample_settings = 0"
  "column_names sample_settings" "map f_name (r_fields sample_res) = [''id'', ''text'']"
  "map (map cell_shown) (r_rows sample_res) = [[''1'', ''a<b'' @ [TAB, NL]], [''2'', ''NULL'']]"
  "length (r_rows sample_res) = 2"
  by (simp_all add: sample_console_def sample_settings_def sample_res_def sample_field_def cell_shown_def)

lemma sample_pager: "PAGER sample_console \<noteq> OUTFILE" "opt_outfile sample_console"
    "file_text f sample_console = []"
  by (simp_all add: sample_console_def file_text_def)


section \<open>HTML output\<close>

definition html_text :: "cell \<Rightarrow> string" where
  "html_text x = (case x of None \<Rightarrow> ''NULL'' | Some s \<Rightarrow> xmlencode s)"

text \<open>The contents of the \<open>TD\<close> elements of a page, decoded.\<close>

definition td_texts :: "string \<Rightarrow> string list" where
  "td_texts t = map (xml_decode \<circ> drop 3) (filter (prefix ''TD>'') (split_on CHR ''<'' t))"

definition html_row_pieces :: "cell list \<Rightarrow> string list" where
  "html_row_pieces row = [''TR>''] @ concat (map (\<lambda>x. [''TD>'' @ html_text x, ''/TD>'']) row) @ [''/TR>'']"

definition html_head_pieces :: "mysql_field list \<Rightarrow> string list" where
  "html_head_pieces fs = [''TR>''] @ concat (map (\<lambda>f.
     [''TH>'' @ (if f_name f \<noteq> [] then xmlencode (take (f_name_length f) (f_name f)) else '' &nbsp; ''), ''/TH>'']) fs)
     @ [''/TR>'']"

definition html_pieces :: "settings \<Rightarrow> mysql_res \<Rightarrow> string list" where
  "html_pieces cfg r = [''TABLE BORDER=1>''] @ (if column_names cfg then html_head_pieces (r_fields r) else [])
     @ concat (map html_row_pieces (r_rows r)) @ [''/TABLE>'']"

abbreviation tags :: "string list \<Rightarrow> string" where
  "tags ps \<equiv> concat (map (Cons CHR ''<'') ps)"

lemma tags_concat: "tags (concat pss) = concat (map (\<lambda>ps. tags ps) pss)"
  by (induction pss) auto

lemma printed_rows_plain: "plain_mode cfg \<Longrightarrow> map snd (printed_rows cfg r) = r_rows r"
proof -
  assume "plain_mode cfg"
  then have "printed_rows cfg r = enumerate 0 (r_rows r)"
    unfolding printed_rows_def by (intro takeWhile_eq_all_conv [THEN iffD2]) (auto simp: plain_mode_def)
  then show ?thesis by simp
qed

lemma prints_rows:
  assumes "plain_mode cfg"
    and "\<And>row. row \<in> set (r_rows r) \<Longrightarrow> prints (f row) (f row) (acts (h row))"
  shows "prints (concat (map f (r_rows r))) (concat (map f (r_rows r)))
    (acts (concat (map (\<lambda>(i, row). h row) (printed_rows cfg r))))"
proof -
  have m: "map g (r_rows r) = map (\<lambda>p. g (snd p)) (printed_rows cfg r)" for g :: "cell list \<Rightarrow> 'x"
    by (simp flip: printed_rows_plain [OF assms(1)])
  show ?thesis
    unfolding m case_prod_beta using assms(2) printed_rows_plain [OF assms(1), of r]
    by (intro prints_concat) (metis image_eqI set_map)
qed

lemma prints_markup_cell: "plain_mode cfg \<Longrightarrow> prints (html_text x) (html_text x) (markup_cell cfg f t x)"
  by (cases x) (simp_all add: plain_mode_def markup_cell_def xmlencode_print_def html_text_def prints_tee)

lemma prints_td:
  assumes "plain_mode cfg"
  shows "prints (tags [''TD>'' @ html_text x, ''/TD>'']) (tags [''TD>'' @ html_text x, ''/TD>''])
    (acts [tee ''<TD>'', markup_cell cfg f t x, tee ''</TD>''])"
proof -
  have "prints (''<TD>'' @ html_text x @ ''</TD>'' @ []) (''<TD>'' @ html_text x @ ''</TD>'' @ [])
      (acts [tee ''<TD>'', markup_cell cfg f t x, tee ''</TD>''])"
    using assms by (intro prints_Cons prints_tee prints_markup_cell prints_Nil)
  then show ?thesis by simp
qed

lemma prints_tds: "length fs = length row \<Longrightarrow> plain_mode cfg \<Longrightarrow>
    prints (tags (concat (map (\<lambda>x. [''TD>'' @ html_text x, ''/TD>'']) row)))
      (tags (concat (map (\<lambda>x. [''TD>'' @ html_text x, ''/TD>'']) row)))
      (acts (concat (map2 (\<lambda>f x. [tee ''<TD>'', markup_cell cfg f t x, tee ''</TD>'']) fs row)))"
proof (induction fs row rule: list_induct2)
  case (Cons f fs x row)
  then have "prints (tags [''TD>'' @ html_text x, ''/TD>''] @ tags (concat (map (\<lambda>x. [''TD>'' @ html_text x, ''/TD>'']) row)))
      (tags [''TD>'' @ html_text x, ''/TD>''] @ tags (concat (map (\<lambda>x. [''TD>'' @ html_text x, ''/TD>'']) row)))
      (acts ([tee ''<TD>'', markup_cell cfg f t x, tee ''</TD>'']
        @ concat (map2 (\<lambda>f x. [tee ''<TD>'', markup_cell cfg f t x, tee ''</TD>'']) fs row)))"
    by (intro prints_append prints_td)
  then show ?case by simp
qed (simp add: prints_Nil)

lemma prints_html_row:
  assumes "plain_mode cfg" and "length row = length fs"
  shows "prints (tags (html_row_pieces row)) (tags (html_row_pieces row)) (acts (html_row cfg fs row))"
proof -
  let ?t = "tags (concat (map (\<lambda>x. [''TD>'' @ html_text x, ''/TD>'']) row))"
  have "prints (''<TR>'' @ ?t @ ''</TR>'') (''<TR>'' @ ?t @ ''</TR>'') (acts (html_row cfg fs row))"
    unfolding html_row_def using assms by (intro prints_append prints_one prints_tee prints_tds) auto
  then show ?thesis by (simp add: html_row_pieces_def)
qed

lemma prints_html_head: "prints (tags (html_head_pieces fs)) (tags (html_head_pieces fs))
    (acts ([tee ''<TR>''] @ concat (map html_head fs) @ [tee ''</TR>'']))"
proof -
  let ?n = "\<lambda>f. if f_name f \<noteq> [] then xmlencode (take (f_name_length f) (f_name f)) else '' &nbsp; ''"
  have h: "prints (''<TH>'' @ ?n f @ ''</TH>'' @ []) (''<TH>'' @ ?n f @ ''</TH>'' @ []) (acts (html_head f))" for f
    unfolding html_head_def by (intro prints_Cons prints_Nil prints_tee) (simp add: xmlencode_print_def prints_tee)
  have "prints (''<TR>'' @ concat (map (\<lambda>f. ''<TH>'' @ ?n f @ ''</TH>'' @ []) fs) @ ''</TR>'')
      (''<TR>'' @ concat (map (\<lambda>f. ''<TH>'' @ ?n f @ ''</TH>'' @ []) fs) @ ''</TR>'')
      (acts ([tee ''<TR>''] @ concat (map html_head fs) @ [tee ''</TR>'']))"
    by (intro prints_append prints_one prints_tee prints_concat h)
  moreover have "tags (concat (map (\<lambda>f. [''TH>'' @ ?n f, ''/TH>'']) fs))
      = concat (map (\<lambda>f. ''<TH>'' @ ?n f @ ''</TH>'' @ []) fs)"
    by (induction fs) auto
  ultimately show ?thesis by (simp add: html_head_pieces_def)
qed

lemma prints_html:
  assumes "plain_mode cfg" and "wf_result r"
  shows "prints (tags (html_pieces cfg r)) (tags (html_pieces cfg r)) (print_table_data_html cfg r)"
proof -
  have rows: "prints (concat (map (\<lambda>row. tags (html_row_pieces row)) (r_rows r)))
      (concat (map (\<lambda>row. tags (html_row_pieces row)) (r_rows r)))
      (acts (concat (map (\<lambda>(i, row). html_row cfg (r_fields r) row) (printed_rows cfg r))))"
    using assms by (intro prints_rows prints_html_row) (auto simp: wf_result_def)
  let ?h = "if column_names cfg then tags (html_head_pieces (r_fields r)) else []"
  have head: "prints ?h ?h (acts (if column_names cfg
      then [tee ''<TR>''] @ concat (map html_head (r_fields r)) @ [tee ''</TR>''] else []))"
    using prints_html_head [of "r_fields r"] prints_Nil by simp
  let ?t = "''<TABLE BORDER=1>'' @ ?h @ concat (map (\<lambda>row. tags (html_row_pieces row)) (r_rows r)) @ ''</TABLE>''"
  have "prints ?t ?t (print_table_data_html cfg r)"
    unfolding print_table_data_html_def
    by (intro prints_append prints_one prints_tee head rows)
  moreover have "?t = tags (html_pieces cfg r)" by (simp add: html_pieces_def tags_concat comp_def)
  ultimately show ?thesis by simp
qed


lemma split_tags: "\<forall>p \<in> set ps. CHR ''<'' \<notin> set p \<Longrightarrow> split_on CHR ''<'' (tags ps) = [] # ps"
  using split_on_concat [of "CHR ''<''" "[]" ps] by simp

lemma xmlencode_no_lt: "CHR ''<'' \<notin> set (xmlencode s)"
  using xmlencode_reserved [of s] by blast

lemma html_text_no_lt: "CHR ''<'' \<notin> set (html_text x)"
  by (cases x) (simp_all add: html_text_def xmlencode_no_lt)

lemma html_pieces_no_lt: "\<forall>p \<in> set (html_pieces cfg r). CHR ''<'' \<notin> set p"
  by (auto simp: html_pieces_def html_head_pieces_def html_row_pieces_def html_text_no_lt xmlencode_no_lt)

lemma html_text_decode: "xml_decode (html_text x) = map shown_char (cell_shown x)"
proof (cases x)
  case None
  have "xmlencode ''NULL'' = ''NULL''" by (simp add: xmlencode_def xml_char_simps)
  then show ?thesis using None xml_decode_encode [of "''NULL''"] by (simp add: html_text_def cell_shown_def)
qed (simp add: html_text_def cell_shown_def xml_decode_encode)

lemma html_row_tds: "filter (prefix ''TD>'') (html_row_pieces row) = map (\<lambda>x. ''TD>'' @ html_text x) row"
  unfolding html_row_pieces_def by (induction row) auto

lemma html_head_tds: "filter (prefix ''TD>'') (html_head_pieces fs) = []"
  by (auto simp: html_head_pieces_def filter_empty_conv)

lemma html_pieces_tds: "filter (prefix ''TD>'') (html_pieces cfg r)
    = concat (map (map (\<lambda>x. ''TD>'' @ html_text x)) (r_rows r))"
  by (simp add: html_pieces_def html_head_tds filter_concat html_row_tds comp_def)



section \<open>Tables\<close>

definition table_text :: "settings \<Rightarrow> mysql_field \<Rightarrow> cell \<Rightarrow> string" where
  "table_text cfg f x =
     (let d = cell_shown x; pad = spaces (column_width cfg f - length d); t = map shown_char d
      in if is_num cfg (f_type f) then pad @ t else t @ pad)"

fun cells_text :: "settings \<Rightarrow> bool \<Rightarrow> mysql_field list \<Rightarrow> cell list \<Rightarrow> string" where
  "cells_text cfg off (f # fs) (x # xs) =
     (if off then '' '' else []) @ table_text cfg f x @ '' |'' @ cells_text cfg True fs xs"
| "cells_text cfg off _ _ = []"

definition table_lines :: "settings \<Rightarrow> mysql_res \<Rightarrow> string list" where
  "table_lines cfg r =
     [separator cfg (r_fields r)]
     @ (if column_names cfg
        then [''|'' @ concat (map (header_cell cfg) (r_fields r)), separator cfg (r_fields r)] else [])
     @ map (\<lambda>row. ''| '' @ cells_text cfg False (r_fields r) row) (r_rows r)
     @ [separator cfg (r_fields r)]"

text \<open>
  The library sets \<open>max_length\<close> to the length of the longest value of a column; columns are
  not wider than \<open>MAX_COLUMN_LENGTH\<close>.
\<close>

definition sized_result :: "settings \<Rightarrow> mysql_res \<Rightarrow> bool" where
  "sized_result cfg r \<longleftrightarrow> wf_result r \<and> \<not> quick cfg
     \<and> (\<forall>f \<in> set (r_fields r). f_name_length f = length (f_name f)
          \<and> length (f_name f) \<le> MAX_COLUMN_LENGTH \<and> f_max_length f \<le> MAX_COLUMN_LENGTH)
     \<and> (\<forall>row \<in> set (r_rows r). list_all2 (\<lambda>f x. length (cell_text x) \<le> f_max_length f) (r_fields r) row)"

lemma sample_sized: "sized_result sample_settings sample_res"
  by (simp add: sized_result_def wf_result_def sample_settings_def sample_res_def sample_field_def cell_text_def)

definition natural_width :: "settings \<Rightarrow> mysql_field \<Rightarrow> nat" where
  "natural_width cfg f = max (if column_names cfg then length (f_name f) else 0) (f_max_length f)"

definition table_width :: "settings \<Rightarrow> mysql_res \<Rightarrow> nat" where
  "table_width cfg r = 1 + sum_list (map (\<lambda>f. max 4 (natural_width cfg f) + 3) (r_fields r))"

lemma u32_small: "n < 4294967296 \<Longrightarrow> u32 (int n) = n"
  by (simp add: u32_def)

lemma column_width_plain:
  assumes "plain_mode cfg" and "sized_result cfg r" and "f \<in> set (r_fields r)"
  shows "column_width cfg f = max 4 (natural_width cfg f)"
    and "natural_width cfg f \<le> MAX_COLUMN_LENGTH"
proof -
  show le: "natural_width cfg f \<le> MAX_COLUMN_LENGTH"
    using assms by (auto simp: sized_result_def natural_width_def)
  then have "u32 (int (natural_width cfg f)) = natural_width cfg f" by (intro u32_small) simp
  then show "column_width cfg f = max 4 (natural_width cfg f)"
    using assms unfolding natural_width_def
    by (auto simp: column_width_def plain_mode_def sized_result_def Let_def)
qed


lemma prints_table_cell:
  assumes "plain_mode cfg" and "sized_result cfg r" and "f \<in> set (r_fields r)"
  shows "prints (table_text cfg f x) (table_text cfg f x) (table_cell cfg f x)"
proof -
  have w: "column_width cfg f \<le> MAX_COLUMN_LENGTH" using column_width_plain [OF assms] by simp
  then have u: "u32 (int (column_width cfg f)) = column_width cfg f" by (intro u32_small) simp
  have c: "(\<lambda>c. if c = NUL then CHR '' '' else c) = shown_char" by (auto simp: shown_char_def)
  have "table_cell cfg f x = tee_print_sized_data (cell_shown x) (column_width cfg f) (is_num cfg (f_type f))"
    using assms(1) w u
    by (simp add: table_cell_def plain_mode_def cell_shown_def Let_def u32_def split: option.splits)
  then show ?thesis
    by (simp add: tee_print_sized_data_def table_text_def c Let_def prints_tee)
qed

lemma prints_row_cells:
  assumes "plain_mode cfg" and "sized_result cfg r"
  shows "length fs = length xs \<Longrightarrow> set fs \<subseteq> set (r_fields r) \<Longrightarrow>
    prints (cells_text cfg off fs xs) (cells_text cfg off fs xs) (acts (row_cells cfg off fs xs))"
proof (induction fs xs arbitrary: off rule: list_induct2)
  case (Cons f fs x xs)
  let ?b = "if off then '' '' else []" and ?t = "cells_text cfg True fs xs"
  have b: "prints ?b ?b (acts (if off then [tee '' ''] else []))"
    by (simp add: prints_one prints_tee prints_Nil)
  have "prints (?b @ (table_text cfg f x @ '' |'' @ []) @ ?t) (?b @ (table_text cfg f x @ '' |'' @ []) @ ?t)
      (acts ((if off then [tee '' ''] else []) @ [table_cell cfg f x, tee '' |''] @ row_cells cfg True fs xs))"
    using Cons by (intro prints_append prints_Cons prints_Nil prints_tee b prints_table_cell [OF assms]) auto
  then show ?case by simp
qed (simp add: prints_Nil)

lemma prints_table_row:
  assumes "plain_mode cfg" and "sized_result cfg r" and "length row = length (r_fields r)"
  shows "prints ((''| '' @ cells_text cfg False (r_fields r) row) @ [NL])
    ((''| '' @ cells_text cfg False (r_fields r) row) @ [NL]) (acts (table_row cfg (r_fields r) row))"
  unfolding table_row_def append_assoc using assms(3)
  by (intro prints_append prints_one prints_tee prints_row_cells [OF assms(1,2)]) auto

lemma prints_table:
  assumes "plain_mode cfg" and "sized_result cfg r"
  shows "prints (concat (map (\<lambda>l. l @ [NL]) (table_lines cfg r))) (concat (map (\<lambda>l. l @ [NL]) (table_lines cfg r)))
    (print_table_data cfg r)"
proof -
  let ?fs = "r_fields r" and ?sep = "separator cfg (r_fields r)"
  let ?row = "\<lambda>row. (''| '' @ cells_text cfg False ?fs row) @ [NL]"
  let ?head = "''|'' @ concat (map (header_cell cfg) ?fs) @ [NL] @ (?sep @ [NL])"
  let ?h = "if column_names cfg then ?head else []"
  have rows: "prints (concat (map ?row (r_rows r))) (concat (map ?row (r_rows r)))
      (acts (concat (map (\<lambda>(i, row). table_row cfg ?fs row) (printed_rows cfg r))))"
    using assms by (intro prints_rows prints_table_row) (auto simp: sized_result_def wf_result_def)
  have "prints (''|'' @ concat (map (header_cell cfg) ?fs) @ [NL] @ (?sep @ [NL]) @ [])
      (''|'' @ concat (map (header_cell cfg) ?fs) @ [NL] @ (?sep @ [NL]) @ [])
      (acts (tee ''|'' # map (\<lambda>f. tee (header_cell cfg f)) ?fs @ [tee [NL], tee_line ?sep]))"
    by (intro prints_Cons prints_append prints_map prints_Nil prints_tee prints_tee_line)
  then have head: "prints ?h ?h (acts (if column_names cfg
      then tee ''|'' # map (\<lambda>f. tee (header_cell cfg f)) ?fs @ [tee [NL], tee_line ?sep] else []))"
    by (simp add: prints_Nil)
  let ?t = "((?sep @ [NL]) @ ?h) @ concat (map ?row (r_rows r)) @ (?sep @ [NL])"
  have "prints ?t ?t (acts ((tee_line ?sep # (if column_names cfg
      then tee ''|'' # map (\<lambda>f. tee (header_cell cfg f)) ?fs @ [tee [NL], tee_line ?sep] else []))
      @ concat (map (\<lambda>(i, row). table_row cfg ?fs row) (printed_rows cfg r)) @ [tee_line ?sep]))"
    by (intro prints_Cons prints_append prints_one prints_tee_line head rows)
  moreover have "?t = concat (map (\<lambda>l. l @ [NL]) (table_lines cfg r))"
    by (simp add: table_lines_def comp_def)
  ultimately show ?thesis
    using plain_termout [OF assms(1)] assms(1) by (simp add: print_table_data_def Let_def plain_mode_def)
qed

lemma length_cell:
  assumes "plain_mode cfg" and "sized_result cfg r" and "f \<in> set (r_fields r)"
    and "length (cell_text x) \<le> f_max_length f"
  shows "length (table_text cfg f x) = max 4 (natural_width cfg f)"
proof -
  have "length (cell_shown x) \<le> column_width cfg f"
    using assms(4) column_width_plain(1) [OF assms(1-3)]
    by (cases x) (auto simp: cell_shown_def cell_text_def natural_width_def)
  then show ?thesis
    using column_width_plain(1) [OF assms(1-3)] by (simp add: table_text_def Let_def spaces_def)
qed

lemma length_cells_text:
  assumes "plain_mode cfg" and "sized_result cfg r"
  shows "list_all2 (\<lambda>f x. length (cell_text x) \<le> f_max_length f) fs xs \<Longrightarrow> set fs \<subseteq> set (r_fields r) \<Longrightarrow>
    length (cells_text cfg off fs xs) + (if off \<or> fs = [] then 0 else 1)
      = sum_list (map (\<lambda>f. max 4 (natural_width cfg f) + 3) fs)"
proof (induction fs xs arbitrary: off rule: list_all2_induct)
  case (Cons f fs x xs)
  then have "length (table_text cfg f x) = max 4 (natural_width cfg f)"
    by (intro length_cell [OF assms]) auto
  with Cons(3) [of True] Cons(4) show ?case by (cases off) auto
qed simp

lemma length_separator:
  assumes "plain_mode cfg" and "sized_result cfg r"
  shows "length (separator cfg (r_fields r)) = table_width cfg r"
proof -
  have "length (concat (map (\<lambda>f. replicate (column_width cfg f + 2) CHR ''-'' @ ''+'') fs))
      = sum_list (map (\<lambda>f. max 4 (natural_width cfg f) + 3) fs)" if "set fs \<subseteq> set (r_fields r)" for fs
    using that column_width_plain(1) [OF assms] by (induction fs) auto
  then show ?thesis by (simp add: separator_def table_width_def del: length_concat)
qed

lemma length_header:
  assumes "plain_mode cfg" and "sized_result cfg r" and "column_names cfg"
  shows "length (concat (map (header_cell cfg) (r_fields r))) + 1 = table_width cfg r"
proof -
  have "length (header_cell cfg f) = max 4 (natural_width cfg f) + 3" if "f \<in> set (r_fields r)" for f
    using column_width_plain [OF assms(1,2) that] assms(1,3)
    by (auto simp: header_cell_def pad_right_def spaces_def plain_mode_def natural_width_def)
  then have "length (concat (map (header_cell cfg) fs)) = sum_list (map (\<lambda>f. max 4 (natural_width cfg f) + 3) fs)"
    if "set fs \<subseteq> set (r_fields r)" for fs
    using that by (induction fs) auto
  then show ?thesis by (simp add: table_width_def del: length_concat)
qed





text \<open>
  C34: a binary value printed in hexadecimal goes to the pager only: the outfile gets the
  padding and none of the digits.
\<close>

theorem print_as_hex_not_teed:
  assumes "PAGER c \<noteq> OUTFILE" and "opt_outfile c"
  shows "\<exists>c'. print_as_hex s w c = Some c'
    \<and> file_text (PAGER c) c' = file_text (PAGER c) c @ ''0x'' @ concat (map hex_byte s)
        @ spaces (w - (2 * length s + 2))
    \<and> file_text OUTFILE c' = file_text OUTFILE c @ spaces (w - (2 * length s + 2))"
proof -
  have "prints ((''0x'' @ concat (map hex_byte s)) @ spaces (w - (2 * length s + 2)) @ [])
      ([] @ spaces (w - (2 * length s + 2)) @ []) (print_as_hex s w)"
    unfolding print_as_hex_def by (intro prints_Cons prints_raw prints_tee prints_Nil)
  then have "PAGER c \<noteq> OUTFILE \<longrightarrow> (\<exists>c'. print_as_hex s w c = Some c' \<and> PAGER c' = PAGER c \<and> opt_outfile c' = opt_outfile c
      \<and> file_text (PAGER c) c' = file_text (PAGER c) c @ (''0x'' @ concat (map hex_byte s)) @ spaces (w - (2 * length s + 2)) @ []
      \<and> file_text OUTFILE c' = file_text OUTFILE c @ (if opt_outfile c then [] @ spaces (w - (2 * length s + 2)) @ [] else []))"
    unfolding prints_def by (rule spec)
  with assms show ?thesis by auto
qed

theorem print_as_hex_not_teed_witness:
  "\<exists>c'. print_as_hex [CHR ''K''] 6 sample_console = Some c'
     \<and> file_text STDOUT c' = ''0x4B  '' \<and> file_text OUTFILE c' = ''  ''"
proof -
  have "hex_byte CHR ''K'' = ''4B''" and "spaces 2 = ''  ''" by code_simp+
  then show ?thesis
    using print_as_hex_not_teed [OF sample_pager(1,2), of "[CHR ''K'']" 6]
    by (simp add: sample_pager(3) sample_simps(1))
qed

end
