(* ===== verification/AddLine.thy ===== *)
theory AddLine
  imports Commands Output
begin

text \<open>
  The scanner that takes input lines apart into statements and client commands:
  \<^verbatim>\<open>add_line\<close> of \<^verbatim>\<open>client/mysql.cc\<close>, with \<^verbatim>\<open>execute_cmd\<close>,
  \<^verbatim>\<open>connect_mysql_tenant\<close>, \<^verbatim>\<open>fix_history\<close> and \<^verbatim>\<open>not_in_history\<close>. The
  commands themselves, reached through the function pointers of the table, are the argument
  \<open>exec\<close>; it returns the value of the handler, or \<open>None\<close> if the handler does not return.

  The code edits the line in place: \<open>out\<close> follows \<open>pos\<close> in the same array. Here the characters
  that were put out since the last flush are a list of their own, and it is a theorem below
  that \<open>out\<close> never overtakes \<open>pos\<close>. A position is the rest of the line from there on.
\<close>

unbundle bit_operations_syntax

section \<open>State\<close>

text \<open>The buffers a handler can be given: \<open>glob_buffer\<close>, a local copy, \<open>last_execute_buffer\<close>.\<close>

datatype bufref = GLOB | TMP | LAST

record client =
  glob_buffer :: string
  tmp_buffer :: string
  last_execute_buffer :: string
  delimiter :: cstring
  is_user_specify_delimiter :: bool
  preserve_comments :: bool
  is_pl_escape_sql :: bool
  last_session_mode :: bool
  mysql_oracle_mode :: bool
  server_status :: nat
  real_binary_mode :: bool
  add_to_history :: bool
  charset_info :: charset_info
  disabled_commands :: disabled
  history :: "cstring list"
  pl_escape_sql_re :: "cstring \<Rightarrow> bool"
  screen :: console
  info :: info_status

type_synonym 'a handler = "com_func \<Rightarrow> bufref \<Rightarrow> cstring option \<Rightarrow> 'a client_scheme \<Rightarrow> (int \<times> 'a client_scheme) option"

record lexer =
  in_string :: char
  ml_comment :: bool
  ss_comment :: bool
  need_space :: bool
  out :: string

definition get_buffer :: "bufref \<Rightarrow> 'a client_scheme \<Rightarrow> string" where
  "get_buffer r s = (case r of GLOB \<Rightarrow> glob_buffer s | TMP \<Rightarrow> tmp_buffer s | LAST \<Rightarrow> last_execute_buffer s)"

definition set_buffer :: "bufref \<Rightarrow> string \<Rightarrow> 'a client_scheme \<Rightarrow> 'a client_scheme" where
  "set_buffer r b s =
     (case r of GLOB \<Rightarrow> s\<lparr>glob_buffer := b\<rparr> | TMP \<Rightarrow> s\<lparr>tmp_buffer := b\<rparr>
      | LAST \<Rightarrow> s\<lparr>last_execute_buffer := b\<rparr>)"

definition say :: "cstring \<Rightarrow> INFO_TYPE \<Rightarrow> 'a client_scheme \<Rightarrow> int \<times> 'a client_scheme" where
  "say str type s =
     (case put_info (info s) str type 0 None False (screen s) of (r, c) \<Rightarrow> (r, s\<lparr>screen := c\<rparr>))"

definition SERVER_STATUS_ANSI_QUOTES :: nat where "SERVER_STATUS_ANSI_QUOTES = 32768"

definition SERVER_STATUS_NO_BACKSLASH_ESCAPES :: nat where "SERVER_STATUS_NO_BACKSLASH_ESCAPES = 512"

section \<open>History\<close>

text \<open>The command with newlines outside strings turned into blanks, and its number of lines.\<close>

fun fix_loop :: "char \<Rightarrow> cstring \<Rightarrow> string \<times> nat" where
  "fix_loop str_char [] = ([], 1)"
| "fix_loop str_char (c # s) =
     (if c = NUL then ([], 1)
      else if c = DQ \<or> c = SQ \<or> c = BQ then
        apfst (Cons c) (fix_loop (if str_char = NUL then c else if str_char = c then NUL else str_char) s)
      else if c = NL then
        (case fix_loop str_char s of (t, n) \<Rightarrow> ((if str_char = NUL then CHR '' '' else NL) # t, n + 1))
      else if c = BSL then
        (if str_char \<noteq> NUL then
           (case s of
              d # s' \<Rightarrow> if d = SQ \<or> d = DQ \<or> d = BSL then apfst (\<lambda>t. BSL # d # t) (fix_loop str_char s')
                        else apfst (Cons BSL) (fix_loop str_char s)
            | [] \<Rightarrow> apfst (Cons BSL) (fix_loop str_char s))
         else apfst (Cons BSL) (fix_loop str_char s))
      else apfst (Cons c) (fix_loop str_char s))"

definition fix_history :: "string \<Rightarrow> 'a client_scheme \<Rightarrow> 'a client_scheme" where
  "fix_history final_command s =
     (case fix_loop NUL final_command of (fixed_buffer, total_lines) \<Rightarrow>
        if total_lines > 1 then s\<lparr>history := history s @ [fixed_buffer]\<rparr> else s)"

definition not_in_history :: "cstring \<Rightarrow> 'a client_scheme \<Rightarrow> bool" where
  "not_in_history line s \<longleftrightarrow> history s = [] \<or> last (history s) \<noteq> line"

section \<open>Running a statement\<close>

definition find_command :: "cstring \<Rightarrow> 'a client_scheme \<Rightarrow> found" where
  "find_command name s =
     find_command_name (charset_info s) (real_binary_mode s) (disabled_commands s) (delimiter s) name"

text \<open>A command of the table with its \<open>cmdstr\<close>, and \<open>com_go\<close> for everything else.\<close>

definition run_found :: "'a handler \<Rightarrow> bufref \<Rightarrow> found \<Rightarrow> 'a client_scheme \<Rightarrow> (int \<times> 'a client_scheme) option" where
  "run_found exec r com s =
     (case com of
        Some (i, cmdstr) \<Rightarrow>
          (case c_func (commands ! i) of Some f \<Rightarrow> exec f r cmdstr s | None \<Rightarrow> None)
      | None \<Rightarrow> exec Com_go r None s)"

definition execute_cmd :: "'a handler \<Rightarrow> bufref \<Rightarrow> 'a client_scheme \<Rightarrow> (bool \<times> 'a client_scheme) option" where
  "execute_cmd exec r s =
     (case run_found exec r (find_command (cstr (get_buffer r s)) s) s of
        None \<Rightarrow> None
      | Some (ret, s) \<Rightarrow> Some (ret > 0, s))"

text \<open>
  \<open>e\<close> goes back over the blanks at the end of the buffer, but not before the text \<open>str\<close>; a
  delimiter there is cut off.
\<close>

definition connect_mysql_tenant :: "'a handler \<Rightarrow> 'a client_scheme \<Rightarrow> 'a client_scheme option" where
  "connect_mysql_tenant exec s =
     (let b = glob_buffer s;
          str = get_trim_comment_sql (cstr b) (int (length b));
          first = (case str of None \<Rightarrow> 0 | Some t \<Rightarrow> length (cstr b) - length t);
          k = length (takeWhile (\<lambda>c. c \<noteq> NUL \<and> my_isspace (charset_info s) c) (rev (drop (first + 1) b)));
          e = length b - 1 - k;
          cut = is_prefix (drop e b) (delimiter s);
          b = (if cut then b[e := NUL] else b);
          str = (if cut then map_option (\<lambda>t. cstr (drop first b)) str else str)
      in case exec Com_connect GLOB str (s\<lparr>glob_buffer := b\<rparr>) of
           None \<Rightarrow> None
         | Some (ret, s) \<Rightarrow> Some (s\<lparr>glob_buffer := []\<rparr>))"

section \<open>The branches of the scanner\<close>

text \<open>
  How the loop goes on: at a new position, by leaving the loop, or by returning from
  \<open>add_line\<close> with a fatal error.
\<close>

datatype 's flow = Next string lexer 's | Stop lexer 's | Quit lexer 's

text \<open>The characters put out so far go to the buffer.\<close>

definition flush :: "lexer \<Rightarrow> 'a client_scheme \<Rightarrow> lexer \<times> 'a client_scheme" where
  "flush l s = (l\<lparr>out := []\<rparr>, s\<lparr>glob_buffer := glob_buffer s @ out l\<rparr>)"

definition emit :: "string \<Rightarrow> lexer \<Rightarrow> lexer" where
  "emit t l = l\<lparr>out := out l @ t\<rparr>"

text \<open>After a command with parameters the rest of the comment or of the statement is skipped.\<close>

fun skip_comment :: "string \<Rightarrow> string" where
  "skip_comment [] = []"
| "skip_comment (c # p) =
     (if c = NUL \<or> c = CHR ''*'' \<and> ch_at p 0 = CHR ''/'' then c # p else skip_comment p)"

fun skip_params :: "cstring \<Rightarrow> string \<Rightarrow> string" where
  "skip_params delim [] = []"
| "skip_params delim (c # p) =
     (if c = NUL then c # p
      else if is_prefix (c # p) delim then drop (length delim) (c # p)
      else skip_params delim p)"

definition al_command :: "'a handler \<Rightarrow> nat \<Rightarrow> string \<Rightarrow> lexer \<Rightarrow> 'a client_scheme \<Rightarrow> 'a client_scheme flow option" where
  "al_command exec i pos l s =
     (let (l, s) = flush l s in
      case c_func (commands ! i) of
        None \<Rightarrow> None
      | Some f \<Rightarrow>
          (case exec f GLOB (Some (cstr pos)) s of
             None \<Rightarrow> None
           | Some (ret, s) \<Rightarrow>
               if ret > 0 then Some (Quit l s)
               else
                 let b = glob_buffer s;
                     s = (if get_trim_comment_sql (cstr b) (int (length b)) = None
                          then s\<lparr>glob_buffer := []\<rparr> else s);
                     rest = drop 2 pos
                 in Some (Next (if \<not> takes_params (commands ! i) then rest
                                else if ss_comment l then skip_comment rest
                                else skip_params (delimiter s) rest) l s)))"

definition unknown_command :: "char \<Rightarrow> 'a client_scheme \<Rightarrow> int \<times> 'a client_scheme" where
  "unknown_command c s = say (''Unknown command '' @ [SQ, BSL, c, SQ] @ ''.'') INFO_ERROR s"

definition al_backslash ::
  "'a handler \<Rightarrow> bool \<Rightarrow> string \<Rightarrow> lexer \<Rightarrow> 'a client_scheme \<Rightarrow> 'a client_scheme flow option" where
  "al_backslash exec cmd pos l s =
     (let inchar = ch_at pos 1 in
      if inchar = NUL then Some (Stop l s)
      else if in_string l \<noteq> NUL \<or> inchar = CHR ''N'' \<or> mysql_oracle_mode s \<and> (is_pl_escape_sql s \<or> \<not> cmd)
      then Some (Next (drop 2 pos) (emit [BSL, inchar] l) s)
      else
        case find_command_char (real_binary_mode s) (disabled_commands s) inchar of
          Some (i, cmdstr) \<Rightarrow> al_command exec i pos l s
        | None \<Rightarrow>
            (case unknown_command inchar s of (r, s) \<Rightarrow>
               if r > 0 then Some (Quit l s)
               else Some (Next (drop 2 pos) (emit [BSL, inchar] l) s)))"

text \<open>A comment up to the end of the line begins here; \<open>dashes\<close> is what else is accepted after two dashes.\<close>

definition is_line_comment :: "string \<Rightarrow> bool \<Rightarrow> 'a client_scheme \<Rightarrow> bool" where
  "is_line_comment pos dashes s \<longleftrightarrow>
     ch_at pos 0 = CHR ''#'' \<and> \<not> mysql_oracle_mode s
     \<or> ch_at pos 0 = CHR ''-'' \<and> ch_at pos 1 = CHR ''-''
       \<and> (mysql_oracle_mode s \<or> my_isspace (charset_info s) (ch_at pos 2) \<or> dashes)"

text \<open>The statement in the buffer ends here; \<open>pos\<close> is behind its delimiter.\<close>

definition al_run ::
  "'a handler \<Rightarrow> string \<Rightarrow> lexer \<Rightarrow> 'a client_scheme \<Rightarrow> 'a client_scheme flow option" where
  "al_run exec pos l s =
     (let blanks = (if preserve_comments s then takeWhile (my_isspace (charset_info s)) pos else []);
          pos = drop (length blanks) pos;
          (l, s) = flush (emit blanks l) s;
          trailing = (preserve_comments s \<and> is_line_comment pos False s);
          s = (if trailing then s\<lparr>glob_buffer := glob_buffer s @ cstr pos\<rparr> else s);
          pos = (if trailing then drop (length (cstr pos)) pos else pos)
      in case run_found exec GLOB (find_command (cstr (glob_buffer s)) s) s of
           None \<Rightarrow> None
         | Some (ret, s) \<Rightarrow>
             if ret > 0 then Some (Quit l s)
             else Some (Next pos (if mysql_oracle_mode s then l\<lparr>in_string := NUL\<rparr> else l)
                         (s\<lparr>glob_buffer := [], is_pl_escape_sql := False\<rparr>)))"

definition al_statement ::
  "'a handler \<Rightarrow> string \<Rightarrow> lexer \<Rightarrow> 'a client_scheme \<Rightarrow> 'a client_scheme flow option" where
  "al_statement exec pos l s =
     (let n = length (delimiter s);
          ask = (mysql_oracle_mode s \<and> \<not> is_user_specify_delimiter s \<and> \<not> is_prefix ''/'' (delimiter s)
                 \<and> \<not> is_pl_escape_sql s);
          (l, s) = (if ask then flush l s else (l, s))
      in if ask \<and> is_oracle_pl_escape_sql (pl_escape_sql_re s) (cstr (glob_buffer s)) (int (length (glob_buffer s)))
         then Some (Next (drop n pos) l
                (s\<lparr>is_pl_escape_sql := True, glob_buffer := glob_buffer s @ take n pos\<rparr>))
         else al_run exec (drop n pos) l s)"

definition al_line_comment ::
  "'a handler \<Rightarrow> string \<Rightarrow> lexer \<Rightarrow> 'a client_scheme \<Rightarrow> 'a client_scheme flow option" where
  "al_line_comment exec pos l s =
     (let (l, s) = flush l s; b = glob_buffer s;
          str = get_trim_comment_sql (cstr b) (int (length b));
          conn = (case str of None \<Rightarrow> False | Some t \<Rightarrow>
                    strncaseeq t ''conn'' 4 \<and> length b > 4 \<or> strncaseeq t ''connect'' 7 \<and> length b > 7)
      in if ch_at pos 0 = CHR ''#'' \<and> \<not> mysql_oracle_mode s \<and> conn then
           map_option (Stop l) (connect_mysql_tenant exec (s\<lparr>glob_buffer := b @ cstr pos\<rparr>))
         else if preserve_comments s then
           (let s = s\<lparr>glob_buffer := b @ cstr pos\<rparr> in
            if b = [] then
              (case exec Com_go GLOB None s of
                 None \<Rightarrow> None
               | Some (ret, s) \<Rightarrow> if ret > 0 then Some (Quit l s) else Some (Stop l (s\<lparr>glob_buffer := []\<rparr>)))
            else Some (Stop l s))
         else Some (Stop l s))"

text \<open>Any other character: it may begin or end a server-side comment or a string.\<close>

definition al_char :: "string \<Rightarrow> lexer \<Rightarrow> 'a client_scheme \<Rightarrow> 'a client_scheme flow" where
  "al_char pos l s =
     (let c = ch_at pos 0; d = ch_at pos 1; e = ch_at pos 2;
          opens = (in_string l = NUL \<and> c = CHR ''/'' \<and> d = CHR ''*'' \<and> (e = CHR ''!'' \<or> e = CHR ''+''));
          closes = (\<not> opens \<and> in_string l = NUL \<and> ss_comment l \<and> c = CHR ''*'' \<and> d = CHR ''/'');
          l = (if opens then l\<lparr>ss_comment := True\<rparr>
               else if closes then emit ''*'' (l\<lparr>ss_comment := False\<rparr>) else l);
          inchar = (if closes then d else c);
          l = (if inchar = in_string l then l\<lparr>in_string := NUL\<rparr>
               else if \<not> ml_comment l \<and> in_string l = NUL \<and> (inchar = SQ \<or> inchar = DQ \<or> inchar = BQ)
               then l\<lparr>in_string := inchar\<rparr> else l);
          l = (if \<not> ml_comment l \<or> preserve_comments s then
                 emit [inchar]
                   ((if need_space l \<and> \<not> my_isspace (charset_info s) inchar then emit '' '' l else l)
                    \<lparr>need_space := False\<rparr>)
               else l)
      in Next (drop (if closes then 2 else 1) pos) l s)"


section \<open>The scanner\<close>

definition al_step ::
  "'a handler \<Rightarrow> bool \<Rightarrow> bool \<Rightarrow> string \<Rightarrow> lexer \<Rightarrow> 'a client_scheme \<Rightarrow> 'a client_scheme flow option" where
  "al_step exec slash cmd pos l s =
     (let c = ch_at pos 0; d = ch_at pos 1; e = ch_at pos 2; q = in_string l;
          n = (if use_mb (charset_info s) then my_ismbchar (charset_info s) pos else 0)
      in if \<not> preserve_comments s \<and> my_isspace (charset_info s) c \<and> out l = [] \<and> glob_buffer s = []
         then Some (Next (drop 1 pos) l s)
         else if n > 0
         then Some (Next (drop n pos) (if \<not> ml_comment l \<or> preserve_comments s then emit (take n pos) l else l) s)
         else if \<not> ml_comment l \<and> c = BSL \<and> q \<noteq> BQ
           \<and> \<not> (q = DQ \<and> server_status s AND SERVER_STATUS_ANSI_QUOTES \<noteq> 0)
           \<and> \<not> (q \<noteq> NUL \<and> (mysql_oracle_mode s \<or> server_status s AND SERVER_STATUS_NO_BACKSLASH_ESCAPES \<noteq> 0))
         then al_backslash exec cmd pos l s
         else if \<not> ml_comment l \<and> (q \<noteq> NUL \<and> mysql_oracle_mode s \<and> length pos = 1 \<or> q = NUL)
           \<and> (\<not> is_pl_escape_sql s \<and> is_prefix pos (delimiter s) \<or> is_pl_escape_sql s \<and> c = CHR ''/'' \<and> slash)
         then al_statement exec pos l s
         else if \<not> ml_comment l \<and> q = NUL
           \<and> is_line_comment pos (e = NUL \<or> glob_buffer s = [] \<and> out l = []) s
         then al_line_comment exec pos l s
         else if q = NUL \<and> c = CHR ''/'' \<and> d = CHR ''*''
           \<and> \<not> (e = CHR ''!'' \<or> e = CHR ''+'' \<or> e = CHR ''M'' \<and> ch_at pos 3 = CHR ''!'')
         then
           (let l = (if preserve_comments s then emit ''/*'' l else l); (l, s) = flush l s
            in Some (Next (drop 2 pos) (l\<lparr>ml_comment := True\<rparr>) s))
         else if ml_comment l \<and> \<not> ss_comment l \<and> c = CHR ''*'' \<and> d = CHR ''/''
         then
           (let l = (if preserve_comments s then emit ''*/'' l else l); (l, s) = flush l s
            in Some (Next (drop 2 pos) (l\<lparr>ml_comment := False, need_space := True\<rparr>) s))
         else Some (al_char pos l s))"

partial_function (option) al_loop ::
  "'a handler \<Rightarrow> bool \<Rightarrow> bool \<Rightarrow> string \<Rightarrow> lexer \<Rightarrow> 'a client_scheme \<Rightarrow> (bool \<times> lexer \<times> 'a client_scheme) option" where
  "al_loop exec slash cmd pos l s =
     (if pos = [] then Some (False, l, s)
      else
        case al_step exec slash cmd pos l s of
          None \<Rightarrow> None
        | Some (Next pos l s) \<Rightarrow> al_loop exec slash cmd pos l s
        | Some (Stop l s) \<Rightarrow> Some (False, l, s)
        | Some (Quit l s) \<Rightarrow> Some (True, l, s))"

declare al_loop.simps [code]

text \<open>What is left of the line goes to the buffer, and the buffer may now be a command.\<close>

definition al_last ::
  "'a handler \<Rightarrow> lexer \<Rightarrow> 'a client_scheme \<Rightarrow> (bool \<times> lexer \<times> 'a client_scheme) option" where
  "al_last exec l s =
     (case find_command (cstr (tmp_buffer s)) s of
        None \<Rightarrow> Some (False, l, s)
      | Some com \<Rightarrow>
          (case run_found exec TMP (Some com) s of
             None \<Rightarrow> None
           | Some (ret, s) \<Rightarrow>
               if ret > 0 then Some (True, l, s) else Some (False, l, s\<lparr>glob_buffer := []\<rparr>)))"

definition al_finish ::
  "'a handler \<Rightarrow> bool \<Rightarrow> lexer \<Rightarrow> 'a client_scheme \<Rightarrow> (bool \<times> lexer \<times> 'a client_scheme) option" where
  "al_finish exec truncated l s =
     (if out l = [] \<and> glob_buffer s = [] then Some (False, l, s)
      else
        let add_n = (\<not> truncated \<and> (\<not> is_delimiter_command (out l) (length (out l))
                       \<or> in_string l \<noteq> NUL \<or> ml_comment l));
            l = (if add_n then emit [NL] l else l);
            s = (if \<not> ml_comment l \<or> preserve_comments s then s\<lparr>glob_buffer := glob_buffer s @ out l\<rparr> else s)
        in if glob_buffer s = [] then Some (False, l, s)
           else al_last exec l
                  (s\<lparr>tmp_buffer := (if add_n then butlast (glob_buffer s) @ [NUL] else glob_buffer s)\<rparr>))"

definition nothing_to_run :: "'a client_scheme \<Rightarrow> 'a client_scheme" where
  "nothing_to_run s = snd (say ''SP2-0103: Nothing in SQL buffer to run.'' INFO_INFO s)"

text \<open>
  In Oracle mode a line with a single slash runs the buffer, or the last statement when the
  buffer is empty. The result is the value \<open>add_line\<close> returns, if it returns here.
\<close>

definition al_slash ::
  "'a handler \<Rightarrow> bool \<Rightarrow> string \<Rightarrow> lexer \<Rightarrow> 'a client_scheme \<Rightarrow> (bool option \<times> lexer \<times> 'a client_scheme) option" where
  "al_slash exec slash line l s =
     (let lead = takeWhile (\<lambda>c. my_isspace (charset_info s) c \<or> c = CHR ''/'') line;
          slash_cnt = length (filter (\<lambda>c. c = CHR ''/'') lead);
          l0 = l\<lparr>in_string := NUL, ml_comment := False\<rparr>
      in if \<not> last_session_mode s \<or> is_user_specify_delimiter s \<and> \<not> is_prefix ''/'' (delimiter s)
         then Some (None, l, s)
         else if slash \<and> glob_buffer s \<noteq> [] then
           (case execute_cmd exec GLOB s of
              None \<Rightarrow> None
            | Some (True, s) \<Rightarrow> Some (Some True, l, s)
            | Some (False, s) \<Rightarrow> Some (Some False, l0, s\<lparr>glob_buffer := [], is_pl_escape_sql := False\<rparr>))
         else if glob_buffer s = [] \<and> (slash \<or> slash_cnt > 1) then
           (if last_execute_buffer s \<noteq> [] then
              (case execute_cmd exec LAST s of
                 None \<Rightarrow> None
               | Some (True, s) \<Rightarrow> Some (Some True, l, s)
               | Some (False, s) \<Rightarrow> Some (Some False, l0, s\<lparr>is_pl_escape_sql := False\<rparr>))
            else Some (Some False, l, nothing_to_run s))
         else Some (None, l, s))"

definition add_line ::
  "'a handler \<Rightarrow> string \<Rightarrow> char \<Rightarrow> bool \<Rightarrow> bool \<Rightarrow> 'a client_scheme \<Rightarrow> (bool \<times> lexer \<times> 'a client_scheme) option" where
  "add_line exec line in_str ml truncated s =
     (let l = \<lparr>in_string = in_str, ml_comment = ml, ss_comment = False, need_space = False, out = []\<rparr> in
      if ch_at line 0 = NUL \<and> glob_buffer s = [] then Some (False, l, s)
      else
        let s = (if add_to_history s \<and> ch_at line 0 \<noteq> NUL \<and> not_in_history (cstr line) s
                 then s\<lparr>history := history s @ [cstr line]\<rparr> else s);
            kind = is_cmd_line (charset_info s) line;
            slash = (kind = IS_CMD_SLASH)
        in case al_slash exec slash line l s of
             None \<Rightarrow> None
           | Some (Some r, l, s) \<Rightarrow> Some (r, l, s)
           | Some (None, l, s) \<Rightarrow>
               (case al_loop exec slash (kind = IS_CMD_LINE) line l s of
                  None \<Rightarrow> None
                | Some (True, l, s) \<Rightarrow> Some (True, l, s)
                | Some (False, l, s) \<Rightarrow> al_finish exec truncated l s))"

section \<open>In-place editing\<close>

text \<open>The positions the scanner comes to on a line.\<close>

inductive al_reach ::
  "'a handler \<Rightarrow> bool \<Rightarrow> bool \<Rightarrow> string \<Rightarrow> lexer \<Rightarrow> 'a client_scheme \<Rightarrow> string \<Rightarrow> lexer \<Rightarrow> 'a client_scheme \<Rightarrow> bool"
  for exec :: "'a handler" and slash cmd :: bool and line :: string and l\<^sub>0 :: lexer and s\<^sub>0 :: "'a client_scheme"
  where
    start: "al_reach exec slash cmd line l\<^sub>0 s\<^sub>0 line l\<^sub>0 s\<^sub>0"
  | step: "al_reach exec slash cmd line l\<^sub>0 s\<^sub>0 pos l s \<Longrightarrow> pos \<noteq> [] \<Longrightarrow>
      al_step exec slash cmd pos l s = Some (Next pos' l' s') \<Longrightarrow>
      al_reach exec slash cmd line l\<^sub>0 s\<^sub>0 pos' l' s'"

text \<open>The room a state needs: what was put out, what is still to read, and a pending blank.\<close>

definition room :: "string \<Rightarrow> lexer \<Rightarrow> nat" where
  "room pos l = length (out l) + length pos + (if need_space l then 1 else 0)"

lemma lexer_simps [simp]:
  "out (emit t l) = out l @ t" "need_space (emit t l) = need_space l"
  "in_string (emit t l) = in_string l" "ml_comment (emit t l) = ml_comment l"
  "ss_comment (emit t l) = ss_comment l"
  "fst (flush l s) = l\<lparr>out := []\<rparr>" "snd (flush l s) = s\<lparr>glob_buffer := glob_buffer s @ out l\<rparr>"
  by (simp_all add: emit_def flush_def)

lemma length_skip_comment: "length (skip_comment p) \<le> length p"
  by (induction p) auto

lemma length_skip_params: "length (skip_params d p) \<le> length p"
  by (induction p) auto

lemmas skip_lengths = length_skip_comment length_skip_params

lemma al_command_room:
  "al_command exec i pos l s = Some (Next pos' l' s') \<Longrightarrow> room pos' l' \<le> room (drop 2 pos) (l\<lparr>out := []\<rparr>)"
  using skip_lengths(1) [of "drop 2 pos"] skip_lengths(2) [of _ "drop 2 pos"]
  by (auto simp: al_command_def flush_def room_def Let_def split: option.splits if_splits prod.splits)

lemma room_emit: "need_space l' = need_space l \<Longrightarrow> out l' = out l @ t \<Longrightarrow> length t + length q \<le> length p \<Longrightarrow>
    room q l' \<le> room p l"
  by (simp add: room_def)

lemma room_flush: "need_space l' = need_space l \<Longrightarrow> out l' = [] \<Longrightarrow> length q \<le> length p \<Longrightarrow> room q l' \<le> room p l"
  by (simp add: room_def)

lemma ch_at_length: "ch_at p i \<noteq> NUL \<Longrightarrow> i < length p"
  by (auto simp: ch_at_def split: if_splits)

lemma al_backslash_next:
  assumes "al_backslash exec cmd pos l s = Some (Next pos' l' s')"
  shows "1 < length pos \<and> ((\<exists>c. pos' = drop 2 pos \<and> l' = emit [BSL, c] l)
    \<or> (\<exists>i. al_command exec i pos l s = Some (Next pos' l' s')))"
proof -
  let ?c = "ch_at pos 1"
  have c: "?c \<noteq> NUL"
  proof
    assume "?c = NUL"
    then show False using assms by (simp add: al_backslash_def)
  qed
  have "(pos' = drop 2 pos \<and> l' = emit [BSL, ?c] l) \<or> (\<exists>i. al_command exec i pos l s = Some (Next pos' l' s'))"
  proof (cases "in_string l \<noteq> NUL \<or> ?c = CHR ''N'' \<or> mysql_oracle_mode s \<and> (is_pl_escape_sql s \<or> \<not> cmd)")
    case True
    then show ?thesis using assms c unfolding al_backslash_def Let_def by (simp only: if_True if_False) simp
  next
    case False
    then have e: "al_backslash exec cmd pos l s =
        (case find_command_char (real_binary_mode s) (disabled_commands s) ?c of
          Some (i, cmdstr) \<Rightarrow> al_command exec i pos l s
        | None \<Rightarrow>
            (case unknown_command ?c s of (r, s) \<Rightarrow>
               if r > 0 then Some (Quit l s) else Some (Next (drop 2 pos) (emit [BSL, ?c] l) s)))"
      using c unfolding al_backslash_def Let_def by (simp only: if_False)
    show ?thesis
      using assms unfolding e
      by (cases "find_command_char (real_binary_mode s) (disabled_commands s) ?c";
          cases "unknown_command ?c s")
        (auto split: if_splits)
  qed
  then show ?thesis using ch_at_length [OF c] by blast
qed

lemma al_backslash_room:
  assumes "al_backslash exec cmd pos l s = Some (Next pos' l' s')"
  shows "room pos' l' \<le> room pos l"
proof -
  have "room (drop 2 pos) (l\<lparr>out := []\<rparr>) \<le> room pos l" by (simp add: room_def)
  then show ?thesis
    using al_backslash_next [OF assms] al_command_room [of exec _ pos l s pos' l' s']
    by (auto intro: room_emit le_trans)
qed

lemma al_run_next:
  assumes "al_run exec pos l s = Some (Next pos' l' s')"
  shows "length pos' \<le> length pos \<and> out l' = [] \<and> need_space l' = need_space l"
proof -
  define P where "P x y \<longleftrightarrow> length x \<le> length pos \<and> out y = [] \<and> need_space y = need_space l" for x :: string and y :: lexer
  have "P pos' l'"
    using assms unfolding al_run_def flush_def Let_def
    by (auto simp: P_def split: option.splits if_splits)
  then show ?thesis by (simp add: P_def)
qed

lemma al_statement_next:
  assumes "al_statement exec pos l s = Some (Next pos' l' s')"
  shows "length pos' \<le> length (drop (length (delimiter s)) pos) \<and> out l' = [] \<and> need_space l' = need_space l"
proof -
  define ask where "ask \<longleftrightarrow> mysql_oracle_mode s \<and> \<not> is_user_specify_delimiter s \<and> \<not> is_prefix ''/'' (delimiter s)
                 \<and> \<not> is_pl_escape_sql s"
  define s1 where "s1 = (if ask then s\<lparr>glob_buffer := glob_buffer s @ out l\<rparr> else s)"
  define l1 where "l1 = (if ask then l\<lparr>out := []\<rparr> else l)"
  define pl where "pl \<longleftrightarrow> ask \<and> is_oracle_pl_escape_sql (pl_escape_sql_re s1) (cstr (glob_buffer s1)) (int (length (glob_buffer s1)))"
  have e: "al_statement exec pos l s = (if pl then Some (Next (drop (length (delimiter s)) pos) l1
      (s1\<lparr>is_pl_escape_sql := True, glob_buffer := glob_buffer s1 @ take (length (delimiter s)) pos\<rparr>))
      else al_run exec (drop (length (delimiter s)) pos) l1 s1)"
    unfolding al_statement_def ask_def [symmetric] pl_def s1_def l1_def Let_def flush_def by (cases ask) simp_all
  have l1: "need_space l1 = need_space l" "ask \<Longrightarrow> out l1 = []" by (simp_all add: l1_def)
  show ?thesis
  proof (cases pl)
    case True
    then show ?thesis using assms l1 unfolding e pl_def by auto
  next
    case False
    then show ?thesis using assms al_run_next [of exec "drop (length (delimiter s)) pos" l1 s1 pos' l' s'] l1(1) unfolding e by simp
  qed
qed

lemma al_statement_room: "al_statement exec pos l s = Some (Next pos' l' s') \<Longrightarrow> room pos' l' \<le> room pos l"
  by (drule al_statement_next) (auto simp: room_def)

lemma al_char_room:
  assumes "al_char pos l s = Next pos' l' s'" and "pos \<noteq> []"
  shows "room pos' l' \<le> room pos l"
proof -
  define closes where "closes \<longleftrightarrow> \<not> (in_string l = NUL \<and> ch_at pos 0 = CHR ''/'' \<and> ch_at pos 1 = CHR ''*''
      \<and> (ch_at pos 2 = CHR ''!'' \<or> ch_at pos 2 = CHR ''+''))
    \<and> in_string l = NUL \<and> ss_comment l \<and> ch_at pos 0 = CHR ''*'' \<and> ch_at pos 1 = CHR ''/''"
  define l1 where "l1 = (if in_string l = NUL \<and> ch_at pos 0 = CHR ''/'' \<and> ch_at pos 1 = CHR ''*''
      \<and> (ch_at pos 2 = CHR ''!'' \<or> ch_at pos 2 = CHR ''+'') then l\<lparr>ss_comment := True\<rparr>
    else if closes then emit ''*'' (l\<lparr>ss_comment := False\<rparr>) else l)"
  define c where "c = (if closes then ch_at pos 1 else ch_at pos 0)"
  define l2 where "l2 = (if c = in_string l1 then l1\<lparr>in_string := NUL\<rparr>
    else if \<not> ml_comment l1 \<and> in_string l1 = NUL \<and> (c = SQ \<or> c = DQ \<or> c = BQ) then l1\<lparr>in_string := c\<rparr> else l1)"
  define l3 where "l3 = (if \<not> ml_comment l2 \<or> preserve_comments s then
      emit [c] ((if need_space l2 \<and> \<not> my_isspace (charset_info s) c then emit '' '' l2 else l2)\<lparr>need_space := False\<rparr>)
    else l2)"
  have e: "pos' = drop (if closes then 2 else 1) pos" "l' = l3"
    using assms(1) unfolding al_char_def Let_def closes_def [symmetric] l1_def [symmetric] c_def [symmetric]
      l2_def [symmetric] l3_def [symmetric] by simp_all
  have "length (out l1) \<le> length (out l) + (if closes then 1 else 0)" "need_space l1 = need_space l"
    by (auto simp: l1_def)
  moreover have "out l2 = out l1" "need_space l2 = need_space l1" by (auto simp: l2_def)
  moreover have "length (out l3) + (if need_space l3 then 1 else 0) \<le> length (out l2) + (if need_space l2 then 1 else 0) + 1"
    by (auto simp: l3_def)
  moreover have "length pos' + (if closes then 2 else 1) = length pos"
  proof (cases closes)
    case True
    then have "ch_at pos 1 \<noteq> NUL" by (simp add: closes_def)
    then show ?thesis using ch_at_length [of pos 1] True e(1) by simp
  qed (use assms(2) e(1) in \<open>cases pos; simp\<close>)
  ultimately show ?thesis unfolding e(2) room_def by (auto split: if_splits)
qed

lemma al_line_comment_no_next: "al_line_comment exec pos l s \<noteq> Some (Next pos' l' s')"
  by (auto simp: al_line_comment_def flush_def Let_def split: option.splits if_splits prod.splits)


lemma al_step_room:
  assumes "al_step exec slash cmd pos l s = Some (Next pos' l' s')" and "pos \<noteq> []"
  shows "room pos' l' \<le> room pos l"
proof -
  let ?n = "if use_mb (charset_info s) then my_ismbchar (charset_info s) pos else 0"
  consider "pos' = drop 1 pos" "l' = l"
    | "pos' = drop ?n pos" "l' = l \<or> l' = emit (take ?n pos) l"
    | "al_backslash exec cmd pos l s = Some (Next pos' l' s')"
    | "al_statement exec pos l s = Some (Next pos' l' s')"
    | "al_line_comment exec pos l s = Some (Next pos' l' s')"
    | "pos' = drop 2 pos" "out l' = []" "ch_at pos 1 \<noteq> NUL"
    | "al_char pos l s = Next pos' l' s'"
    using assms(1) unfolding al_step_def Let_def flush_def
    by (simp split: if_splits; (elim conjE)?; (blast | (hypsubst, simp)))
  then show ?thesis
  proof cases
    case 2
    then show ?thesis by (auto simp: room_def)
  next
    case 6
    then show ?thesis using ch_at_length [of pos 1] by (auto simp: room_def)
  next
    case 5
    then show ?thesis using al_line_comment_no_next [of exec pos l s pos' l' s'] by blast
  qed (use assms(2) in \<open>auto simp: room_def dest: al_backslash_room al_statement_room al_char_room\<close>)
qed



section \<open>The scanner returns\<close>

text \<open>
  What the scanner relies on: handlers return, and keep an invariant under which the
  delimiter is not empty and which does not depend on the buffers, the history, the screen
  and the PL flag.
\<close>

definition handlers_ok :: "'a handler \<Rightarrow> ('a client_scheme \<Rightarrow> bool) \<Rightarrow> bool" where
  "handlers_ok exec ok \<longleftrightarrow>
     (\<forall>s. ok s \<longrightarrow> delimiter s \<noteq> [])
     \<and> (\<forall>f r a s. ok s \<longrightarrow> (\<exists>ret s'. exec f r a s = Some (ret, s') \<and> ok s'))
     \<and> (\<forall>s b t h c p. ok s \<longrightarrow> ok (s\<lparr>glob_buffer := b, tmp_buffer := t, is_pl_escape_sql := p, history := h, screen := c\<rparr>))"

fun flow_ok :: "('s \<Rightarrow> bool) \<Rightarrow> nat \<Rightarrow> 's flow \<Rightarrow> bool" where
  "flow_ok ok n (Next p l s) \<longleftrightarrow> ok s \<and> length p < n"
| "flow_ok ok n (Stop l s) \<longleftrightarrow> ok s"
| "flow_ok ok n (Quit l s) \<longleftrightarrow> ok s"

lemma handlers_delim: "handlers_ok exec ok \<Longrightarrow> ok s \<Longrightarrow> delimiter s \<noteq> []"
  by (simp add: handlers_ok_def)

lemma handlers_run: "handlers_ok exec ok \<Longrightarrow> ok s \<Longrightarrow> \<exists>ret s'. exec f r a s = Some (ret, s') \<and> ok s'"
  by (simp add: handlers_ok_def)

lemma handlers_upd:
  assumes "handlers_ok exec ok" and "ok s"
  shows "ok (s\<lparr>glob_buffer := b\<rparr>)" "ok (s\<lparr>tmp_buffer := t\<rparr>)" "ok (s\<lparr>is_pl_escape_sql := p\<rparr>)"
    "ok (s\<lparr>history := h\<rparr>)" "ok (s\<lparr>screen := c\<rparr>)"
proof -
  have u: "ok (s\<lparr>glob_buffer := b, tmp_buffer := t, is_pl_escape_sql := p, history := h, screen := c\<rparr>)" for b t p h c
    using assms by (simp add: handlers_ok_def)
  show "ok (s\<lparr>glob_buffer := b\<rparr>)" using u [where b = b and t = "tmp_buffer s" and p = "is_pl_escape_sql s" and h = "history s" and c = "screen s"] by simp
  show "ok (s\<lparr>tmp_buffer := t\<rparr>)" using u [where b = "glob_buffer s" and t = t and p = "is_pl_escape_sql s" and h = "history s" and c = "screen s"] by simp
  show "ok (s\<lparr>is_pl_escape_sql := p\<rparr>)" using u [where b = "glob_buffer s" and t = "tmp_buffer s" and p = p and h = "history s" and c = "screen s"] by simp
  show "ok (s\<lparr>history := h\<rparr>)" using u [where b = "glob_buffer s" and t = "tmp_buffer s" and p = "is_pl_escape_sql s" and h = h and c = "screen s"] by simp
  show "ok (s\<lparr>screen := c\<rparr>)" using u [where b = "glob_buffer s" and t = "tmp_buffer s" and p = "is_pl_escape_sql s" and h = "history s" and c = c] by simp
qed

lemma found_func: "find_command_name cs b d delim name = Some (i, str) \<Longrightarrow> c_func (commands ! i) \<noteq> None"
  using find_index_Some [of _ commands 0 i]
  by (auto simp: find_command_name_def if_valid_def delimiter_index_def get_command_index_def Let_def
      split: option.splits if_splits prod.splits)

lemma found_char_func: "find_command_char b d c = Some (i, str) \<Longrightarrow> c_func (commands ! i) \<noteq> None"
  using find_index_Some [of _ commands 0 i]
  by (auto simp: find_command_char_def if_valid_def charset_index_def get_command_index_def
      split: option.splits if_splits)

lemma run_found_ok:
  assumes "handlers_ok exec ok" and "ok s" and "com = None \<or> (\<exists>t. com = find_command t s)"
  shows "\<exists>ret s'. run_found exec r com s = Some (ret, s') \<and> ok s'"
proof (cases com)
  case None
  then show ?thesis using handlers_run [OF assms(1,2)] by (simp add: run_found_def)
next
  case (Some p)
  obtain i str where p: "p = (i, str)" by (cases p)
  then obtain t where "find_command t s = Some (i, str)" using Some assms(3) by force
  then have "c_func (commands ! i) \<noteq> None" unfolding find_command_def by (rule found_func)
  then show ?thesis using handlers_run [OF assms(1,2)] Some p by (auto simp: run_found_def)
qed

lemma al_command_ok:
  assumes "handlers_ok exec ok" and "ok s" and "c_func (commands ! i) \<noteq> None" and "pos \<noteq> []"
  shows "\<exists>fl. al_command exec i pos l s = Some fl \<and> flow_ok ok (length pos) fl"
proof -
  obtain f where f: "c_func (commands ! i) = Some f" using assms(3) by blast
  let ?s = "s\<lparr>glob_buffer := glob_buffer s @ out l\<rparr>"
  have "ok ?s" by (rule handlers_upd [OF assms(1,2)])
  then obtain ret s' where e: "exec f GLOB (Some (cstr pos)) ?s = Some (ret, s')" "ok s'"
    using handlers_run [OF assms(1)] by metis
  have len: "length (skip_comment (drop 2 pos)) < length pos" "length (skip_params d (drop 2 pos)) < length pos"
      "length (drop 2 pos) < length pos" for d
    using assms(4) skip_lengths(1) [of "drop 2 pos"] skip_lengths(2) [of d "drop 2 pos"] by (cases pos; simp)+
  show ?thesis
    unfolding al_command_def flush_def Let_def using f e len handlers_upd(1) [OF assms(1)]
    by (simp add: f)
qed


lemma say_ok: "handlers_ok exec ok \<Longrightarrow> ok s \<Longrightarrow> say str type s = (r, s') \<Longrightarrow> ok s'"
  by (auto simp: say_def split: prod.splits intro: handlers_upd)

lemma al_backslash_ok:
  assumes "handlers_ok exec ok" and "ok s" and "pos \<noteq> []"
  shows "\<exists>fl. al_backslash exec cmd pos l s = Some fl \<and> flow_ok ok (length pos) fl"
proof -
  let ?c = "ch_at pos 1"
  have d: "length (drop 2 pos) < length pos" using assms(3) by (cases pos) simp_all
  obtain r s1 where u: "unknown_command ?c s = (r, s1)" by (rule prod.exhaust)
  then have s1: "ok s1" using say_ok [OF assms(1,2)] by (auto simp: unknown_command_def)
  have "\<exists>fl. al_command exec i pos l s = Some fl \<and> flow_ok ok (length pos) fl"
    if "find_command_char (real_binary_mode s) (disabled_commands s) ?c = Some (i, str)" for i str
    using al_command_ok [OF assms(1,2) found_char_func [OF that] assms(3)] .
  then show ?thesis
    unfolding al_backslash_def Let_def u using assms(2) d s1
    by (auto split: option.splits)
qed

lemma al_run_ok:
  assumes "handlers_ok exec ok" and "ok s" and "length pos < n"
  shows "\<exists>fl. al_run exec pos l s = Some fl \<and> flow_ok ok n fl"
proof -
  define pos1 where "pos1 = drop (length (if preserve_comments s then takeWhile (my_isspace (charset_info s)) pos else [])) pos"
  define l1 s1 where "l1 = (emit (if preserve_comments s then takeWhile (my_isspace (charset_info s)) pos else []) l)\<lparr>out := []\<rparr>"
    and "s1 = s\<lparr>glob_buffer := glob_buffer s @ out (emit (if preserve_comments s then takeWhile (my_isspace (charset_info s)) pos else []) l)\<rparr>"
  define tr where "tr \<longleftrightarrow> preserve_comments s1 \<and> is_line_comment pos1 False s1"
  define s2 where "s2 = (if tr then s1\<lparr>glob_buffer := glob_buffer s1 @ cstr pos1\<rparr> else s1)"
  define pos2 where "pos2 = (if tr then drop (length (cstr pos1)) pos1 else pos1)"
  have e: "al_run exec pos l s = (case run_found exec GLOB (find_command (cstr (glob_buffer s2)) s2) s2 of
      None \<Rightarrow> None
    | Some (ret, s) \<Rightarrow> if ret > 0 then Some (Quit l1 s)
        else Some (Next pos2 (if mysql_oracle_mode s then l1\<lparr>in_string := NUL\<rparr> else l1)
              (s\<lparr>glob_buffer := [], is_pl_escape_sql := False\<rparr>)))"
    unfolding al_run_def flush_def Let_def pos1_def l1_def s1_def tr_def s2_def pos2_def prod.case by (rule refl)
  have "ok s2" unfolding s2_def s1_def using handlers_upd(1) [OF assms(1)] assms(2) by simp
  then obtain ret s3 where r: "run_found exec GLOB (find_command (cstr (glob_buffer s2)) s2) s2 = Some (ret, s3)" "ok s3"
    using run_found_ok [OF assms(1)] by metis
  have "length pos2 < n" using assms(3) by (auto simp: pos2_def pos1_def)
  moreover have "ok (s3\<lparr>glob_buffer := [], is_pl_escape_sql := False\<rparr>)"
    using handlers_upd(1,3) [OF assms(1)] r(2) by blast
  ultimately show ?thesis unfolding e r(1) using r(2) by simp
qed

lemma al_statement_ok:
  assumes "handlers_ok exec ok" and "ok s" and "pos \<noteq> []"
  shows "\<exists>fl. al_statement exec pos l s = Some fl \<and> flow_ok ok (length pos) fl"
proof -
  have d: "length (drop (length (delimiter s)) pos) < length pos"
    using assms(3) handlers_delim [OF assms(1,2)] by (cases pos; cases "delimiter s") auto
  have f: "ok (s\<lparr>glob_buffer := b\<rparr>)" "ok (s\<lparr>glob_buffer := b, is_pl_escape_sql := p\<rparr>)"
      "ok (s\<lparr>is_pl_escape_sql := p, glob_buffer := b\<rparr>)" for b p
    using handlers_upd(1,3) [OF assms(1)] assms(2) by blast+
  show ?thesis
    unfolding al_statement_def flush_def Let_def
    using al_run_ok [OF assms(1,2) d] al_run_ok [OF assms(1) f(1) d] d f assms(2) by auto
qed


lemma connect_mysql_tenant_ok:
  assumes "handlers_ok exec ok" and "ok s"
  shows "\<exists>s'. connect_mysql_tenant exec s = Some s' \<and> ok s'"
proof -
  have "\<exists>s'. (case exec Com_connect GLOB str (s\<lparr>glob_buffer := b\<rparr>) of None \<Rightarrow> None
      | Some (ret, s) \<Rightarrow> Some (s\<lparr>glob_buffer := []\<rparr>)) = Some s' \<and> ok s'" for str b
    using handlers_run [OF assms(1) handlers_upd(1) [OF assms], of Com_connect GLOB str b] handlers_upd(1) [OF assms(1)]
    by fastforce
  then show ?thesis unfolding connect_mysql_tenant_def Let_def by blast
qed

lemma al_line_comment_ok:
  assumes "handlers_ok exec ok" and "ok s"
  shows "\<exists>fl. al_line_comment exec pos l s = Some fl \<and> flow_ok ok n fl"
proof -
  have b: "ok (s\<lparr>glob_buffer := b\<rparr>)" for b by (rule handlers_upd [OF assms])
  have c: "\<exists>fl. map_option (Stop k) (connect_mysql_tenant exec (s\<lparr>glob_buffer := b\<rparr>)) = Some fl \<and> flow_ok ok n fl" for k b
    using connect_mysql_tenant_ok [OF assms(1) b, of b] by auto
  have g: "\<exists>fl. (case exec Com_go GLOB None (s\<lparr>glob_buffer := b\<rparr>) of None \<Rightarrow> None
      | Some (ret, s) \<Rightarrow> if ret > 0 then Some (Quit k s) else Some (Stop k (s\<lparr>glob_buffer := []\<rparr>))) = Some fl
      \<and> flow_ok ok n fl" for k b
    using handlers_run [OF assms(1) b, of Com_go GLOB None b] handlers_upd(1) [OF assms(1)] by fastforce
  show ?thesis
    unfolding al_line_comment_def flush_def Let_def prod.case
    using c g b by (simp split del: if_split) (auto split: if_split)
qed

definition runs :: "('s \<Rightarrow> bool) \<Rightarrow> nat \<Rightarrow> 's flow option \<Rightarrow> bool" where
  "runs ok n r \<longleftrightarrow> (\<exists>fl. r = Some fl \<and> flow_ok ok n fl)"

lemma runs_if: "(c \<Longrightarrow> runs ok n a) \<Longrightarrow> (\<not> c \<Longrightarrow> runs ok n b) \<Longrightarrow> runs ok n (if c then a else b)"
  by simp

lemma runs_Next: "ok s \<Longrightarrow> length p < n \<Longrightarrow> runs ok n (Some (Next p l s))"
  by (simp add: runs_def)

lemma al_step_ok:
  assumes "handlers_ok exec ok" and "ok s" and "pos \<noteq> []"
  shows "runs ok (length pos) (al_step exec slash cmd pos l s)"
proof -
  have d: "length (drop 1 pos) < length pos" "length (drop 2 pos) < length pos"
      "0 < n \<Longrightarrow> length (drop n pos) < length pos" for n
    using assms(3) by (cases pos; simp)+
  have c: "runs ok (length pos) (Some (al_char pos l s))"
    using assms(2) d by (simp add: al_char_def Let_def runs_def split: if_split)
  have o: "runs ok (length pos) (al_backslash exec cmd pos l s)" "runs ok (length pos) (al_statement exec pos l s)"
      "runs ok (length pos) (al_line_comment exec pos l s)"
    unfolding runs_def by (rule al_backslash_ok al_statement_ok al_line_comment_ok; fact assms)+
  show ?thesis
    unfolding al_step_def flush_def Let_def prod.case
    by (intro runs_if runs_Next c o d handlers_upd(1) [OF assms(1)] assms(2))
qed

lemma some_bool [simp]: "Ex Not" "\<exists>r :: bool. r"
  by blast+

lemma al_loop_ok:
  assumes "handlers_ok exec ok"
  shows "ok s \<Longrightarrow> \<exists>r l' s'. al_loop exec slash cmd pos l s = Some (r, l', s') \<and> ok s'"
proof (induction "length pos" arbitrary: pos l s rule: less_induct)
  case less
  show ?case
  proof (cases "pos = []")
    case True
    then show ?thesis using less.prems by (subst al_loop.simps) auto
  next
    case False
    from al_step_ok [OF assms less.prems False, of slash cmd l]
    obtain fl where fl: "al_step exec slash cmd pos l s = Some fl" "flow_ok ok (length pos) fl"
      unfolding runs_def by blast
    show ?thesis
    proof (cases fl)
      case (Next p l1 s1)
      then have "\<exists>r l' s'. al_loop exec slash cmd p l1 s1 = Some (r, l', s') \<and> ok s'" using fl(2) by (intro less.hyps) simp_all
      then show ?thesis using False fl(1) Next by (subst al_loop.simps) simp
    qed (use False fl in \<open>subst al_loop.simps, auto\<close>)+
  qed
qed

lemma al_last_ok:
  assumes "handlers_ok exec ok" and "ok s"
  shows "\<exists>r l' s'. al_last exec l s = Some (r, l', s') \<and> ok s'"
proof -
  obtain ret s1 where "run_found exec TMP (find_command (cstr (tmp_buffer s)) s) s = Some (ret, s1)" "ok s1"
    using run_found_ok [OF assms, of "find_command (cstr (tmp_buffer s)) s" TMP] by blast
  then show ?thesis
    unfolding al_last_def using assms(2) handlers_upd(1) [OF assms(1) \<open>ok s1\<close>]
    by (cases "find_command (cstr (tmp_buffer s)) s") auto
qed

lemma al_finish_ok:
  assumes "handlers_ok exec ok" and "ok s"
  shows "\<exists>r l' s'. al_finish exec truncated l s = Some (r, l', s') \<and> ok s'"
proof -
  have u: "ok (s\<lparr>glob_buffer := b\<rparr>)" "ok (s\<lparr>tmp_buffer := t\<rparr>)" "ok (s\<lparr>glob_buffer := b, tmp_buffer := t\<rparr>)" for b t
    using handlers_upd(1,2) [OF assms(1)] assms(2) by blast+
  show ?thesis
    unfolding al_finish_def Let_def
    using al_last_ok [OF assms(1) u(2)] al_last_ok [OF assms(1) u(3)] u(1) assms(2) by simp
qed

lemma execute_cmd_ok:
  assumes "handlers_ok exec ok" and "ok s"
  shows "\<exists>r s'. execute_cmd exec b s = Some (r, s') \<and> ok s'"
proof -
  obtain ret s' where "run_found exec b (find_command (cstr (get_buffer b s)) s) s = Some (ret, s')" "ok s'"
    using run_found_ok [OF assms, of "find_command (cstr (get_buffer b s)) s" b] by blast
  then show ?thesis by (simp add: execute_cmd_def)
qed

lemma ends_if:
  "(c \<Longrightarrow> \<exists>r l' s'. a = Some (r, l', s') \<and> ok s') \<Longrightarrow> (\<not> c \<Longrightarrow> \<exists>r l' s'. b = Some (r, l', s') \<and> ok s') \<Longrightarrow>
   \<exists>r l' s'. (if c then a else b) = Some (r, l', s') \<and> ok s'"
  by simp

lemma al_slash_ok:
  assumes "handlers_ok exec ok" and "ok s"
  shows "\<exists>r l' s'. al_slash exec slash line l s = Some (r, l', s') \<and> ok s'"
proof -
  let ?ends = "\<lambda>x. \<exists>r l' s'. x = Some (r :: bool option, l' :: lexer, s') \<and> ok s'"
  have r: "?ends (Some (r, k, s'))" if "ok s'" for r k s' using that by simp
  have empty: "ok (nothing_to_run s)" unfolding nothing_to_run_def using say_ok [OF assms] by (metis prod.collapse)
  obtain r1 s1 where e1: "execute_cmd exec GLOB s = Some (r1, s1)" "ok s1" using execute_cmd_ok [OF assms, of GLOB] by blast
  have "ok (s1\<lparr>glob_buffer := [], is_pl_escape_sql := False\<rparr>)"
    using handlers_upd(1,3) [OF assms(1)] e1(2) by blast
  then have glob: "?ends (case execute_cmd exec GLOB s of None \<Rightarrow> None
      | Some (True, s) \<Rightarrow> Some (Some True, k, s)
      | Some (False, s) \<Rightarrow> Some (Some False, k', s\<lparr>glob_buffer := [], is_pl_escape_sql := False\<rparr>))" for k k'
    unfolding e1(1) using e1(2) by (cases r1) simp_all
  obtain r2 s2 where e2: "execute_cmd exec LAST s = Some (r2, s2)" "ok s2" using execute_cmd_ok [OF assms, of LAST] by blast
  have last: "?ends (case execute_cmd exec LAST s of None \<Rightarrow> None
      | Some (True, s) \<Rightarrow> Some (Some True, k, s)
      | Some (False, s) \<Rightarrow> Some (Some False, k', s\<lparr>is_pl_escape_sql := False\<rparr>))" for k k'
    unfolding e2(1) using e2(2) handlers_upd(3) [OF assms(1) e2(2)] by (cases r2) simp_all
  show ?thesis
    unfolding al_slash_def Let_def by (intro ends_if glob last r empty assms(2))
qed

text \<open>
  C5: if every command handler returns and leaves a delimiter behind that is not empty, then
  so does the scanner on every line.
\<close>

theorem add_line_returns:
  assumes "handlers_ok exec ok" and "ok s"
  shows "\<exists>r l s'. add_line exec line in_str ml truncated s = Some (r, l, s') \<and> ok s'"
proof -
  define l where "l = \<lparr>in_string = in_str, ml_comment = ml, ss_comment = False, need_space = False, out = []\<rparr>"
  define s1 where "s1 = (if add_to_history s \<and> ch_at line 0 \<noteq> NUL \<and> not_in_history (cstr line) s
                 then s\<lparr>history := history s @ [cstr line]\<rparr> else s)"
  have s1: "ok s1" unfolding s1_def using assms(2) handlers_upd(4) [OF assms] by simp
  obtain r l2 s2 where sl: "al_slash exec (is_cmd_line (charset_info s1) line = IS_CMD_SLASH) line l s1 = Some (r, l2, s2)" "ok s2"
    using al_slash_ok [OF assms(1) s1] by blast
  obtain r3 l3 s3 where lo: "al_loop exec (is_cmd_line (charset_info s1) line = IS_CMD_SLASH)
      (is_cmd_line (charset_info s1) line = IS_CMD_LINE) line l2 s2 = Some (r3, l3, s3)" "ok s3"
    using al_loop_ok [OF assms(1) sl(2)] by metis
  show ?thesis
    unfolding add_line_def l_def [symmetric] Let_def s1_def [symmetric] sl
    using assms(2) sl(2) lo al_finish_ok [OF assms(1) lo(2), of truncated l3]
    by (cases r; cases r3) simp_all
qed


text \<open>A client in MySQL mode with nothing in its buffers, to apply the properties to.\<close>

definition sample_client :: client where
  "sample_client = \<lparr>glob_buffer = [], tmp_buffer = [], last_execute_buffer = [], delimiter = '';'',
     is_user_specify_delimiter = False, preserve_comments = False, is_pl_escape_sql = False,
     last_session_mode = False, mysql_oracle_mode = False, server_status = 2, real_binary_mode = False,
     add_to_history = False, charset_info = my_charset_latin1, disabled_commands = no_disabled, history = [],
     pl_escape_sql_re = (\<lambda>s. False), screen = \<lparr>written = [], opt_outfile = False, PAGER = STDOUT, obclient_num_width = 10,
       obclient_num_array = replicate OB_NUM_ARRAY NUL, str_num_object = zero_number\<rparr>,
     info = \<lparr>s_batch = False, s_query_start_line = 0, s_file_name = None, s_line_numbers = True,
       s_ignore_errors = False, s_verbose = 0, s_silent = 0, s_nobeep = False\<rparr>\<rparr>"

theorem add_line_returns_witness:
  "\<exists>r l s'. add_line (\<lambda>f r a s. Some (0, s)) ''select 1; exit'' NUL False False sample_client = Some (r, l, s')"
proof -
  have h: "handlers_ok (\<lambda>f r a s. Some (0, s)) (\<lambda>s :: client. delimiter s \<noteq> [])" by (simp add: handlers_ok_def)
  have d: "delimiter sample_client \<noteq> []" by (simp add: sample_client_def)
  show ?thesis
    using add_line_returns [OF h d, of "''select 1; exit''" NUL False False] by (elim exE conjE) (intro exI)
qed

section \<open>Statements on a line\<close>

text \<open>
  A client in MySQL mode, with a single-byte character set and no special settings, that is
  in between statements.
\<close>

definition calm :: "charset_info \<Rightarrow> disabled \<Rightarrow> cstring \<Rightarrow> 'a client_scheme \<Rightarrow> bool" where
  "calm cs d delim s \<longleftrightarrow> charset_info s = cs \<and> disabled_commands s = d \<and> delimiter s = delim
     \<and> \<not> real_binary_mode s \<and> \<not> mysql_oracle_mode s \<and> \<not> last_session_mode s \<and> \<not> preserve_comments s
     \<and> \<not> is_pl_escape_sql s \<and> \<not> add_to_history s
     \<and> server_status s AND SERVER_STATUS_ANSI_QUOTES = 0
     \<and> server_status s AND SERVER_STATUS_NO_BACKSLASH_ESCAPES = 0"

text \<open>
  \<open>plain_text delim q t rest\<close>: the text \<open>t\<close>, followed by \<open>rest\<close> and read inside a string with
  the quote \<open>q\<close> if that is not NUL, closes every string it opens, and has no command,
  delimiter or comment outside its strings. A backslash in a string, other than between
  backticks, stands before another character.
\<close>

function plain_text :: "cstring \<Rightarrow> char \<Rightarrow> string \<Rightarrow> string \<Rightarrow> bool" where
  "plain_text delim q [] rest \<longleftrightarrow> q = NUL"
| "plain_text delim q (c # t) rest \<longleftrightarrow>
     c \<noteq> NUL \<and>
     (if q \<noteq> NUL then
        (if c = BSL \<and> q \<noteq> BQ then t \<noteq> [] \<and> hd t \<noteq> NUL \<and> plain_text delim q (tl t) rest
         else plain_text delim (if c = q then NUL else q) t rest)
      else
        c \<noteq> BSL \<and> \<not> is_prefix (c # t @ rest) delim \<and> c \<noteq> CHR ''#''
        \<and> \<not> (c = CHR ''-'' \<and> ch_at (t @ rest) 0 = CHR ''-'') \<and> \<not> (c = CHR ''/'' \<and> ch_at (t @ rest) 0 = CHR ''*'')
        \<and> plain_text delim (if c = SQ \<or> c = DQ \<or> c = BQ then c else NUL) t rest)"
  by pat_completeness auto
termination
  by (relation "measure (\<lambda>(d, q, t, r). length t)") auto

declare plain_text.simps [simp del]

definition quiet :: "lexer \<Rightarrow> bool" where
  "quiet l \<longleftrightarrow> \<not> ml_comment l \<and> \<not> ss_comment l \<and> \<not> need_space l"

lemma no_space: "\<not> need_space l \<Longrightarrow> l\<lparr>need_space := False\<rparr> = l"
  by (cases l) simp

lemma al_char_quiet:
  assumes "quiet l" and "in_string l \<noteq> NUL \<or> \<not> (c = CHR ''/'' \<and> ch_at p 0 = CHR ''*'')"
  shows "al_char (c # p) l s = Next p
    (emit [c] (if c = in_string l then l\<lparr>in_string := NUL\<rparr>
       else if in_string l = NUL \<and> (c = SQ \<or> c = DQ \<or> c = BQ) then l\<lparr>in_string := c\<rparr> else l)) s"
proof -
  define k where "k = (if c = in_string l then l\<lparr>in_string := NUL\<rparr>
       else if in_string l = NUL \<and> (c = SQ \<or> c = DQ \<or> c = BQ) then l\<lparr>in_string := c\<rparr> else l)"
  have k: "\<not> ml_comment k" "\<not> need_space k" using assms(1) by (auto simp: k_def quiet_def)
  have o: "(in_string l = NUL \<and> c = CHR ''/'' \<and> ch_at p 0 = CHR ''*'' \<and> e) = False" for e using assms(2) by blast
  have q: "ss_comment l = False" "ml_comment l = False" using assms(1) by (simp_all add: quiet_def)
  have c1: "ch_at (c # p) 1 = ch_at p 0" by (simp add: ch_at_def)
  have "al_char (c # p) l s = Next p (emit [c] (k\<lparr>need_space := False\<rparr>)) s"
    unfolding al_char_def Let_def c1 ch_at_Cons_0 o q simp_thms if_False k_def [symmetric]
    using k by simp
  then show ?thesis using k(2) by (simp add: no_space k_def [symmetric])
qed

lemma al_step_calm:
  assumes "calm cs d delim s" and "quiet l" and "\<not> use_mb cs"
  shows "al_step exec slash cmd pos l s =
    (if my_isspace cs (ch_at pos 0) \<and> out l = [] \<and> glob_buffer s = [] then Some (Next (drop 1 pos) l s)
     else if ch_at pos 0 = BSL \<and> in_string l \<noteq> BQ then al_backslash exec cmd pos l s
     else if in_string l = NUL \<and> is_prefix pos delim then al_statement exec pos l s
     else if in_string l = NUL \<and> is_line_comment pos (ch_at pos 2 = NUL \<or> glob_buffer s = [] \<and> out l = []) s
     then al_line_comment exec pos l s
     else if in_string l = NUL \<and> ch_at pos 0 = CHR ''/'' \<and> ch_at pos 1 = CHR ''*''
       \<and> \<not> (ch_at pos 2 = CHR ''!'' \<or> ch_at pos 2 = CHR ''+'' \<or> ch_at pos 2 = CHR ''M'' \<and> ch_at pos 3 = CHR ''!'')
     then Some (Next (drop 2 pos) (l\<lparr>out := [], ml_comment := True\<rparr>) (s\<lparr>glob_buffer := glob_buffer s @ out l\<rparr>))
     else Some (al_char pos l s))"
proof -
  have f: "charset_info s = cs" "use_mb cs = False" "preserve_comments s = False" "ml_comment l = False"
    "mysql_oracle_mode s = False" "is_pl_escape_sql s = False" "delimiter s = delim"
    "(server_status s AND SERVER_STATUS_ANSI_QUOTES \<noteq> 0) = False"
    "(server_status s AND SERVER_STATUS_NO_BACKSLASH_ESCAPES \<noteq> 0) = False"
    using assms by (simp_all add: calm_def quiet_def)
  show ?thesis
    unfolding al_step_def Let_def flush_def f
    by (simp only: simp_thms if_True if_False prod.case less_irrefl conj_assoc)
qed

lemma al_step_string:
  assumes "calm cs d delim s" and "quiet l" and "in_string l \<noteq> NUL" and "\<not> use_mb cs"
    and "out l \<noteq> [] \<or> glob_buffer s \<noteq> []"
  shows "al_step exec slash cmd (c # p) l s =
    (if c = BSL \<and> in_string l \<noteq> BQ then al_backslash exec cmd (c # p) l s else Some (al_char (c # p) l s))"
  unfolding al_step_calm [OF assms(1,2,4)] using assms(3,5) by auto

lemma al_backslash_string:
  assumes "in_string l \<noteq> NUL" and "d \<noteq> NUL"
  shows "al_backslash exec cmd (c # d # p) l s = Some (Next p (emit [BSL, d] l) s)"
  using assms by (simp add: al_backslash_def)

lemma al_step_plain:
  assumes "calm cs d delim s" and "quiet l" and "in_string l = NUL" and "\<not> use_mb cs"
    and "out l \<noteq> [] \<or> glob_buffer s \<noteq> [] \<or> \<not> my_isspace cs c"
    and "c \<noteq> BSL" and "\<not> is_prefix (c # p) delim" and "c \<noteq> CHR ''#''"
    and "\<not> (c = CHR ''-'' \<and> ch_at p 0 = CHR ''-'')" and "\<not> (c = CHR ''/'' \<and> ch_at p 0 = CHR ''*'')"
  shows "al_step exec slash cmd (c # p) l s = Some (al_char (c # p) l s)"
proof -
  have lc: "\<not> is_line_comment (c # p) b s" for b
    using assms(8,9) by (auto simp: is_line_comment_def)
  show ?thesis
    unfolding al_step_calm [OF assms(1,2,4)] using assms(5-7,10) lc by auto
qed


lemma al_loop_Next:
  assumes "al_step exec slash cmd pos l s = Some (Next p k s')" and "pos \<noteq> []"
  shows "al_loop exec slash cmd pos l s = al_loop exec slash cmd p k s'"
  using assms by (subst al_loop.simps) simp

lemma lexer_id: "in_string l = NUL \<Longrightarrow> l\<lparr>in_string := NUL\<rparr> = l"
  by (cases l) simp

lemma quiet_upd [simp]: "quiet (l\<lparr>in_string := q\<rparr>) = quiet l" "quiet (emit t l) = quiet l" "quiet (l\<lparr>out := t\<rparr>) = quiet l"
  by (simp_all add: quiet_def emit_def)

lemma plain_scan:
  assumes "calm cs d delim s" and "\<not> use_mb cs"
  shows "plain_text delim (in_string l) t rest \<Longrightarrow> quiet l \<Longrightarrow>
    out l \<noteq> [] \<or> glob_buffer s \<noteq> [] \<or> in_string l = NUL \<and> (t = [] \<or> \<not> my_isspace cs (hd t)) \<Longrightarrow>
    al_loop exec slash cmd (t @ rest) l s = al_loop exec slash cmd rest (l\<lparr>out := out l @ t, in_string := NUL\<rparr>) s"
proof (induction "length t" arbitrary: t l rule: less_induct)
  case less
  show ?case
  proof (cases t)
    case Nil
    then show ?thesis using less.prems(1) by (simp add: plain_text.simps lexer_id)
  next
    case (Cons c u)
    let ?q = "in_string l"
    have pt: "plain_text delim ?q (c # u) rest" using less.prems(1) Cons by simp
    show ?thesis
    proof (cases "?q \<noteq> NUL")
      case True
      have ne: "out l \<noteq> [] \<or> glob_buffer s \<noteq> []" using less.prems(3) True by blast
      note st = al_step_string [OF assms(1) less.prems(2) True assms(2) ne, of exec slash cmd c "u @ rest"]
      show ?thesis
      proof (cases "c = BSL \<and> ?q \<noteq> BQ")
        case bsl: True
        then obtain e v where u: "u = e # v" "e \<noteq> NUL" "plain_text delim ?q v rest"
          using pt True by (cases u) (auto simp: plain_text.simps)
        have "al_step exec slash cmd (t @ rest) l s = Some (Next (v @ rest) (emit [BSL, e] l) s)"
          using st bsl al_backslash_string [OF True u(2), of exec cmd c "v @ rest" s] Cons u(1) by simp
        moreover have "al_loop exec slash cmd (v @ rest) (emit [BSL, e] l) s
            = al_loop exec slash cmd rest ((emit [BSL, e] l)\<lparr>out := out (emit [BSL, e] l) @ v, in_string := NUL\<rparr>) s"
          using u Cons less.prems(2) by (intro less.hyps) auto
        ultimately show ?thesis using Cons u(1) bsl by (simp add: al_loop_Next emit_def)
      next
        case False
        define k where "k = emit [c] (l\<lparr>in_string := if c = ?q then NUL else ?q\<rparr>)"
        have "al_char (c # u @ rest) l s = Next (u @ rest) k s"
          using al_char_quiet [OF less.prems(2), of c "u @ rest" s] True by (simp add: k_def)
        then have "al_step exec slash cmd (t @ rest) l s = Some (Next (u @ rest) k s)"
          using st False Cons by auto
        moreover have "al_loop exec slash cmd (u @ rest) k s
            = al_loop exec slash cmd rest (k\<lparr>out := out k @ u, in_string := NUL\<rparr>) s"
          using pt True False Cons less.prems(2) by (intro less.hyps) (auto simp: plain_text.simps k_def)
        ultimately show ?thesis using Cons by (simp add: al_loop_Next emit_def k_def)
      qed
    next
      case False
      then have q: "?q = NUL" by simp
      define k where "k = emit [c] (l\<lparr>in_string := if c = SQ \<or> c = DQ \<or> c = BQ then c else NUL\<rparr>)"
      have p: "c \<noteq> NUL" "c \<noteq> BSL" "\<not> is_prefix (c # u @ rest) delim" "c \<noteq> CHR ''#''"
          "\<not> (c = CHR ''-'' \<and> ch_at (u @ rest) 0 = CHR ''-'')" "\<not> (c = CHR ''/'' \<and> ch_at (u @ rest) 0 = CHR ''*'')"
          "plain_text delim (in_string k) u rest"
        using pt q by (simp_all add: plain_text.simps k_def split: if_splits)
      have "out l \<noteq> [] \<or> glob_buffer s \<noteq> [] \<or> \<not> my_isspace cs c" using less.prems(3) Cons by auto
      note st = al_step_plain [OF assms(1) less.prems(2) q assms(2) this p(2-6), of exec slash cmd]
      have "al_char (c # u @ rest) l s = Next (u @ rest) k s"
        using al_char_quiet [OF less.prems(2), of c "u @ rest" s] p(1,6) q lexer_id [OF q] by (auto simp: k_def)
      then have "al_step exec slash cmd (t @ rest) l s = Some (Next (u @ rest) k s)" using st Cons by simp
      moreover have "al_loop exec slash cmd (u @ rest) k s
          = al_loop exec slash cmd rest (k\<lparr>out := out k @ u, in_string := NUL\<rparr>) s"
        using p(7) Cons less.prems(2) by (intro less.hyps) (auto simp: k_def)
      ultimately show ?thesis using Cons by (simp add: al_loop_Next emit_def k_def)
    qed
  qed
qed

lemma plain_text_no_NUL: "plain_text delim q t rest \<Longrightarrow> NUL \<notin> set t"
proof (induction delim q t rest rule: plain_text.induct)
  case (2 delim q c t rest)
  then show ?case by (cases t) (auto simp: plain_text.simps split: if_splits)
qed simp

text \<open>A statement begins at its first character that is not blank.\<close>

definition lead :: "charset_info \<Rightarrow> string \<Rightarrow> string \<Rightarrow> string" where
  "lead cs b t = (if b = [] then dropWhile (my_isspace cs) t else t)"

lemma skip_blanks:
  assumes "calm cs d delim s" and "\<not> use_mb cs" and "quiet l" and "out l = []" and "glob_buffer s = []"
  shows "al_loop exec slash cmd (t @ rest) l s = al_loop exec slash cmd (dropWhile (my_isspace cs) t @ rest) l s"
proof (induction t)
  case (Cons c t)
  have "my_isspace cs c \<Longrightarrow> al_step exec slash cmd (c # t @ rest) l s = Some (Next (t @ rest) l s)"
    unfolding al_step_calm [OF assms(1,3,2)] using assms by simp
  then show ?case using Cons.IH al_loop_Next [of exec slash cmd "c # t @ rest" l s "t @ rest" l s]
    by (cases "my_isspace cs c") simp_all
qed simp

lemma lead_scan:
  assumes "calm cs d delim s" and "\<not> use_mb cs" and "quiet l" and "out l = []"
    and "plain_text delim (in_string l) (lead cs (glob_buffer s) t) rest" and "glob_buffer s = [] \<longrightarrow> in_string l = NUL"
  shows "al_loop exec slash cmd (t @ rest) l s
    = al_loop exec slash cmd rest (l\<lparr>out := lead cs (glob_buffer s) t, in_string := NUL\<rparr>) s"
proof -
  let ?t = "lead cs (glob_buffer s) t"
  have "al_loop exec slash cmd (t @ rest) l s = al_loop exec slash cmd (?t @ rest) l s"
    unfolding lead_def by (cases "glob_buffer s = []") (simp_all add: skip_blanks [OF assms(1-4), of exec slash cmd t rest])
  moreover have "?t = [] \<or> \<not> my_isspace cs (hd ?t)" if "glob_buffer s = []"
    using hd_dropWhile [of "my_isspace cs" t] that by (auto simp: lead_def)
  then have "out l \<noteq> [] \<or> glob_buffer s \<noteq> [] \<or> in_string l = NUL \<and> (?t = [] \<or> \<not> my_isspace cs (hd ?t))"
    using assms(6) by blast
  ultimately show ?thesis
    using plain_scan [OF assms(1,2,5,3)] assms(4) by simp
qed

text \<open>
  The line \<open>t\<^sub>1 delim t\<^sub>2 delim ... tail\<close>, where no text contains a delimiter of its own. The
  first one continues the statement \<open>b\<close> of the lines before, inside a string if \<open>q\<close> is not NUL.
\<close>

definition line_of :: "cstring \<Rightarrow> string list \<Rightarrow> string \<Rightarrow> string" where
  "line_of delim ts tail = concat (map (\<lambda>t. t @ delim) ts) @ tail"

fun plain_line :: "charset_info \<Rightarrow> cstring \<Rightarrow> string \<Rightarrow> char \<Rightarrow> string list \<Rightarrow> string \<Rightarrow> bool" where
  "plain_line cs delim b q [] tail \<longleftrightarrow> (b = [] \<longrightarrow> q = NUL) \<and> plain_text delim q (lead cs b tail) []"
| "plain_line cs delim b q (t # ts) tail \<longleftrightarrow> (b = [] \<longrightarrow> q = NUL)
     \<and> plain_text delim q (lead cs b t) (delim @ line_of delim ts tail) \<and> plain_line cs delim [] NUL ts tail"

text \<open>The statements one after the other, each completed in the buffer, up to a fatal error.\<close>

fun run_all :: "'a handler \<Rightarrow> charset_info \<Rightarrow> string list \<Rightarrow> 'a client_scheme \<Rightarrow> (bool \<times> 'a client_scheme) option" where
  "run_all exec cs [] s = Some (False, s)"
| "run_all exec cs (t # ts) s =
     (let s = s\<lparr>glob_buffer := glob_buffer s @ lead cs (glob_buffer s) t\<rparr>
      in case run_found exec GLOB (find_command (cstr (glob_buffer s)) s) s of
           None \<Rightarrow> None
         | Some (ret, s) \<Rightarrow>
             if ret > 0 then Some (True, s)
             else run_all exec cs ts (s\<lparr>glob_buffer := [], is_pl_escape_sql := False\<rparr>))"

text \<open>Each statement leaves the client as calm as it was.\<close>

fun calm_run ::
  "'a handler \<Rightarrow> charset_info \<Rightarrow> disabled \<Rightarrow> cstring \<Rightarrow> string list \<Rightarrow> 'a client_scheme \<Rightarrow> bool" where
  "calm_run exec cs d delim [] s \<longleftrightarrow> calm cs d delim s"
| "calm_run exec cs d delim (t # ts) s \<longleftrightarrow> calm cs d delim s \<and>
     (let s = s\<lparr>glob_buffer := glob_buffer s @ lead cs (glob_buffer s) t\<rparr>
      in case run_found exec GLOB (find_command (cstr (glob_buffer s)) s) s of
           None \<Rightarrow> True
         | Some (ret, s) \<Rightarrow>
             \<not> ret > 0 \<longrightarrow> calm_run exec cs d delim ts (s\<lparr>glob_buffer := [], is_pl_escape_sql := False\<rparr>))"

lemma is_prefix_append: "is_prefix (t @ r) t"
  by (induction t) simp_all

lemma at_delimiter:
  assumes "calm cs d delim s" and "\<not> use_mb cs" and "quiet l" and "in_string l = NUL"
    and "delim \<noteq> []" and "hd delim \<noteq> BSL" and "\<not> my_isspace cs (hd delim)"
  shows "al_step exec slash cmd (delim @ rest) l s = al_run exec rest l s"
proof -
  note p = is_prefix_append [of delim rest]
  have h: "ch_at (delim @ rest) 0 = hd delim" using assms(5) by (cases delim) simp_all
  have "al_statement exec (delim @ rest) l s = al_run exec rest l s"
    using assms(1) by (simp add: al_statement_def calm_def)
  then show ?thesis
    unfolding al_step_calm [OF assms(1,3,2)] h using assms(4,6,7) p by simp
qed

lemma al_run_calm:
  assumes "calm cs d delim s" and "quiet l"
  shows "al_run exec pos l s =
    (let s = s\<lparr>glob_buffer := glob_buffer s @ out l\<rparr>
     in case run_found exec GLOB (find_command (cstr (glob_buffer s)) s) s of
          None \<Rightarrow> None
        | Some (ret, s) \<Rightarrow>
            if ret > 0 then Some (Quit (l\<lparr>out := []\<rparr>) s)
            else Some (Next pos (if mysql_oracle_mode s then l\<lparr>out := [], in_string := NUL\<rparr> else l\<lparr>out := []\<rparr>)
                        (s\<lparr>glob_buffer := [], is_pl_escape_sql := False\<rparr>)))"
proof -
  have e: "emit [] l = l" by (simp add: emit_def)
  have p: "preserve_comments s = False" using assms(1) by (simp add: calm_def)
  show ?thesis unfolding al_run_def flush_def Let_def e p if_False list.size drop_0 prod.case
    using p by (simp split: option.splits)
qed

lemma statements_loop:
  assumes "\<not> use_mb cs" and "delim \<noteq> []" and "hd delim \<noteq> BSL" and "\<not> my_isspace cs (hd delim)"
  shows "calm_run exec cs d delim ts s \<Longrightarrow> quiet l \<Longrightarrow> out l = [] \<Longrightarrow>
    plain_line cs delim (glob_buffer s) (in_string l) ts tail \<Longrightarrow>
    al_loop exec slash cmd (line_of delim ts tail) l s =
      map_option (\<lambda>(r, s). (r, l\<lparr>in_string := NUL, out := if r then [] else lead cs (glob_buffer s) tail\<rparr>, s))
        (run_all exec cs ts s)"
proof (induction ts arbitrary: l s)
  case Nil
  have "al_loop exec slash cmd (tail @ []) l s = al_loop exec slash cmd [] (l\<lparr>out := lead cs (glob_buffer s) tail, in_string := NUL\<rparr>) s"
    using Nil by (intro lead_scan [OF _ assms(1)]) auto
  then show ?case by (simp add: line_of_def al_loop.simps)
next
  case (Cons t ts)
  let ?t = "lead cs (glob_buffer s) t" and ?r = "line_of delim ts tail"
  define k where "k = l\<lparr>out := ?t, in_string := NUL\<rparr>"
  define s1 where "s1 = s\<lparr>glob_buffer := glob_buffer s @ ?t\<rparr>"
  have calm: "calm cs d delim s" using Cons.prems(1) by simp
  have k: "quiet k" "in_string k = NUL" "out k = ?t" using Cons.prems(2) by (simp_all add: k_def quiet_def)
  have "al_loop exec slash cmd (t @ delim @ ?r) l s = al_loop exec slash cmd (delim @ ?r) k s"
    unfolding k_def using Cons.prems by (intro lead_scan [OF calm assms(1)]) auto
  then have loop: "al_loop exec slash cmd (line_of delim (t # ts) tail) l s = al_loop exec slash cmd (delim @ ?r) k s"
    by (simp add: line_of_def)
  have step: "al_step exec slash cmd (delim @ ?r) k s = al_run exec ?r k s"
    by (rule at_delimiter [OF calm assms(1) k(1,2) assms(2-4)])
  note run = al_run_calm [OF calm k(1), of exec ?r, unfolded k(3), folded s1_def, unfolded Let_def]
  show ?case
  proof (cases "run_found exec GLOB (find_command (cstr (glob_buffer s1)) s1) s1")
    case None
    then show ?thesis using loop step run assms(2) by (simp add: al_loop.simps [of _ _ _ "delim @ _"] s1_def [symmetric] Let_def)
  next
    case (Some a)
    obtain ret s2 where a: "a = (ret, s2)" by (cases a)
    show ?thesis
    proof (cases "ret > 0")
      case True
      then show ?thesis using loop step run assms(2) Some a
        by (simp add: al_loop.simps [of _ _ _ "delim @ _"] s1_def [symmetric] Let_def k_def)
    next
      case False
      define s3 where "s3 = s2\<lparr>glob_buffer := [], is_pl_escape_sql := False\<rparr>"
      have c3: "calm_run exec cs d delim ts s3" using Cons.prems(1) Some a False by (simp add: s1_def [symmetric] s3_def Let_def)
      then have "calm cs d delim s3" by (cases ts) simp_all
      then have o: "\<not> mysql_oracle_mode s2" by (simp add: calm_def s3_def)
      have "al_step exec slash cmd (delim @ ?r) k s = Some (Next ?r (k\<lparr>out := []\<rparr>) s3)"
        using step run Some a False o by (simp add: s3_def)
      then have "al_loop exec slash cmd (delim @ ?r) k s = al_loop exec slash cmd ?r (k\<lparr>out := []\<rparr>) s3"
        using assms(2) by (intro al_loop_Next) auto
      also have "\<dots> = map_option (\<lambda>(r, s). (r, l\<lparr>in_string := NUL, out := if r then [] else lead cs (glob_buffer s) tail\<rparr>, s))
          (run_all exec cs ts s3)"
        using Cons.IH [OF c3, of "k\<lparr>out := []\<rparr>"] k Cons.prems(4) by (simp add: k_def s3_def)
      finally show ?thesis using loop Some a False by (simp add: s1_def [symmetric] s3_def Let_def)
    qed
  qed
qed

lemma run_all_done:
  assumes "calm_run exec cs d delim ts s" and "run_all exec cs ts s = Some (False, s')"
  shows "calm cs d delim s' \<and> glob_buffer s' = (if ts = [] then glob_buffer s else [])"
  using assms
proof (induction ts arbitrary: s)
  case (Cons t ts)
  then show ?case by (auto simp: Let_def split: option.splits prod.splits if_splits)
qed simp

lemma plain_line_tail: "plain_line cs delim b q ts tail \<Longrightarrow> NUL \<notin> set (lead cs (if ts = [] then b else []) tail)"
proof (induction ts arbitrary: b q)
  case (Cons t ts)
  then show ?case using Cons.IH [of "[]" NUL] by (cases ts) simp_all
qed (auto dest: plain_text_no_NUL)

lemma al_finish_tail:
  assumes "calm cs d delim s" and "\<not> ml_comment l" and "NUL \<notin> set (glob_buffer s @ out l)"
    and "\<not> is_delimiter_command (out l) (length (out l))"
    and "find_command_name cs False d delim (glob_buffer s @ out l) = None"
  shows "al_finish exec False l s =
    Some (False, if glob_buffer s @ out l = [] then l else emit [NL] l,
      if glob_buffer s @ out l = [] then s
      else s\<lparr>glob_buffer := glob_buffer s @ out l @ [NL], tmp_buffer := glob_buffer s @ out l @ [NUL]\<rparr>)"
proof (cases "glob_buffer s @ out l = []")
  case False
  define s1 where "s1 = s\<lparr>glob_buffer := glob_buffer s @ out l @ [NL], tmp_buffer := glob_buffer s @ out l @ [NUL]\<rparr>"
  have "cstr (glob_buffer s @ out l @ [NUL]) = glob_buffer s @ out l"
    using assms(3) by (simp add: cstr_def takeWhile_append)
  then have "find_command (cstr (tmp_buffer s1)) s1 = None"
    using assms(1,5) by (simp add: find_command_def s1_def calm_def)
  moreover have "al_finish exec False l s = al_last exec (emit [NL] l) s1"
    using False assms(2,4) by (auto simp: al_finish_def Let_def emit_def s1_def butlast_append)
  ultimately show ?thesis using False by (auto simp: al_last_def s1_def)
qed (simp add: al_finish_def)

text \<open>The lexical state between statements, or after a tail of the line.\<close>

definition idle :: "string \<Rightarrow> lexer" where
  "idle t = \<lparr>in_string = NUL, ml_comment = False, ss_comment = False, need_space = False, out = t\<rparr>"

lemma add_line_plain:
  fixes s :: "'a client_scheme"
  assumes "\<not> use_mb cs" and "delim \<noteq> []" and "hd delim \<noteq> BSL" and "\<not> my_isspace cs (hd delim)"
    and "calm_run exec cs d delim ts s" and "plain_line cs delim (glob_buffer s) q ts tail"
    and "ch_at (line_of delim ts tail) 0 \<noteq> NUL \<or> line_of delim ts tail = []"
    and "b = (if ts = [] then glob_buffer s else [])" and "rest = lead cs b tail" and "NUL \<notin> set b"
    and "\<not> is_delimiter_command rest (length rest)" and "find_command_name cs False d delim (b @ rest) = None"
  shows "add_line exec (line_of delim ts tail) q False False s =
    (case run_all exec cs ts s of
       None \<Rightarrow> None
     | Some (True, s') \<Rightarrow> Some (True, idle [], s')
     | Some (False, s') \<Rightarrow>
         if b @ rest = [] then Some (False, idle [], s')
         else Some (False, idle (rest @ [NL]),
                s'\<lparr>glob_buffer := b @ rest @ [NL], tmp_buffer := b @ rest @ [NUL]\<rparr>))"
proof -
  let ?line = "line_of delim ts tail" and ?l = "\<lparr>in_string = q, ml_comment = False, ss_comment = False, need_space = False, out = []\<rparr>"
  define slash where "slash \<longleftrightarrow> is_cmd_line cs ?line = IS_CMD_SLASH"
  define cmd where "cmd \<longleftrightarrow> is_cmd_line cs ?line = IS_CMD_LINE"
  have "calm cs d delim s" using assms(5) by (cases ts) simp_all
  then have c: "add_to_history s = False" "last_session_mode s = False" "charset_info s = cs" by (simp_all add: calm_def)
  have sl: "al_slash exec sl ?line ?l s = Some (None, ?l, s)" for sl
    by (simp add: al_slash_def c(2))
  have loop: "al_loop exec slash cmd ?line ?l s =
      map_option (\<lambda>(r, s). (r, ?l\<lparr>in_string := NUL, out := if r then [] else lead cs (glob_buffer s) tail\<rparr>, s)) (run_all exec cs ts s)"
    using assms(6) by (intro statements_loop [OF assms(1-5)]) (simp_all add: quiet_def)
  have add: "add_line exec ?line q False False s =
      (case al_loop exec slash cmd ?line ?l s of None \<Rightarrow> None
       | Some (True, l, s) \<Rightarrow> Some (True, l, s) | Some (False, l, s) \<Rightarrow> al_finish exec False l s)"
    if "ch_at ?line 0 \<noteq> NUL \<or> glob_buffer s \<noteq> []"
    unfolding add_line_def Let_def c slash_def cmd_def using that by (auto simp: sl c)
  have none: ?thesis if "\<not> (ch_at ?line 0 \<noteq> NUL \<or> glob_buffer s \<noteq> [])"
  proof -
    have "?line = []" "glob_buffer s = []" using that assms(7) by auto
    then have "ts = []" "tail = []" using assms(2) by (cases ts; simp add: line_of_def)+
    then show ?thesis using \<open>?line = []\<close> \<open>glob_buffer s = []\<close> assms(6,8,9)
      by (simp add: add_line_def ch_at_def idle_def lead_def Let_def)
  qed
  show ?thesis
  proof (cases "ch_at ?line 0 \<noteq> NUL \<or> glob_buffer s \<noteq> []")
    case False
    then show ?thesis by (rule none)
  next
    case start: True
    show ?thesis
    proof (cases "run_all exec cs ts s")
      case None
      then show ?thesis using add [OF start] loop by simp
    next
      case (Some a)
      then obtain r s' where a: "run_all exec cs ts s = Some (r, s')" by (cases a) simp
      show ?thesis
      proof (cases r)
        case True
        then show ?thesis using add [OF start] loop a by (simp add: idle_def)
      next
        case False
        have d: "calm cs d delim s'" "glob_buffer s' = b"
          using run_all_done [OF assms(5)] a False assms(8) by simp_all
        have "add_line exec ?line q False False s = al_finish exec False (idle rest) s'"
          using add [OF start] loop a False d(2) assms(9) by (simp add: idle_def)
        moreover have "NUL \<notin> set rest" using plain_line_tail [OF assms(6)] assms(8,9) by simp
        ultimately show ?thesis
          using al_finish_tail [OF d(1), of "idle rest" exec] assms(10-12) a False d(2) by (simp add: idle_def emit_def)
      qed
    qed
  qed
qed


definition record_go :: "unit handler" where
  "record_go f r a s = Some (0, s\<lparr>last_execute_buffer := last_execute_buffer s @ get_buffer r s @ ''|''\<rparr>)"

lemma calm_sample: "calm my_charset_latin1 no_disabled '';'' sample_client"
  by (simp add: calm_def sample_client_def SERVER_STATUS_ANSI_QUOTES_def SERVER_STATUS_NO_BACKSLASH_ESCAPES_def)

lemma calm_record_go: "calm cs d delim s \<Longrightarrow> calm_run record_go cs d delim ts s"
  by (induction ts arbitrary: s)
    (auto simp: run_found_def record_go_def calm_def Let_def split: option.splits)



end
