(* ===== verification/Define.thy ===== *)
theory Define
  imports AddLine
begin

text \<open>
  The SQL*Plus style commands of Oracle mode in \<^verbatim>\<open>client/mysql.cc\<close>: the settings of
  \<^verbatim>\<open>set_cmd_oracle\<close>, the define variables (\<^verbatim>\<open>define_cmd_oracle\<close>,
  \<^verbatim>\<open>set_key_value\<close>, \<^verbatim>\<open>get_input_str\<close>), their substitution in a statement
  (\<^verbatim>\<open>scan_define_oracle\<close>) and \<^verbatim>\<open>run_oracle_command\<close>.

  The variables are kept in a map from pointers to pointers, so its order is that of the
  addresses; here it is an association list in that order, and the place a new key falls on
  comes from \<open>places\<close>. The outcomes of \<open>my_malloc\<close> come from \<open>mallocs\<close>; when the list is
  used up, allocations succeed. The outcome \<open>None\<close> is a read in front of an array, or a
  handler that does not return.
\<close>

section \<open>State\<close>

datatype CMD_STATE = CMD_STATE_UNKNOW | CMD_STATE_RUNED | CMD_STATE_ERROR

record oracle_client = client +
  global_define_map :: "(cstring \<times> cstring) list"
  is_define_oracle :: bool
  define_char_oracle :: char
  is_feedback_oracle :: bool
  feedback_int_oracle :: int
  is_sqlblanklines_oracle :: bool
  is_echo_oracle :: bool
  pagesize_int_oracle :: int
  is_trimspool_oracle :: bool
  is_exitcommit_oracle :: bool
  dbms_serveroutput :: bool
  conf :: settings
  stdin :: string
  mallocs :: "bool list"
  places :: "nat list"

type_synonym 'a querier = "string \<Rightarrow> 'a oracle_client_scheme \<Rightarrow> (int \<times> 'a oracle_client_scheme) option"

abbreviation MAX_DEFINE_SIZE :: nat where "MAX_DEFINE_SIZE \<equiv> 4096"

definition tell :: "cstring \<Rightarrow> INFO_TYPE \<Rightarrow> 'a oracle_client_scheme \<Rightarrow> 'a oracle_client_scheme" where
  "tell str type s = snd (say str type s)"

definition shown :: "(console \<Rightarrow> console) \<Rightarrow> 'a client_scheme \<Rightarrow> 'a client_scheme" where
  "shown f s = s\<lparr>screen := f (screen s)\<rparr>"

definition malloc :: "'a oracle_client_scheme \<Rightarrow> bool \<times> 'a oracle_client_scheme" where
  "malloc s = (case mallocs s of [] \<Rightarrow> (True, s) | b # bs \<Rightarrow> (b, s\<lparr>mallocs := bs\<rparr>))"

definition jump_space :: "charset_info \<Rightarrow> cstring \<Rightarrow> cstring" where
  "jump_space cs p = dropWhile (my_isspace cs) p"

section \<open>Settings\<close>

definition is_on_off :: "cstring \<Rightarrow> nat \<Rightarrow> int" where
  "is_on_off str len =
     (if strncaseeq ''on'' str len \<and> len = 2 then 1
      else if strncaseeq ''off'' str len \<and> len = 3 then 0
      else -1)"

definition to_digit :: "charset_info \<Rightarrow> cstring \<Rightarrow> nat \<Rightarrow> int" where
  "to_digit cs str len = (if \<forall>c \<in> set (take len str). my_isdigit cs c then atoi str else -1)"

text \<open>A setting that is \<open>on\<close> or \<open>off\<close>.\<close>

definition set_switch ::
  "cstring \<Rightarrow> (bool \<Rightarrow> 'a oracle_client_scheme \<Rightarrow> 'a oracle_client_scheme) \<Rightarrow> cstring \<Rightarrow> 'a oracle_client_scheme \<Rightarrow> 'a oracle_client_scheme" where
  "set_switch name upd start s =
     (if is_on_off start (length start) \<ge> 0 then upd (is_on_off start (length start) = 1) s
      else tell (''SP2-0265: '' @ name @ '' value is ON or OFF'') INFO_INFO s)"

definition set_define :: "cstring \<Rightarrow> 'a oracle_client_scheme \<Rightarrow> 'a oracle_client_scheme" where
  "set_define start s =
     (let c = ch_at start 0; v = is_on_off start (length start) in
      if length start = 1 then
        (if my_isdigit (charset_info s) c \<or> my_isalpha (charset_info s) c \<or> c = CHR '' '' \<or> c = CHR '' ''
         then tell ''SP2-0272: define Characters cannot be alphanumeric or blank'' INFO_INFO s
         else s\<lparr>define_char_oracle := c, is_define_oracle := True\<rparr>)
      else if v \<ge> 0 then
        (let s = s\<lparr>is_define_oracle := (v = 1)\<rparr> in
         if is_define_oracle s then s\<lparr>define_char_oracle := CHR ''&''\<rparr> else s)
      else tell ''SP2-0268: define value is invalid'' INFO_INFO s)"

definition set_feedback :: "cstring \<Rightarrow> 'a oracle_client_scheme \<Rightarrow> 'a oracle_client_scheme" where
  "set_feedback start s =
     (let n = to_digit (charset_info s) start (length start); v = is_on_off start (length start);
          s = s\<lparr>feedback_int_oracle := n\<rparr>
      in if n \<ge> 0 then
           (if n > 50000 then tell ''SP2-0267: feedback value is (0-50000)'' INFO_INFO s
            else s\<lparr>is_feedback_oracle := (n > 0)\<rparr>)
         else if v \<ge> 0 then s\<lparr>is_feedback_oracle := (v = 1), feedback_int_oracle := -1\<rparr>
         else tell ''SP2-0268: feedback value is invalid'' INFO_INFO s)"

definition set_numwidth :: "cstring \<Rightarrow> 'a oracle_client_scheme \<Rightarrow> 'a oracle_client_scheme" where
  "set_numwidth start s =
     (let n = to_digit (charset_info s) start (length start) in
      if n = -1 then tell (''SP2-0268: numwidth option not a valid number'' @ [NL]) INFO_INFO s
      else if n < 2 \<or> n > 128
      then tell (''SP2-0267: numwidth option 349 out of range (2 through 128)'' @ [NL]) INFO_INFO s
      else s\<lparr>screen := (screen s)\<lparr>obclient_num_width := nat n\<rparr>\<rparr>)"

definition dbms_enable_sql :: cstring where "dbms_enable_sql = ''call dbms_output.enable()''"

definition dbms_disable_sql :: cstring where "dbms_disable_sql = ''call dbms_output.disable()''"

definition set_serveroutput :: "'a querier \<Rightarrow> cstring \<Rightarrow> 'a oracle_client_scheme \<Rightarrow> 'a oracle_client_scheme option" where
  "set_serveroutput query start s =
     (if is_on_off start (length start) = 1 then
        (case query dbms_enable_sql s of
           None \<Rightarrow> None
         | Some (error, s) \<Rightarrow>
             Some (if error = 0 then s\<lparr>dbms_serveroutput := True\<rparr> else tell ''set serveroutput on error!'' INFO_ERROR s))
      else if is_on_off start (length start) = 0 then
        (case query dbms_disable_sql s of
           None \<Rightarrow> None
         | Some (error, s) \<Rightarrow>
             Some (if error = 0 then s\<lparr>dbms_serveroutput := False\<rparr> else tell ''set serveroutput off error!'' INFO_ERROR s))
      else Some (tell ''SP2-0265: serveroutput value is ON or OFF'' INFO_INFO s))"

text \<open>
  The setting a name stands for: \<open>name\<close> is what follows the blanks after \<open>set\<close>, and \<open>n\<close> the
  length of its first word. Two of the names are compared over a fixed length.
\<close>

definition abbreviates :: "cstring \<Rightarrow> nat \<Rightarrow> cstring \<Rightarrow> nat \<Rightarrow> bool" where
  "abbreviates name n full least \<longleftrightarrow> strncaseeq full name n \<and> n \<ge> least"

definition set_named ::
  "'a querier \<Rightarrow> cstring \<Rightarrow> nat \<Rightarrow> cstring \<Rightarrow> 'a oracle_client_scheme \<Rightarrow> (CMD_STATE \<times> 'a oracle_client_scheme) option" where
  "set_named query name n start s =
     (let ran = (\<lambda>s. Some (CMD_STATE_RUNED, s)) in
      if abbreviates name n ''define'' 3 then ran (set_define start s)
      else if abbreviates name n ''feedback'' 4 then ran (set_feedback start s)
      else if strncaseeq ''echo'' name 4
      then ran (set_switch ''echo'' (\<lambda>b s. s\<lparr>is_echo_oracle := b\<rparr>) start s)
      else if abbreviates name n ''sqlblanklines'' 5
      then ran (set_switch ''sqlblanklines'' (\<lambda>b s. s\<lparr>is_sqlblanklines_oracle := b\<rparr>) start s)
      else if abbreviates name n ''heading'' 3
      then ran (set_switch ''heading'' (\<lambda>b s. s\<lparr>conf := (conf s)\<lparr>column_names := b\<rparr>\<rparr>) start s)
      else if abbreviates name n ''termout'' 4
      then ran (set_switch ''termout'' (\<lambda>b s. s\<lparr>conf := (conf s)\<lparr>is_termout_oracle := b\<rparr>\<rparr>) start s)
      else if abbreviates name n ''pagesize'' 5
      then ran (s\<lparr>pagesize_int_oracle := to_digit (charset_info s) start (length start)\<rparr>)
      else if abbreviates name n ''trimspool'' 4
      then ran (set_switch ''trimspool'' (\<lambda>b s. s\<lparr>is_trimspool_oracle := b\<rparr>) start s)
      else if abbreviates name n ''exitcommit'' 5
      then ran (set_switch ''exitcommit'' (\<lambda>b s. s\<lparr>is_exitcommit_oracle := b\<rparr>) start s)
      else if abbreviates name n ''numwidth'' 3 then ran (set_numwidth start s)
      else if abbreviates name n ''numformat'' 4
      then Some (CMD_STATE_UNKNOW, tell (''SP2: set num format not supported'' @ [NL]) INFO_INFO s)
      else if strncaseeq ''serveroutput'' name 12
      then map_option (Pair CMD_STATE_RUNED) (set_serveroutput query start s)
      else Some (CMD_STATE_UNKNOW, s))"

definition set_cmd_oracle ::
  "'a querier \<Rightarrow> cstring \<Rightarrow> int \<Rightarrow> 'a oracle_client_scheme \<Rightarrow> (CMD_STATE \<times> 'a oracle_client_scheme) option" where
  "set_cmd_oracle query str len2 s =
     (let cs = charset_info s in
      case get_trim_comment_sql str len2 of
        None \<Rightarrow> Some (CMD_STATE_UNKNOW, s)
      | Some p \<Rightarrow>
          (let p = jump_space cs p in
           if \<not> (strncaseeq ''set'' p 3 \<and> my_isspace cs (ch_at p 3)) then Some (CMD_STATE_UNKNOW, s)
           else
             let name = jump_space cs (drop 4 p);
                 n = length (takeWhile (\<lambda>c. \<not> my_isspace cs c) name);
                 start = jump_space cs (drop n name)
             in if n = 0 \<or> start = [] then Some (CMD_STATE_UNKNOW, s)
                else set_named query name n start s))"

definition set_param_oracle :: "(cstring \<Rightarrow> bool) \<Rightarrow> cstring \<Rightarrow> 'a oracle_client_scheme \<Rightarrow> CMD_STATE \<times> 'a oracle_client_scheme" where
  "set_param_oracle column_format_re str s =
     (if column_format_re str
      then (CMD_STATE_RUNED, tell (''SP2: column xxx format not supported'' @ [NL]) INFO_INFO s)
      else (CMD_STATE_UNKNOW, s))"

section \<open>Define variables\<close>

definition same_key :: "cstring \<Rightarrow> cstring \<Rightarrow> bool" where
  "same_key k key \<longleftrightarrow> length k = length key \<and> strncaseeq k key (length key)"

definition insert_at :: "nat \<Rightarrow> 'b \<Rightarrow> 'b list \<Rightarrow> 'b list" where
  "insert_at n x xs = take n xs @ x # drop n xs"

text \<open>The assignment \<open>global_define_map[key] = val\<close> for a key at a fresh address.\<close>

definition add_define :: "cstring \<Rightarrow> cstring \<Rightarrow> 'a oracle_client_scheme \<Rightarrow> 'a oracle_client_scheme" where
  "add_define key val s =
     (let (a, s) = malloc s; (b, s) = malloc s in
      if a \<and> b then
        (case places s of
           [] \<Rightarrow> s\<lparr>global_define_map := insert_at 0 (key, val) (global_define_map s)\<rparr>
         | n # ns \<Rightarrow> s\<lparr>places := ns, global_define_map := insert_at n (key, val) (global_define_map s)\<rparr>)
      else s)"

fun find_define :: "cstring \<Rightarrow> (cstring \<times> cstring) list \<Rightarrow> cstring option" where
  "find_define key [] = None"
| "find_define key ((k, v) # m) = (if same_key k key then Some v else find_define key m)"

fun change_define :: "cstring \<Rightarrow> cstring \<Rightarrow> (cstring \<times> cstring) list \<Rightarrow> (cstring \<times> cstring) list" where
  "change_define key val [] = []"
| "change_define key val ((k, v) # m) =
     (if same_key k key then (k, val) # m else (k, v) # change_define key val m)"

definition set_key_value :: "cstring \<Rightarrow> cstring \<Rightarrow> 'a oracle_client_scheme \<Rightarrow> 'a oracle_client_scheme" where
  "set_key_value strkey strval s =
     (if strkey \<noteq> [] \<and> strval \<noteq> [] then
        case find_define strkey (global_define_map s) of
          Some _ \<Rightarrow>
            (let (a, s) = malloc s
             in if a then s\<lparr>global_define_map := change_define strkey strval (global_define_map s)\<rparr> else s)
        | None \<Rightarrow> add_define strkey strval s
      else s)"

definition display_key_value :: "'a oracle_client_scheme \<Rightarrow> 'a oracle_client_scheme" where
  "display_key_value s =
     fold (\<lambda>(k, v). tell (take (MAX_DEFINE_SIZE - 1) (''DEFINE '' @ k @ ''     = '' @ v)) INFO_INFO)
       (global_define_map s) s"

definition valid_define_name :: "char \<Rightarrow> bool" where
  "valid_define_name c \<longleftrightarrow> c = CHR ''_'' \<or> CHR ''0'' \<le> c \<and> c \<le> CHR ''9''
     \<or> CHR ''a'' \<le> c \<and> c \<le> CHR ''z'' \<or> CHR ''A'' \<le> c \<and> c \<le> CHR ''Z''"

text \<open>The value part: a word, or a text between quotes, of which \<open>instring\<close> is the opening one.\<close>

definition define_value :: "cstring \<Rightarrow> cstring \<Rightarrow> 'a oracle_client_scheme \<Rightarrow> 'a oracle_client_scheme" where
  "define_value key p s =
     (let quoted = (ch_at p 0 = SQ \<or> ch_at p 0 = DQ);
          instring = (if quoted then ch_at p 0 else NUL);
          p = (if quoted then drop 1 p else p);
          val = takeWhile (\<lambda>c. \<not> (my_isspace (charset_info s) c \<or> c = instring)) p;
          last = ch_at p (length val);
          instring = (if last = SQ \<or> last = DQ then NUL else instring)
      in if instring \<noteq> NUL then tell ''invalid string'' INFO_INFO s
         else if val = [] then tell ''SP2-0137: invalid define value'' INFO_INFO s
         else set_key_value key val s)"

definition define_cmd_oracle :: "cstring \<Rightarrow> 'a oracle_client_scheme \<Rightarrow> 'a oracle_client_scheme" where
  "define_cmd_oracle line s =
     (let cs = charset_info s;
          p = jump_space cs line;
          p = (if strncaseeq p ''define'' 6 then drop 6 p else p);
          p = jump_space cs p
      in if p = [] then display_key_value s
         else
           let key = takeWhile valid_define_name p;
               last = ch_at p (length key);
               p = jump_space cs (drop (length key + 1) p)
           in if key = [] then tell ''SP2-0553: invalid define name'' INFO_INFO s
              else if ch_at p 0 \<noteq> CHR ''='' \<and> last \<noteq> CHR ''=''
              then tell ''SP2-0136: DEFINE xxx=xxx'' INFO_INFO s
              else
                define_value key
                  (jump_space cs (if ch_at p 0 = CHR ''='' \<and> last \<noteq> CHR ''='' then drop 1 p else p)) s)"

section \<open>Substitution\<close>

definition special_chars :: cstring where
  "special_chars = ''~!@#$%^&*()+`=-{}|[]:'' @ [DQ] @ '';'' @ [SQ] @ ''<>?,./'' @ [TAB, CR, NL, BSL, CHR '' '']"

definition get_end_str :: "charset_info \<Rightarrow> char \<Rightarrow> cstring \<times> cstring \<times> cstring" where
  "get_end_str cs define =
     (let e2 = filter (\<lambda>c. c \<noteq> define) special_chars
      in (special_chars, e2, filter (\<lambda>c. \<not> my_isspace cs c) e2))"

text \<open>\<open>fgets(buf, n, stdin)\<close>: what it puts into the zeroed buffer, and the rest of the input.\<close>

definition fgets :: "nat \<Rightarrow> string \<Rightarrow> string \<times> string" where
  "fgets n inp =
     (let l = takeWhile (\<lambda>c. c \<noteq> NL) inp;
          l = take (n - 1) (l @ (if length l < length inp then [NL] else []))
      in (l, drop (length l) inp))"

definition get_input_str ::
  "cstring \<Rightarrow> nat \<Rightarrow> 'a oracle_client_scheme \<Rightarrow> (cstring \<times> 'a oracle_client_scheme) option" where
  "get_input_str varkey defcount s =
     (case find_define varkey (global_define_map s) of
        Some v \<Rightarrow> Some (v, s)
      | None \<Rightarrow>
          let s = shown (tee_fprintf STDOUT (''Please input '' @ varkey @ '' val:  '')) s;
              (l, inp) = fgets MAX_DEFINE_SIZE (stdin s);
              s = s\<lparr>stdin := inp\<rparr>;
              buf = cstr l
          in if buf = [] then None
             else
               let buf = (if last buf = NL then butlast buf else buf);
                   s = shown (\<lambda>c. tee_outfile [NL] (tee_outfile buf c)) s
               in Some (buf, if defcount > 1 then add_define varkey buf s else s))"

text \<open>
  The characters after a define character: \<open>t\<close> is the text from \<open>ptmp\<close> to \<open>p\<close>, \<open>moved\<close> what
  was appended to the lines and the new buffer when \<open>ptmp\<close> was advanced. The result is the
  rest, the text at \<open>ptmp\<close>, the number of define characters there, and the moved text.
\<close>

function define_gap ::
  "charset_info \<Rightarrow> char \<Rightarrow> cstring \<Rightarrow> string \<Rightarrow> nat \<Rightarrow> bool \<Rightarrow> string \<Rightarrow> cstring \<times> string \<times> nat \<times> string" where
  "define_gap cs d p t def_count have_space moved =
     (case p of
        [] \<Rightarrow> (p, t, def_count, moved)
      | c # p' \<Rightarrow>
          let (e1, e2, e3) = get_end_str cs d in
          if \<not> (my_isspace cs c \<or> c \<in> set e1 \<or> c = d) then (p, t, def_count, moved)
          else if c = d then
            (if have_space then define_gap cs d p' [c] 1 False (moved @ t)
             else define_gap cs d p' (t @ [c]) (def_count + 1) False moved)
          else if c \<in> set e2 then
            (let run = takeWhile (\<lambda>c. c \<in> set e2) p;
                 rest = dropWhile (\<lambda>c. c \<in> set e2) p
             in if rest = [] \<or> (\<exists>c \<in> set run. c \<in> set e3)
                then define_gap cs d rest [] 0 False (moved @ t @ run)
                else define_gap cs d rest (t @ run) def_count True moved)
          else define_gap cs d p' [c] 0 False (moved @ t))"
  by pat_completeness auto
termination
  by (relation "measure (\<lambda>(cs, d, p, r). length p)") (auto simp: get_end_str_def less_Suc_eq_le length_dropWhile_le)

declare define_gap.simps [simp del]

record define_scan =
  line_idx :: nat
  is_scan :: bool
  old_line :: string
  new_line :: string
  newbuffer :: string

text \<open>
  A reference to a variable at \<open>p\<close>. The result tells whether a variable was read; if not,
  the loop goes on at once.
\<close>

definition scan_reference ::
  "charset_info \<Rightarrow> char \<Rightarrow> cstring \<Rightarrow> define_scan \<Rightarrow> 'a oracle_client_scheme
   \<Rightarrow> (bool \<times> cstring \<times> define_scan \<times> 'a oracle_client_scheme) option" where
  "scan_reference cs d p st s =
     (case define_gap cs d p [] 0 False [] of (p, t, def_count, moved) \<Rightarrow>
        let keep = (if def_count \<ge> 3 then take (if odd def_count then def_count - 1 else def_count - 2) t
                    else if def_count = 0 then t else []);
            def_count = (if def_count \<ge> 3 then (if odd def_count then 1 else 2) else def_count);
            key = (if def_count = 0 then [] else takeWhile (\<lambda>c. c \<notin> set (fst (get_end_str cs d))) p);
            p = drop (length key) p;
            st = st\<lparr>old_line := old_line st @ moved @ t @ key, new_line := new_line st @ moved @ keep,
                    newbuffer := newbuffer st @ moved @ keep\<rparr>
        in if key = [] then Some (False, p, st\<lparr>is_scan := False\<rparr>, s)
           else
             case get_input_str key def_count s of
               None \<Rightarrow> None
             | Some (v, s) \<Rightarrow>
                 Some (True, p, st\<lparr>newbuffer := newbuffer st @ v, new_line := new_line st @ v, is_scan := True\<rparr>, s))"

definition show_lines :: "bool \<Rightarrow> define_scan \<Rightarrow> 'a oracle_client_scheme \<Rightarrow> 'a oracle_client_scheme" where
  "show_lines display st s =
     (if is_scan st \<and> display then
        shown (\<lambda>c. tee_fprintf STDOUT (''New Val  '' @ dec_str (line_idx st) @ '':   '' @ cstr (new_line st) @ [NL])
                 (tee_fprintf STDOUT (''Old Val  '' @ dec_str (line_idx st) @ '':   '' @ cstr (old_line st) @ [NL]) c)) s
      else s)"

text \<open>Any other character, or the end of the text after a variable.\<close>

definition scan_char ::
  "bool \<Rightarrow> cstring \<Rightarrow> define_scan \<Rightarrow> 'a oracle_client_scheme \<Rightarrow> cstring \<times> define_scan \<times> 'a oracle_client_scheme" where
  "scan_char display p st s =
     (let c = ch_at p 0;
          st = (if p \<noteq> [] then st\<lparr>newbuffer := newbuffer st @ [c]\<rparr> else st);
          st = (if p \<noteq> [] \<and> c \<noteq> NL then st\<lparr>new_line := new_line st @ [c], old_line := old_line st @ [c]\<rparr> else st)
      in if c = NL \<or> length p \<le> 1
         then (drop 1 p, st\<lparr>is_scan := False, old_line := [], new_line := [], line_idx := line_idx st + 1\<rparr>,
               show_lines display st s)
         else (drop 1 p, st, s))"

lemma define_gap_Cons_define: "define_gap cs d (d # p) t n False m = define_gap cs d p (t @ [d]) (n + 1) False m"
  by (subst define_gap.simps) (simp add: Let_def split: prod.splits)

lemma define_gap_length: "length (fst (define_gap cs d p t n h m)) \<le> length p"
proof (induction "length p" arbitrary: p t n h m rule: less_induct)
  case less
  show ?case
  proof (cases p)
    case (Cons c u)
    have u: "length (fst (define_gap cs d u t n h m)) \<le> Suc (length u)" for t n h m
      using less.hyps [of u t n h m] Cons by simp
    have w: "length (fst (define_gap cs d (dropWhile P u) t n h m)) \<le> Suc (length u)" for P t n h m
      using less.hyps [of "dropWhile P u" t n h m] length_dropWhile_le [of P u] Cons by simp
    show ?thesis
      unfolding Cons by (subst define_gap.simps) (simp add: Let_def get_end_str_def u w)
  qed (simp add: define_gap.simps)
qed

lemma scan_reference_length:
  assumes "scan_reference cs d p st s = Some (b, q, r)" and "p \<noteq> []" and "hd p = d"
  shows "length q < length p"
proof -
  obtain u where p: "p = d # u" using assms(2,3) by (cases p) auto
  obtain v t n m where g: "define_gap cs d p [] 0 False [] = (v, t, n, m)" by (rule prod_cases4)
  then have "length v < length p"
    using define_gap_length [of cs d u "[d]" 1 False "[]"] by (simp add: p define_gap_Cons_define)
  moreover have "length q \<le> length v"
    using assms(1) by (auto simp: scan_reference_def g Let_def split: if_splits option.splits)
  ultimately show ?thesis by simp
qed

lemma scan_char_length: "length (fst (scan_char display p st s)) = length p - 1"
  by (simp add: scan_char_def Let_def)

function scan_loop ::
  "bool \<Rightarrow> charset_info \<Rightarrow> char \<Rightarrow> cstring \<Rightarrow> define_scan \<Rightarrow> 'a oracle_client_scheme
   \<Rightarrow> (define_scan \<times> 'a oracle_client_scheme) option" where
  "scan_loop display cs d p st s =
     (if p = [] then Some (st, s)
      else if hd p = d then
        (case scan_reference cs d p st s of
           None \<Rightarrow> None
         | Some (found, p', st, s) \<Rightarrow>
             if \<not> found \<or> p' \<noteq> [] \<and> hd p' = d then scan_loop display cs d p' st s
             else case scan_char display p' st s of (p'', st, s) \<Rightarrow> scan_loop display cs d p'' st s)
      else case scan_char display p st s of (p', st, s) \<Rightarrow> scan_loop display cs d p' st s)"
  by pat_completeness auto
termination
  by (relation "measure (\<lambda>(display, cs, d, p, r). length p)")
    (auto dest!: scan_reference_length simp: case_prod_beta scan_char_length)

declare scan_loop.simps [simp del]

definition scan_define_oracle ::
  "string \<Rightarrow> bool \<Rightarrow> 'a oracle_client_scheme \<Rightarrow> (string \<times> 'a oracle_client_scheme) option" where
  "scan_define_oracle buffer display s =
     map_option (\<lambda>(st, s). (newbuffer st, s))
       (scan_loop display (charset_info s) (define_char_oracle s) (cstr buffer)
         \<lparr>line_idx = 1, is_scan = False, old_line = [], new_line = [], newbuffer = []\<rparr> s)"

section \<open>Commands\<close>

text \<open>
  The text of a command in the buffer and the line, without the comments before it and
  without the semicolon at its end.
\<close>

definition command_text :: "charset_info \<Rightarrow> string \<Rightarrow> cstring option" where
  "command_text cs tmp =
     (case get_trim_comment_sql (cstr tmp) (int (length tmp)) of
        None \<Rightarrow> None
      | Some p \<Rightarrow>
          let first = length (cstr tmp) - length p;
              k = length (takeWhile (\<lambda>c. c \<noteq> NUL \<and> my_isspace cs c \<and> c \<noteq> CHR '';'') (rev (drop (first + 1) tmp)));
              e = length tmp - 1 - k;
              tmp = (if tmp ! e = CHR '';'' then tmp[e := NUL] else tmp)
          in Some (cstr (drop first tmp)))"

definition run_oracle_command ::
  "'a oracle_client_ext handler \<Rightarrow> cstring \<Rightarrow> 'a oracle_client_scheme \<Rightarrow> (CMD_STATE \<times> 'a oracle_client_scheme) option" where
  "run_oracle_command exec line s =
     (let cs = charset_info s in
      case command_text cs (glob_buffer s @ line) of
        None \<Rightarrow> Some (CMD_STATE_UNKNOW, s)
      | Some name \<Rightarrow>
          let len = length (takeWhile (\<lambda>c. \<not> my_isspace cs c) name);
              p = jump_space cs (drop len name)
          in if strncaseeq ''prompt'' name len \<and> len \<ge> 3 then
               (case (if is_define_oracle s then scan_define_oracle p False s else Some (p, s)) of
                  None \<Rightarrow> None
                | Some (str, s) \<Rightarrow>
                    Some (CMD_STATE_RUNED, shown (tee_puts (cstr str) STDOUT) s\<lparr>glob_buffer := []\<rparr>))
             else if strncaseeq ''define'' name len \<and> len \<ge> 3 then
               Some (CMD_STATE_RUNED, (define_cmd_oracle p s)\<lparr>glob_buffer := []\<rparr>)
             else if strncaseeq ''execute'' name len \<and> len \<ge> 4 then
               (case exec Com_go TMP None (s\<lparr>tmp_buffer := ''begin '' @ p @ ''; end;''\<rparr>) of
                  None \<Rightarrow> None
                | Some (ret, s) \<Rightarrow>
                    Some (if ret > 0 then CMD_STATE_ERROR else CMD_STATE_RUNED, s\<lparr>glob_buffer := []\<rparr>))
             else Some (CMD_STATE_UNKNOW, s))"

section \<open>The variables as a store\<close>

text \<open>A store of named values, where different spellings may name the same variable.\<close>

locale var_store =
  fixes get :: "'s \<Rightarrow> 'k \<Rightarrow> 'v option" and set_var :: "'k \<Rightarrow> 'v \<Rightarrow> 's \<Rightarrow> 's"
    and same :: "'k \<Rightarrow> 'k \<Rightarrow> bool" and ok :: "'s \<Rightarrow> bool" and valid :: "'k \<times> 'v \<Rightarrow> bool"
  assumes get_set: "ok s \<Longrightarrow> valid (k, v) \<Longrightarrow> get (set_var k v s) k' = (if same k k' then Some v else get s k')"
    and ok_set: "ok s \<Longrightarrow> valid (k, v) \<Longrightarrow> ok (set_var k v s)"
begin

lemma ok_fold: "ok s \<Longrightarrow> \<forall>kv \<in> set kvs. valid kv \<Longrightarrow> ok (fold (case_prod set_var) kvs s)"
  by (induction kvs arbitrary: s) (auto simp: ok_set)

lemma get_fold: "ok s \<Longrightarrow> \<forall>kv \<in> set kvs. valid kv \<Longrightarrow> get (fold (case_prod set_var) kvs s) k =
    (case find (\<lambda>(k', v). same k' k) (rev kvs) of Some (k', v) \<Rightarrow> Some v | None \<Rightarrow> get s k)"
proof (induction kvs rule: rev_induct)
  case (snoc kv kvs)
  then show ?case by (cases kv) (auto simp: get_set ok_fold)
qed simp

end

text \<open>Keys are compared without regard to case.\<close>

definition fold_key :: "cstring \<Rightarrow> cstring" where
  "fold_key k = map to_lower_ascii k"

lemma same_key_iff: "same_key k key \<longleftrightarrow> fold_key k = fold_key key"
  unfolding same_key_def fold_key_def using strncaseeq_all [of k key] by (metis length_map)

text \<open>What the map stands for, and that no variable is in it twice.\<close>

definition define_map :: "(cstring \<times> cstring) list \<Rightarrow> cstring \<Rightarrow> cstring option" where
  "define_map m = map_of (map (apfst fold_key) m)"

definition defines_ok :: "(cstring \<times> cstring) list \<Rightarrow> bool" where
  "defines_ok m \<longleftrightarrow> distinct (map (fold_key \<circ> fst) m)"

lemma find_define_eq: "find_define key m = define_map m (fold_key key)"
  by (induction key m rule: find_define.induct) (auto simp: define_map_def same_key_iff)

lemma set_insert_at: "set (insert_at n x xs) = insert x (set xs)"
  by (metis insert_at_def append_take_drop_id list.simps(15) set_append Un_insert_right)

lemma map_insert_at: "map f (insert_at n x xs) = insert_at n (f x) (map f xs)"
  by (simp add: insert_at_def take_map drop_map)

lemma distinct_insert_at: "distinct (insert_at n x xs) \<longleftrightarrow> x \<notin> set xs \<and> distinct xs"
proof -
  have "distinct (us @ x # vs) \<longleftrightarrow> x \<notin> set (us @ vs) \<and> distinct (us @ vs)" for us vs :: "'a list"
    by auto
  from this [of "take n xs" "drop n xs"] show ?thesis by (simp add: insert_at_def)
qed

lemma find_define_None: "find_define k m = None \<longleftrightarrow> fold_key k \<notin> set (map (fold_key \<circ> fst) m)"
  by (induction k m rule: find_define.induct) (auto simp: same_key_iff)

lemma define_map_insert_at:
  assumes "defines_ok m" and "find_define k m = None"
  shows "define_map (insert_at n (k, v) m) = (define_map m)(fold_key k \<mapsto> v)"
    and "defines_ok (insert_at n (k, v) m)"
proof -
  let ?f = "apfst fold_key"
  have keys: "map fst (map ?f m) = map (fold_key \<circ> fst) m" by simp
  have d: "distinct (map fst (insert_at n (?f (k, v)) (map ?f m)))" "distinct (map fst (?f (k, v) # map ?f m))"
    using assms unfolding defines_ok_def find_define_None by (simp_all add: map_insert_at distinct_insert_at keys)
  have "map_of (insert_at n (?f (k, v)) (map ?f m)) = map_of (?f (k, v) # map ?f m)"
    using map_of_inject_set [OF d] by (simp add: set_insert_at)
  then show "define_map (insert_at n (k, v) m) = (define_map m)(fold_key k \<mapsto> v)"
    by (simp add: define_map_def map_insert_at)
  show "defines_ok (insert_at n (k, v) m)"
    using assms unfolding defines_ok_def find_define_None by (simp add: map_insert_at distinct_insert_at)
qed

lemma change_define_keys: "map fst (change_define k v m) = map fst m"
  by (induction k v m rule: change_define.induct) auto

lemma define_map_change:
  "find_define k m \<noteq> None \<Longrightarrow> define_map (change_define k v m) = (define_map m)(fold_key k \<mapsto> v)"
  by (induction k v m rule: change_define.induct) (auto simp: define_map_def same_key_iff fun_upd_twist)

lemma defines_ok_change: "defines_ok (change_define k v m) = defines_ok m"
  unfolding defines_ok_def by (simp only: list.map_comp [symmetric] change_define_keys)

text \<open>Allocation succeeds as long as no failure is pending.\<close>

definition store_ok :: "'a oracle_client_scheme \<Rightarrow> bool" where
  "store_ok s \<longleftrightarrow> defines_ok (global_define_map s) \<and> (\<forall>b \<in> set (mallocs s). b)"

lemma mallocs_self: "mallocs s = bs \<Longrightarrow> s\<lparr>mallocs := bs\<rparr> = s"
  by auto

lemma malloc_ok: "\<forall>b \<in> set (mallocs s). b \<Longrightarrow> \<exists>bs. malloc s = (True, s\<lparr>mallocs := bs\<rparr>) \<and> (\<forall>b \<in> set bs. b)"
  by (rule exI [of _ "tl (mallocs s)"]) (cases "mallocs s"; auto simp: malloc_def mallocs_self)

lemma add_define_ok:
  assumes "store_ok s" and "find_define k (global_define_map s) = None"
  shows "\<exists>n bs ns. add_define k v s = s\<lparr>mallocs := bs, places := ns, global_define_map := insert_at n (k, v) (global_define_map s)\<rparr>
    \<and> (\<forall>b \<in> set bs. b)"
proof -
  obtain bs where 1: "malloc s = (True, s\<lparr>mallocs := bs\<rparr>)" "\<forall>b \<in> set bs. b"
    using assms(1) malloc_ok unfolding store_ok_def by blast
  obtain bs' where 2: "malloc (s\<lparr>mallocs := bs\<rparr>) = (True, s\<lparr>mallocs := bs'\<rparr>)" "\<forall>b \<in> set bs'. b"
    using malloc_ok [of "s\<lparr>mallocs := bs\<rparr>"] 1(2) by auto
  show ?thesis
  proof (cases "places s")
    case Nil
    then show ?thesis using 1 2 unfolding add_define_def
      by (intro exI [of _ 0] exI [of _ bs'] exI [of _ "places s"]) simp
  next
    case (Cons n ns)
    then show ?thesis using 1 2 unfolding add_define_def
      by (intro exI [of _ n] exI [of _ bs'] exI [of _ ns]) simp
  qed
qed

lemma set_key_value_map:
  assumes "store_ok s" and "k \<noteq> []" and "v \<noteq> []"
  shows "define_map (global_define_map (set_key_value k v s)) = (define_map (global_define_map s))(fold_key k \<mapsto> v)"
    and "store_ok (set_key_value k v s)"
proof -
  let ?s = "set_key_value k v s"
  have "define_map (global_define_map ?s) = (define_map (global_define_map s))(fold_key k \<mapsto> v) \<and> store_ok ?s"
  proof (cases "find_define k (global_define_map s)")
    case None
    then obtain n bs ns where a: "add_define k v s = s\<lparr>mallocs := bs, places := ns,
        global_define_map := insert_at n (k, v) (global_define_map s)\<rparr>" "\<forall>b \<in> set bs. b"
      using add_define_ok [OF assms(1)] by blast
    then show ?thesis
      using None assms define_map_insert_at [of "global_define_map s" k n v]
      by (simp add: set_key_value_def store_ok_def)
  next
    case (Some w)
    obtain bs where "malloc s = (True, s\<lparr>mallocs := bs\<rparr>)" "\<forall>b \<in> set bs. b"
      using assms(1) malloc_ok unfolding store_ok_def by blast
    then show ?thesis
      using Some assms by (simp add: set_key_value_def store_ok_def define_map_change defines_ok_change)
  qed
  then show "define_map (global_define_map ?s) = (define_map (global_define_map s))(fold_key k \<mapsto> v)" "store_ok ?s"
    by simp_all
qed

interpretation defs: var_store "\<lambda>s k. find_define k (global_define_map s)" set_key_value same_key store_ok
  "\<lambda>(k, v). k \<noteq> [] \<and> v \<noteq> []"
  by unfold_locales (auto simp: set_key_value_map find_define_eq same_key_iff)

text \<open>A definition written as one word: a valid name, and a value without blanks or an opening quote.\<close>

definition definable :: "charset_info \<Rightarrow> cstring \<times> cstring \<Rightarrow> bool" where
  "definable cs kv \<longleftrightarrow>
     (case kv of (k, v) \<Rightarrow>
        k \<noteq> [] \<and> (\<forall>c \<in> set k. valid_define_name c) \<and> \<not> strncaseeq k ''define'' 6
        \<and> v \<noteq> [] \<and> (\<forall>c \<in> set v. \<not> my_isspace cs c \<and> c \<noteq> NUL) \<and> hd v \<noteq> SQ \<and> hd v \<noteq> DQ)"

definition names_visible :: "charset_info \<Rightarrow> bool" where
  "names_visible cs \<longleftrightarrow> \<not> my_isspace cs CHR ''='' \<and> (\<forall>c. valid_define_name c \<longrightarrow> \<not> my_isspace cs c)"

definition definition_line :: "cstring \<times> cstring \<Rightarrow> cstring" where
  "definition_line kv = fst kv @ ''='' @ snd kv"

lemma strncaseeq_append_not:
  assumes "\<not> strncaseeq k ''define'' 6" and "\<forall>c \<in> set k. valid_define_name c"
  shows "\<not> strncaseeq (k @ CHR ''='' # v) ''define'' 6"
proof
  assume a: "strncaseeq (k @ CHR ''='' # v) ''define'' 6"
  show False
  proof (cases "length k \<ge> 6")
    case True
    then show False using a assms(1) by (simp add: strncaseeq_def)
  next
    case False
    then have "CHR ''='' \<in> set (take 6 (k @ CHR ''='' # v))" by (simp add: take_Cons')
    then have "to_lower_ascii CHR ''='' \<in> set (map to_lower_ascii (take 6 ''define''))"
      using a unfolding strncaseeq_def by (metis list.set_map imageI)
    then show False by (simp add: to_lower_ascii_def less_eq_char_def)
  qed
qed

lemma define_cmd_oracle_word:
  assumes "definable (charset_info s) (k, v)" and "names_visible (charset_info s)"
  shows "define_cmd_oracle (definition_line (k, v)) s = set_key_value k v s"
proof -
  let ?cs = "charset_info s"
  obtain c u where k: "k = c # u" using assms(1) by (cases k) (auto simp: definable_def)
  obtain a w where v: "v = a # w" using assms(1) by (cases v) (auto simp: definable_def)
  have ck: "\<forall>c \<in> set k. valid_define_name c" "\<not> my_isspace ?cs c" "\<not> my_isspace ?cs a" "a \<noteq> NUL" "a \<noteq> SQ" "a \<noteq> DQ"
    using assms k v by (auto simp: definable_def names_visible_def)
  have key: "takeWhile valid_define_name (k @ CHR ''='' # v) = k"
    using ck(1) by (rule takeWhile_append_stop) (simp add: valid_define_name_def less_eq_char_def)
  have val: "takeWhile (\<lambda>c. \<not> (my_isspace ?cs c \<or> c = NUL)) v = v"
    using assms(1) by (simp add: definable_def takeWhile_eq_all_conv)
  have d: "\<not> strncaseeq (k @ CHR ''='' # v) ''define'' 6"
    using assms(1) by (intro strncaseeq_append_not) (auto simp: definable_def)
  have j: "jump_space ?cs (k @ CHR ''='' # v) = k @ CHR ''='' # v" "jump_space ?cs v = v"
    using ck k v by (simp_all add: jump_space_def)
  have last: "ch_at (k @ CHR ''='' # v) (length k) = CHR ''=''" "ch_at v (length v) = NUL" "ch_at v 0 = a"
    using v by (simp_all add: ch_at_def)
  have ne: "(k @ CHR ''='' # v = []) = False" "(k = []) = False" "(v = []) = False" using k v by simp_all
  have dr: "drop (length k + 1) (k @ CHR ''='' # v) = v" by simp
  have q: "(a = SQ \<or> a = DQ) = False" using ck(5,6) by simp
  show ?thesis
    unfolding define_cmd_oracle_def define_value_def definition_line_def Let_def fst_conv snd_conv append_Cons append_Nil
    by (simp only: j d key last ne dr q val simp_thms if_True if_False if_cancel HOL.refl)
qed

lemma charset_set_key_value [simp]: "charset_info (set_key_value k v s) = charset_info s"
  by (auto simp: set_key_value_def add_define_def malloc_def Let_def split: option.splits list.splits)

lemma fold_define_cmd:
  assumes "\<forall>kv \<in> set kvs. definable (charset_info s) kv" and "names_visible (charset_info s)"
  shows "fold (\<lambda>kv. define_cmd_oracle (definition_line kv)) kvs s = fold (case_prod set_key_value) kvs s"
  using assms
proof (induction kvs arbitrary: s)
  case (Cons kv kvs)
  then show ?case by (cases kv) (simp add: define_cmd_oracle_word)
qed simp

text \<open>
  C9: define variables. After any sequence of commands \<open>define name=value\<close> the value used for a
  variable is that of the last command that named it, in whatever case, and without asking;
  variables no command named keep the value they had. This holds wherever the addresses of
  the new keys fall in the map.
\<close>

theorem define_last_wins:
  assumes "store_ok s" and "names_visible (charset_info s)" and "\<forall>kv \<in> set kvs. definable (charset_info s) kv"
    and "s' = fold (\<lambda>kv. define_cmd_oracle (definition_line kv)) kvs s"
  shows "store_ok s' \<and>
    (case find (\<lambda>(k, v). same_key k key) (rev kvs) of
       Some (k, v) \<Rightarrow> get_input_str key n s' = Some (v, s')
     | None \<Rightarrow> find_define key (global_define_map s') = find_define key (global_define_map s))"
proof -
  have v: "\<forall>kv \<in> set kvs. case kv of (k, v) \<Rightarrow> k \<noteq> [] \<and> v \<noteq> []"
    using assms(3) by (auto simp: definable_def)
  have s': "s' = fold (case_prod set_key_value) kvs s"
    unfolding assms(4) by (rule fold_define_cmd [OF assms(3,2)])
  have "find_define key (global_define_map s') =
      (case find (\<lambda>(k, v). same_key k key) (rev kvs) of Some (k, v) \<Rightarrow> Some v
       | None \<Rightarrow> find_define key (global_define_map s))"
    unfolding s' by (rule defs.get_fold [OF assms(1) v])
  moreover have "store_ok s'" unfolding s' by (rule defs.ok_fold [OF assms(1) v])
  ultimately show ?thesis by (auto simp: get_input_str_def split: option.splits)
qed

definition sample_conf :: settings where
  "sample_conf = \<lparr>column_names = True, quick = False, oracle_mode = True, opt_binhex = False, opt_raw_data = False,
     column_types_flag = False, force_set_num_width_close = True, in_com_source = False, is_termout_oracle = True,
     opt_silent = 0, charset = my_charset_latin1, is_num = (\<lambda>t. False), is_num_terminal = (\<lambda>t. False),
     is_num_binary_terminal = (\<lambda>t. False), get_charset_name = (\<lambda>n. ''binary''), interrupted = (\<lambda>i. False)\<rparr>"

definition sample_oracle :: oracle_client where
  "sample_oracle = client.extend (sample_client\<lparr>last_session_mode := True, mysql_oracle_mode := True\<rparr>)
     \<lparr>global_define_map = [(''dept'', ''10'')], is_define_oracle = True, define_char_oracle = CHR ''&'',
      is_feedback_oracle = True, feedback_int_oracle = -1, is_sqlblanklines_oracle = True, is_echo_oracle = False,
      pagesize_int_oracle = -1, is_trimspool_oracle = True, is_exitcommit_oracle = True, dbms_serveroutput = False,
      conf = sample_conf, stdin = ''blue'' @ [NL], mallocs = [], places = [1, 0]\<rparr>"

lemma sample_oracle_simps:
  "charset_info sample_oracle = my_charset_latin1" "global_define_map sample_oracle = [(''dept'', ''10'')]"
  "mallocs sample_oracle = []" "define_char_oracle sample_oracle = CHR ''&''"
  by (simp_all add: sample_oracle_def client.defs sample_client_def)

lemma store_ok_sample: "store_ok sample_oracle"
  by (simp add: store_ok_def defines_ok_def sample_oracle_simps)

lemma names_visible_latin1: "names_visible my_charset_latin1"
  by (auto simp: names_visible_def my_isspace_latin1 latin1_spaces_def valid_define_name_def less_eq_char_def)

theorem define_last_wins_witness:
  "\<exists>s'. get_input_str ''DEPT'' 1 s' = Some (''30'', s')
     \<and> s' = fold (\<lambda>kv. define_cmd_oracle (definition_line kv)) [(''dept'', ''20''), (''x'', ''1''), (''Dept'', ''30'')] sample_oracle"
proof -
  let ?kvs = "[(''dept'', ''20''), (''x'', ''1''), (''Dept'', ''30'')] :: (cstring \<times> cstring) list"
  have d: "\<forall>kv \<in> set ?kvs. definable (charset_info sample_oracle) kv"
    unfolding sample_oracle_simps by code_simp
  have v: "names_visible (charset_info sample_oracle)"
    by (simp only: sample_oracle_simps names_visible_latin1)
  have f: "find (\<lambda>(k, v). same_key k ''DEPT'') (rev ?kvs) = Some (''Dept'', ''30'')" by code_simp
  show ?thesis
    using define_last_wins [OF store_ok_sample v d refl, of "''DEPT''" 1] unfolding f by simp
qed

section \<open>Substitution, against its meaning\<close>

text \<open>
  A statement made of texts without define characters and references to variables, with the
  number of define characters in front of the name. Of three and more, all but one or two
  stay in the statement.
\<close>

datatype part = Text string | Ref nat cstring

definition kind :: "nat \<Rightarrow> nat" where
  "kind n = (if n \<ge> 3 then if odd n then 1 else 2 else n)"

fun part_text :: "char \<Rightarrow> part \<Rightarrow> string" where
  "part_text d (Text u) = u"
| "part_text d (Ref n k) = replicate n d @ k"

abbreviation template :: "char \<Rightarrow> part list \<Rightarrow> string" where
  "template d ps \<equiv> concat (map (part_text d) ps)"

fun template_ok :: "charset_info \<Rightarrow> char \<Rightarrow> part list \<Rightarrow> bool" where
  "template_ok cs d [] \<longleftrightarrow> True"
| "template_ok cs d (Text u # ps) \<longleftrightarrow> d \<notin> set u \<and> is_cstr u \<and> template_ok cs d ps"
| "template_ok cs d (Ref n k # ps) \<longleftrightarrow> n \<ge> 1 \<and> k \<noteq> [] \<and> is_cstr k \<and> hd k \<noteq> d \<and> \<not> my_isspace cs (hd k)
     \<and> set k \<inter> set special_chars = {} \<and> (template d ps = [] \<or> hd (template d ps) \<in> set special_chars)
     \<and> template_ok cs d ps"

text \<open>What the statement means: the values of its variables, from left to right.\<close>

fun expand :: "char \<Rightarrow> part list \<Rightarrow> 'a oracle_client_scheme \<Rightarrow> (string \<times> 'a oracle_client_scheme) option" where
  "expand d [] s = Some ([], s)"
| "expand d (Text u # ps) s = map_option (apfst (append u)) (expand d ps s)"
| "expand d (Ref n k # ps) s =
     (case get_input_str k (kind n) s of
        None \<Rightarrow> None
      | Some (v, s) \<Rightarrow> map_option (apfst (append (replicate (n - kind n) d @ v))) (expand d ps s))"

text \<open>Equal up to what was printed.\<close>

definition eqv :: "'a client_scheme \<Rightarrow> 'a client_scheme \<Rightarrow> bool" where
  "eqv s t \<longleftrightarrow> (\<exists>c. s = t\<lparr>screen := c\<rparr>)"

lemma eqv_refl [simp]: "eqv s s"
  unfolding eqv_def by (rule exI [of _ "screen s"]) simp

lemma eqv_sym: "eqv s t \<Longrightarrow> eqv t s"
  unfolding eqv_def by (elim exE) (rule exI [of _ "screen t"], simp)

lemma eqv_trans: "eqv s t \<Longrightarrow> eqv t u \<Longrightarrow> eqv s u"
  unfolding eqv_def by (elim exE) auto

lemma eqv_shown: "eqv (shown f s) s"
  unfolding eqv_def shown_def by blast

lemma eqv_show_lines: "eqv (show_lines display st s) s"
  by (simp add: show_lines_def eqv_shown)

definition same_outcome :: "('b \<times> 'a client_scheme) option \<Rightarrow> ('b \<times> 'a client_scheme) option \<Rightarrow> bool" where
  "same_outcome x y \<longleftrightarrow>
     (case y of None \<Rightarrow> x = None | Some (v, t) \<Rightarrow> \<exists>s. x = Some (v, s) \<and> eqv s t)"

lemma add_define_screen: "add_define k v (t\<lparr>screen := c\<rparr>) = (add_define k v t)\<lparr>screen := c\<rparr>"
  by (auto simp: add_define_def malloc_def split: list.splits)

lemma get_input_str_eqv:
  assumes "eqv s t"
  shows "same_outcome (get_input_str k n s) (get_input_str k n t)"
proof -
  obtain c where s: "s = t\<lparr>screen := c\<rparr>" using assms by (auto simp: eqv_def)
  have e: "eqv (add_define k v (t\<lparr>stdin := i, screen := c\<rparr>)) (add_define k v (t\<lparr>stdin := i, screen := c'\<rparr>))" for i c c' v
    unfolding eqv_def using add_define_screen [where t = "t\<lparr>stdin := i\<rparr>"] by (intro exI [of _ c]) simp
  have f: "eqv (t\<lparr>stdin := i, screen := c\<rparr>) (t\<lparr>stdin := i, screen := c'\<rparr>)" for i c c'
    unfolding eqv_def by (intro exI [of _ c]) simp
  have g: "eqv (t\<lparr>screen := c\<rparr>) t" unfolding eqv_def by blast
  show ?thesis
    using e f g unfolding s get_input_str_def same_outcome_def shown_def
    by (simp add: Let_def split: option.splits prod.splits)
qed

lemma define_gap_run:
  assumes "r \<noteq> []" and "\<not> my_isspace cs (hd r)" and "hd r \<notin> set special_chars" and "hd r \<noteq> d"
  shows "define_gap cs d (replicate n d @ r) t m False mv = (r, t @ replicate n d, m + n, mv)"
proof (induction n arbitrary: t m)
  case 0
  obtain c u where "r = c # u" using assms(1) by (cases r) auto
  then show ?case using assms by (subst define_gap.simps) (simp add: get_end_str_def)
next
  case (Suc n)
  then show ?case by (simp add: define_gap_Cons_define)
qed

lemma scan_reference_var:
  assumes "n \<ge> 1" and "k \<noteq> []" and "\<not> my_isspace cs (hd k)" and "hd k \<noteq> d" and "set k \<inter> set special_chars = {}"
    and "rest = [] \<or> hd rest \<in> set special_chars"
  shows "case get_input_str k (kind n) s of
      None \<Rightarrow> scan_reference cs d (replicate n d @ k @ rest) st s = None
    | Some (v, s') \<Rightarrow> \<exists>st'. scan_reference cs d (replicate n d @ k @ rest) st s = Some (True, rest, st', s')
        \<and> newbuffer st' = newbuffer st @ replicate (n - kind n) d @ v"
proof -
  have hk: "hd k \<notin> set special_chars" using assms(2,5) by (cases k) auto
  have g: "define_gap cs d (replicate n d @ k @ rest) [] 0 False [] = (k @ rest, replicate n d, n, [])"
    using define_gap_run [of "k @ rest" cs d n "[]" 0 "[]"] assms(2-4) hk by simp
  have key: "takeWhile (\<lambda>c. c \<notin> set special_chars) (k @ rest) = k"
    using assms(5,6) by (cases rest) (auto simp: takeWhile_append takeWhile_eq_all_conv)
  have kn: "kind n \<noteq> 0" "kind n \<le> n"
    "(if 3 \<le> n then if odd n then 1 else 2 else n) = kind n"
    using assms(1) by (auto simp: kind_def)
  have kp: "(if 3 \<le> n then take (if odd n then n - 1 else n - 2) (replicate n d) else if n = 0 then replicate n d else [])
      = replicate (n - kind n) d"
    using assms(1) by (auto simp: kind_def)
  show ?thesis
    unfolding scan_reference_def g prod.case Let_def kn(3) kp get_end_str_def fst_conv key
    using kn(1) assms(2) by (auto split: option.splits)
qed

lemma scan_char_next:
  assumes "p \<noteq> []"
  shows "\<exists>st' s'. scan_char display p st s = (tl p, st', s') \<and> newbuffer st' = newbuffer st @ [hd p] \<and> eqv s' s"
proof -
  have "drop 1 p = tl p" "ch_at p 0 = hd p" using assms by (cases p; simp)+
  then show ?thesis using assms eqv_show_lines by (auto simp: scan_char_def Let_def)
qed

lemma scan_loop_char:
  assumes "p \<noteq> []" and "hd p \<noteq> d"
  shows "scan_loop display cs d p st s =
    (case scan_char display p st s of (p', st, s) \<Rightarrow> scan_loop display cs d p' st s)"
  using assms by (subst scan_loop.simps) simp

lemma scan_loop_text:
  assumes "d \<notin> set u"
  shows "\<exists>st' s'. scan_loop display cs d (u @ rest) st s = scan_loop display cs d rest st' s'
    \<and> newbuffer st' = newbuffer st @ u \<and> eqv s' s"
  using assms
proof (induction u arbitrary: st s)
  case Nil
  show ?case by (rule exI [of _ st], rule exI [of _ s]) simp
next
  case (Cons c u)
  obtain st1 s1 where 1: "scan_char display (c # u @ rest) st s = (u @ rest, st1, s1)"
      "newbuffer st1 = newbuffer st @ [c]" "eqv s1 s"
    using scan_char_next [of "c # u @ rest" display st s] by auto
  obtain st2 s2 where 2: "scan_loop display cs d (u @ rest) st1 s1 = scan_loop display cs d rest st2 s2"
      "newbuffer st2 = newbuffer st1 @ u" "eqv s2 s1"
    using Cons.IH [of st1 s1] Cons.prems by auto
  have "scan_loop display cs d ((c # u) @ rest) st s = scan_loop display cs d rest st2 s2"
    using Cons.prems 1(1) 2(1) by (subst append_Cons, subst scan_loop_char) auto
  then show ?case using 1 2 eqv_trans [OF 2(3) 1(3)] by (intro exI [of _ st2] exI [of _ s2]) simp
qed

lemma scan_loop_ref:
  assumes "p \<noteq> []" and "hd p = d" and "scan_reference cs d p st s = Some (True, rest, st', s')"
  shows "\<exists>st2 s2. scan_loop display cs d p st s = scan_loop display cs d rest st2 s2
    \<and> newbuffer st2 = newbuffer st' \<and> eqv s2 s'"
proof (cases "rest \<noteq> []")
  case True
  have "scan_loop display cs d p st s = scan_loop display cs d rest st' s'"
    using assms True scan_loop_char [of rest d display cs st' s'] by (subst scan_loop.simps) auto
  then show ?thesis by (intro exI [of _ st'] exI [of _ s']) simp
next
  case False
  have "scan_loop display cs d p st s = (case scan_char display [] st' s' of (p', st, s) \<Rightarrow> scan_loop display cs d p' st s)"
    using assms False by (subst scan_loop.simps) simp
  then show ?thesis using False by (simp add: scan_char_def eqv_show_lines) (use eqv_show_lines in fastforce)
qed

text \<open>The outcome of the loop against that of \<open>expand\<close>.\<close>

definition scanned ::
  "string \<Rightarrow> (define_scan \<times> 'a client_scheme) option \<Rightarrow> (string \<times> 'a client_scheme) option \<Rightarrow> bool" where
  "scanned b x y \<longleftrightarrow>
     same_outcome (map_option (apfst newbuffer) x) (map_option (apfst (append b)) y)"

lemma same_outcome_refl [simp]: "same_outcome x x"
  by (auto simp: same_outcome_def split: option.splits)

lemma same_outcome_trans: "same_outcome x y \<Longrightarrow> same_outcome y z \<Longrightarrow> same_outcome x z"
  by (cases z; cases y) (auto simp: same_outcome_def intro: eqv_trans)

lemma same_outcome_map: "same_outcome x y \<Longrightarrow> same_outcome (map_option (apfst f) x) (map_option (apfst f) y)"
  by (cases y) (auto simp: same_outcome_def)

lemma expand_eqv: "eqv s t \<Longrightarrow> same_outcome (expand d ps s) (expand d ps t)"
proof (induction d ps s arbitrary: t rule: expand.induct)
  case (1 d s)
  then show ?case by (simp add: same_outcome_def)
next
  case (2 d u ps s)
  then show ?case by (simp add: same_outcome_map)
next
  case (3 d n k ps s)
  show ?case
  proof (cases "get_input_str k (kind n) t")
    case None
    then show ?thesis using get_input_str_eqv [OF "3.prems", of k "kind n"] by (simp add: same_outcome_def)
  next
    case (Some a)
    obtain v t' where a: "a = (v, t')" by (cases a)
    obtain s' where s': "get_input_str k (kind n) s = Some (v, s')" "eqv s' t'"
      using get_input_str_eqv [OF "3.prems", of k "kind n"] Some a by (auto simp: same_outcome_def)
    then show ?thesis using "3.IH" [OF s'(1) refl s'(2)] Some a by (simp add: same_outcome_map)
  qed
qed

lemma scanned_step:
  assumes "scanned b' x (expand d ps s')" and "eqv s' s" and "b' = b @ u"
  shows "scanned b x (map_option (apfst (append u)) (expand d ps s))"
proof -
  have e: "map_option (apfst (append b)) (map_option (apfst (append u)) (expand d ps s)) = map_option (apfst (append b')) (expand d ps s)"
    by (cases "expand d ps s") (auto simp: assms(3))
  show ?thesis
    unfolding scanned_def e
    by (rule same_outcome_trans [OF assms(1) [unfolded scanned_def] same_outcome_map [OF expand_eqv [OF assms(2)]]])
qed

lemma scan_parts:
  "template_ok cs d ps \<Longrightarrow> scanned (newbuffer st) (scan_loop display cs d (template d ps) st s) (expand d ps s)"
proof (induction ps arbitrary: st s)
  case Nil
  show ?case by (simp add: scan_loop.simps scanned_def same_outcome_def)
next
  case (Cons part ps)
  show ?case
  proof (cases part)
    case (Text u)
    then have ok: "d \<notin> set u" "template_ok cs d ps" using Cons.prems by simp_all
    obtain st' s' where 1: "scan_loop display cs d (u @ template d ps) st s = scan_loop display cs d (template d ps) st' s'"
        "newbuffer st' = newbuffer st @ u" "eqv s' s"
      using scan_loop_text [OF ok(1), of display cs "template d ps" st s] by (elim exE conjE)
    show ?thesis
      using scanned_step [OF Cons.IH [OF ok(2)] 1(3,2)] Text 1(1) by simp
  next
    case (Ref n k)
    then have ok: "n \<ge> 1" "k \<noteq> []" "\<not> my_isspace cs (hd k)" "hd k \<noteq> d" "set k \<inter> set special_chars = {}"
        "template d ps = [] \<or> hd (template d ps) \<in> set special_chars" "template_ok cs d ps"
      using Cons.prems by auto
    let ?p = "replicate n d @ k @ template d ps"
    have p: "?p \<noteq> []" "hd ?p = d" using ok(1) by (cases n; simp)+
    note r = scan_reference_var [OF ok(1-6), where s = s and st = st]
    show ?thesis
    proof (cases "get_input_str k (kind n) s")
      case None
      then have "scan_loop display cs d ?p st s = None" using r p by (subst scan_loop.simps) simp
      then show ?thesis using None Ref by (simp add: scanned_def same_outcome_def)
    next
      case (Some a)
      obtain v s' where a: "a = (v, s')" by (cases a)
      obtain st' where st': "scan_reference cs d ?p st s = Some (True, template d ps, st', s')"
          "newbuffer st' = newbuffer st @ replicate (n - kind n) d @ v"
        using r Some a by auto
      obtain st2 s2 where 2: "scan_loop display cs d ?p st s = scan_loop display cs d (template d ps) st2 s2"
          "newbuffer st2 = newbuffer st'" "eqv s2 s'"
        using scan_loop_ref [OF p st'(1), of display] by (elim exE conjE)
      show ?thesis
        using scanned_step [OF Cons.IH [OF ok(7)] 2(3), where b = "newbuffer st" and u = "replicate (n - kind n) d @ v"] Ref Some a 2(1,2) st'(2)
        by simp
    qed
  qed
qed

lemma template_cstr: "template_ok cs d ps \<Longrightarrow> d \<noteq> NUL \<Longrightarrow> is_cstr (template d ps)"
proof (induction ps)
  case (Cons p ps)
  then show ?case by (cases p) (auto simp: is_cstr_def)
qed simp

text \<open>
  C8: substitution of define variables. In a statement made of plain texts and references to
  variables, every reference is replaced by the value of its variable and nothing else is
  changed; values are looked up, or asked for, from left to right, and a variable that is
  referenced with two define characters is asked for once. This is the case with and without
  the display of old and new lines, which only adds to what is printed.
\<close>

theorem scan_define_expands:
  assumes "template_ok (charset_info s) d ps" and "d = define_char_oracle s" and "d \<noteq> NUL"
  shows "same_outcome (scan_define_oracle (template d ps) display s) (expand d ps s)"
proof -
  let ?st = "\<lparr>line_idx = 1, is_scan = False, old_line = [], new_line = [], newbuffer = []\<rparr>"
  have i: "map_option (apfst (append [])) y = y" for y :: "(string \<times> 'a oracle_client_scheme) option"
    by (cases y) auto
  have n: "map_option (\<lambda>(st, s). (newbuffer st, s)) x = map_option (apfst newbuffer) x" for x :: "(define_scan \<times> 'a oracle_client_scheme) option"
    by (cases x) auto
  show ?thesis
    using scan_parts [OF assms(1), where st = ?st and display = display and s = s] cstr_id [OF template_cstr [OF assms(1,3)]]
    by (simp add: scan_define_oracle_def scanned_def n assms(2) [symmetric] i)
qed

theorem scan_define_expands_witness:
  "\<exists>s. scan_define_oracle ''update t set c=&&col where d=&Dept and e=&col'' True sample_oracle
       = Some (''update t set c=blue where d=10 and e=blue'', s)
     \<and> global_define_map s = [(''dept'', ''10''), (''col'', ''blue'')]"
proof -
  let ?ps = "[Text ''update t set c='', Ref 2 ''col'', Text '' where d='', Ref 1 ''Dept'', Text '' and e='', Ref 1 ''col'']"
  let ?d = "CHR ''&''"
  have ok: "template_ok (charset_info sample_oracle) ?d ?ps" by code_simp
  have t: "template ?d ?ps = ''update t set c=&&col where d=&Dept and e=&col''" by (simp add: numeral_2_eq_2)
  have "map_option (\<lambda>(b, s). (b, global_define_map s)) (expand ?d ?ps sample_oracle)
      = Some (''update t set c=blue where d=10 and e=blue'', [(''dept'', ''10''), (''col'', ''blue'')])" by code_simp
  then obtain s where e: "expand ?d ?ps sample_oracle = Some (''update t set c=blue where d=10 and e=blue'', s)"
      "global_define_map s = [(''dept'', ''10''), (''col'', ''blue'')]"
    by auto
  have "same_outcome (scan_define_oracle (template ?d ?ps) True sample_oracle) (expand ?d ?ps sample_oracle)"
    by (rule scan_define_expands [OF ok]) (simp_all add: sample_oracle_simps)
  then obtain s' where "scan_define_oracle (template ?d ?ps) True sample_oracle
      = Some (''update t set c=blue where d=10 and e=blue'', s')" "eqv s' s"
    unfolding e(1) same_outcome_def by auto
  then show ?thesis unfolding t using e(2) by (intro exI [of _ s'] conjI) (auto simp: eqv_def)
qed

section \<open>Errors and settings\<close>

lemma fgets_Nil: "fst (fgets n inp) = [] \<longleftrightarrow> n \<le> 1 \<or> inp = []"
  by (cases inp) (auto simp: fgets_def Let_def)

lemma hd_fgets: "1 < n \<Longrightarrow> inp \<noteq> [] \<Longrightarrow> hd (fst (fgets n inp)) = hd inp"
  by (cases inp; cases "n - 1") (auto simp: fgets_def Let_def)

text \<open>
  C36: asking for the value of a variable goes wrong exactly at the end of the input, or on a
  line that begins with a NUL: the code then looks for the newline in front of its buffer.
\<close>

theorem get_input_str_eof:
  "get_input_str k n s = None \<longleftrightarrow>
     find_define k (global_define_map s) = None \<and> (stdin s = [] \<or> hd (stdin s) = NUL)"
proof -
  let ?l = "fst (fgets MAX_DEFINE_SIZE (stdin s))"
  have "cstr ?l = [] \<longleftrightarrow> ?l = [] \<or> hd ?l = NUL"
    by (cases ?l) (auto simp: cstr_Cons)
  also have "\<dots> \<longleftrightarrow> stdin s = [] \<or> hd (stdin s) = NUL"
    using fgets_Nil [of MAX_DEFINE_SIZE "stdin s"] hd_fgets [of MAX_DEFINE_SIZE "stdin s"] by auto
  finally show ?thesis
    by (auto simp: get_input_str_def shown_def Let_def split: option.splits prod.splits)
qed

lemma skip_while_suffix: "suffix (fst (skip_while P p n)) p"
  by (induction P p n rule: skip_while.induct) (auto intro: suffix_ConsI)

lemma trim_round_suffix: "suffix (fst (snd (trim_round p n))) p"
proof -
  have d: "suffix (drop k q) p" if "suffix q p" for k q
    using that suffix_drop suffix_order.order_trans by blast
  have w: "suffix (fst (skip_while P q m)) p" if "suffix q p" for P q m
    using that skip_while_suffix suffix_order.order_trans by blast
  show ?thesis
    by (auto simp: trim_round_def case_prod_beta Let_def intro!: d w)
qed

lemma trim_loop_suffix: "suffix (trim_loop p n) p"
proof (induction p n rule: trim_loop.induct)
  case (1 p n)
  obtain b q m where r: "trim_round p n = (b, q, m)" by (rule prod_cases3)
  then have q: "suffix q p" using trim_round_suffix [of p n] by simp
  show ?case
  proof (cases "ch_at p 0 = NUL \<or> \<not> b")
    case True
    then show ?thesis using r q by (subst trim_loop.simps) auto
  next
    case False
    then have "suffix (trim_loop q m) q" using 1 r by auto
    then show ?thesis using False r q by (subst trim_loop.simps) (auto intro: suffix_order.order_trans)
  qed
qed

lemma is_cstr_suffix: "suffix t s \<Longrightarrow> is_cstr s \<Longrightarrow> is_cstr t"
  by (auto simp: is_cstr_def suffix_def)

lemma is_cstr_trim: "is_cstr str \<Longrightarrow> get_trim_comment_sql str len = Some p \<Longrightarrow> is_cstr p"
  using is_cstr_suffix [OF trim_loop_suffix] by (auto simp: get_trim_comment_sql_def Let_def split: if_splits)

lemma is_cstr_jump_space: "is_cstr p \<Longrightarrow> is_cstr (jump_space cs p)"
  unfolding jump_space_def by (rule is_cstr_suffix [OF suffix_dropWhile])

text \<open>
  The settings other parts rely on: the width numbers are formatted to fits the array they
  are formatted in, and the define character is not the NUL.
\<close>

definition settings_ok :: "'a oracle_client_scheme \<Rightarrow> bool" where
  "settings_ok s \<longleftrightarrow> 2 \<le> obclient_num_width (screen s) \<and> obclient_num_width (screen s) \<le> 128 \<and> define_char_oracle s \<noteq> NUL"

lemma console_num_width [simp]: "obclient_num_width (put f t c) = obclient_num_width c"
  "obclient_num_width (tee_puts t f c) = obclient_num_width c"
  "obclient_num_width (tee_fprintf f t c) = obclient_num_width c"
  by (simp_all add: put_def tee_puts_def tee_fprintf_def Let_def)

lemma settings_ok_tell [simp]: "settings_ok (tell str type s) = settings_ok s"
  by (simp add: settings_ok_def tell_def say_def put_info_def Let_def case_prod_beta)

lemma settings_ok_simps [simp]:
  "settings_ok (s\<lparr>is_define_oracle := b\<rparr>) = settings_ok s" "settings_ok (s\<lparr>is_echo_oracle := b\<rparr>) = settings_ok s"
  "settings_ok (s\<lparr>is_feedback_oracle := b\<rparr>) = settings_ok s" "settings_ok (s\<lparr>feedback_int_oracle := n\<rparr>) = settings_ok s"
  "settings_ok (s\<lparr>is_sqlblanklines_oracle := b\<rparr>) = settings_ok s" "settings_ok (s\<lparr>conf := cf\<rparr>) = settings_ok s"
  "settings_ok (s\<lparr>pagesize_int_oracle := n\<rparr>) = settings_ok s" "settings_ok (s\<lparr>is_trimspool_oracle := b\<rparr>) = settings_ok s"
  "settings_ok (s\<lparr>is_exitcommit_oracle := b\<rparr>) = settings_ok s" "settings_ok (s\<lparr>dbms_serveroutput := b\<rparr>) = settings_ok s"
  "settings_ok s \<Longrightarrow> c \<noteq> NUL \<Longrightarrow> settings_ok (s\<lparr>define_char_oracle := c\<rparr>)"
  "settings_ok s \<Longrightarrow> 2 \<le> w \<Longrightarrow> w \<le> 128 \<Longrightarrow> settings_ok (s\<lparr>screen := (screen s)\<lparr>obclient_num_width := w\<rparr>\<rparr>)"
  by (simp_all add: settings_ok_def)

lemma settings_ok_switch [simp]:
  "(\<And>b s. settings_ok (upd b s) = settings_ok s) \<Longrightarrow> settings_ok (set_switch name upd start s) = settings_ok s"
  by (simp add: set_switch_def)

lemma settings_ok_set_define:
  "settings_ok s \<Longrightarrow> start \<noteq> [] \<Longrightarrow> is_cstr start \<Longrightarrow> settings_ok (set_define start s)"
  by (cases start) (simp_all add: set_define_def Let_def del: settings_ok_tell, simp add: Let_def)

lemma settings_ok_set_feedback: "settings_ok (set_feedback start s) = settings_ok s"
  by (simp add: set_feedback_def Let_def)

lemma settings_ok_set_numwidth: "settings_ok s \<Longrightarrow> settings_ok (set_numwidth start s)"
  by (auto simp: set_numwidth_def Let_def intro!: settings_ok_simps(12))

text \<open>A query keeps a property of the state.\<close>

definition query_keeps :: "('a oracle_client_scheme \<Rightarrow> bool) \<Rightarrow> 'a querier \<Rightarrow> bool" where
  "query_keeps P query \<longleftrightarrow> (\<forall>q s r s'. P s \<longrightarrow> query q s = Some (r, s') \<longrightarrow> P s')"

lemma settings_ok_serveroutput:
  assumes "query_keeps settings_ok query"
    and "settings_ok s" and "set_serveroutput query start s = Some s'"
  shows "settings_ok s'"
proof -
  have "settings_ok t" if "query q s = Some (r, t)" for q r t
    using assms(1,2) that by (auto simp: query_keeps_def)
  then show ?thesis
    using assms(2,3) by (auto simp: set_serveroutput_def split: if_splits option.splits prod.splits)
qed

definition leaves_ok :: "(CMD_STATE \<times> 'a oracle_client_scheme) option \<Rightarrow> bool" where
  "leaves_ok r \<longleftrightarrow> (\<forall>st s. r = Some (st, s) \<longrightarrow> settings_ok s)"

lemma leaves_ok_if: "leaves_ok x \<Longrightarrow> leaves_ok y \<Longrightarrow> leaves_ok (if c then x else y)"
  by simp

lemma leaves_ok_Some: "settings_ok s \<Longrightarrow> leaves_ok (Some (st, s))"
  by (simp add: leaves_ok_def)

lemma leaves_ok_switch:
  "settings_ok s \<Longrightarrow> (\<And>b s. settings_ok (upd b s) = settings_ok s) \<Longrightarrow> leaves_ok (Some (st, set_switch name upd start s))"
  by (simp add: leaves_ok_def)

lemma settings_ok_set_named:
  assumes "query_keeps settings_ok query"
    and "settings_ok s" and "start \<noteq> []" and "is_cstr start" and "set_named query name n start s = Some (st, s')"
  shows "settings_ok s'"
proof -
  have "leaves_ok (map_option (Pair CMD_STATE_RUNED) (set_serveroutput query start s))"
    using settings_ok_serveroutput [OF assms(1,2)] by (auto simp: leaves_ok_def)
  moreover have "leaves_ok (Some (st, set_define start s))" for st
    using settings_ok_set_define [OF assms(2-4)] by (rule leaves_ok_Some)
  moreover have "leaves_ok (Some (st, set_feedback start s))" for st
    using assms(2) by (simp add: leaves_ok_Some settings_ok_set_feedback)
  moreover have "leaves_ok (Some (st, set_numwidth start s))" for st
    using settings_ok_set_numwidth [OF assms(2)] by (rule leaves_ok_Some)
  moreover have "leaves_ok (Some (st, tell m ty s))" for st m ty
    using assms(2) by (simp add: leaves_ok_Some)
  moreover have "leaves_ok (Some (st, s))" "leaves_ok (Some (st, s\<lparr>pagesize_int_oracle := i\<rparr>))" for st i
    using assms(2) by (simp_all add: leaves_ok_Some)
  ultimately have "leaves_ok (set_named query name n start s)"
    unfolding set_named_def Let_def
    by (intro leaves_ok_if leaves_ok_switch [OF assms(2)] settings_ok_simps)
  then show ?thesis using assms(5) by (simp add: leaves_ok_def)
qed

text \<open>
  C35: no \<open>set\<close> command, however it is written, makes the number width leave the range 2 to 128
  or the define character a NUL, if the queries it may send do not. So a number is always
  formatted within its array.
\<close>

theorem set_cmd_oracle_settings:
  assumes "query_keeps settings_ok query"
    and "settings_ok s" and "is_cstr str" and "set_cmd_oracle query str len2 s = Some (st, s')"
  shows "settings_ok s'"
proof (cases "get_trim_comment_sql str len2")
  case None
  then show ?thesis using assms(2,4) by (simp add: set_cmd_oracle_def)
next
  case (Some p)
  define p1 where "p1 = jump_space (charset_info s) p"
  define name where "name = jump_space (charset_info s) (drop 4 p1)"
  define n where "n = length (takeWhile (\<lambda>c. \<not> my_isspace (charset_info s) c) name)"
  define start where "start = jump_space (charset_info s) (drop n name)"
  have c: "is_cstr start"
    using is_cstr_trim [OF assms(3) Some] by (simp add: start_def name_def p1_def is_cstr_jump_space)
  have "set_cmd_oracle query str len2 s =
      (if \<not> (strncaseeq ''set'' p1 3 \<and> my_isspace (charset_info s) (ch_at p1 3)) \<or> n = 0 \<or> start = []
       then Some (CMD_STATE_UNKNOW, s) else set_named query name n start s)"
    unfolding set_cmd_oracle_def Let_def Some option.case p1_def [symmetric] name_def [symmetric]
      n_def [symmetric] start_def [symmetric] by simp
  then show ?thesis
    using assms(4) settings_ok_set_named [OF assms(1,2) _ c, of name n st s'] assms(2) by (simp split: if_splits)
qed

lemma my_isdigit_latin1: "my_isdigit my_charset_latin1 c \<longleftrightarrow> is_digit c"
proof -
  have "my_isdigit my_charset_latin1 c \<longleftrightarrow> of_char c \<in> {48, 49, 50, 51, 52, 53, 54, 55, 56, 57 :: int}"
    unfolding my_isdigit_def ctype_latin1_iff [where P = "\<lambda>m. m AND MY_NMR \<noteq> 0"]
    by (simp add: ctype_latin1_def MY_NMR_def)
  also have "\<dots> \<longleftrightarrow> 48 \<le> int (of_char c) \<and> int (of_char c) \<le> 57"
    unfolding of_nat_of_char insert_iff empty_iff by presburger
  finally show ?thesis unfolding is_digit_iff by linarith
qed

lemma set_cmd_named:
  assumes "charset_info s = my_charset_latin1" and "name \<noteq> []" and "\<forall>c \<in> set name. \<not> my_isspace my_charset_latin1 c"
    and "value \<noteq> []" and "\<not> my_isspace my_charset_latin1 (hd value)" and "is_cstr (name @ value)"
  shows "set_cmd_oracle query (''set '' @ name @ '' '' @ value) len s = set_named query (name @ '' '' @ value) (length name) value s"
proof -
  let ?cs = my_charset_latin1 and ?t = "''set '' @ name @ '' '' @ value"
  have sp: "my_isspace ?cs (CHR '' '')" "\<not> my_isspace ?cs (CHR ''s'')"
    by (simp_all add: my_isspace_latin1 latin1_spaces_def)
  have "is_cstr ?t" "starts ?t" using assms(6) by (simp_all add: starts_def is_blank_def)
  then have tr: "get_trim_comment_sql ?t len = Some ?t"
    using trim_loop_starts by (simp add: get_trim_comment_sql_def)
  have j: "jump_space ?cs ?t = ?t" "jump_space ?cs (name @ CHR '' '' # value) = name @ CHR '' '' # value"
    "jump_space ?cs (CHR '' '' # value) = value"
    using assms(2-5) sp by (cases name; cases "value"; simp add: jump_space_def)+
  have n: "length (takeWhile (\<lambda>c. \<not> my_isspace ?cs c) (name @ CHR '' '' # value)) = length name"
    using assms(3) sp(1) by (simp add: takeWhile_append_stop)
  have h: "strncaseeq ''set'' ?t 3" "ch_at ?t 3 = CHR '' ''" "drop 4 ?t = name @ CHR '' '' # value"
    "drop (length name) (name @ CHR '' '' # value) = CHR '' '' # value"
    by (simp_all add: strncaseeq_def numeral_3_eq_3)
  show ?thesis
    unfolding set_cmd_oracle_def assms(1) Let_def tr option.case j(1) h(2,3) j(2) n h(4) j(3)
    using assms(2,4) h(1) sp(1) by simp
qed

theorem set_cmd_oracle_settings_witness:
  "set_cmd_oracle (\<lambda>q s. None) ''set define $'' 12 sample_oracle
     = Some (CMD_STATE_RUNED, sample_oracle\<lparr>define_char_oracle := CHR ''$'', is_define_oracle := True\<rparr>)
   \<and> settings_ok (sample_oracle\<lparr>define_char_oracle := CHR ''$'', is_define_oracle := True\<rparr>)"
proof -
  let ?s = "sample_oracle"
  have q: "query_keeps settings_ok (\<lambda>q s :: oracle_client. None)" by (simp add: query_keeps_def)
  have ok: "settings_ok ?s" by (simp add: settings_ok_def sample_oracle_def client.defs sample_client_def)
  have j: "\<not> my_isdigit my_charset_latin1 (CHR ''$'')" "\<not> my_isalpha my_charset_latin1 (CHR ''$'')"
    "\<forall>c \<in> set ''define''. \<not> my_isspace my_charset_latin1 c" "\<not> my_isspace my_charset_latin1 (CHR ''$'')"
    "abbreviates ''define $'' 6 ''define'' 3"
    by code_simp+
  have "set_cmd_oracle (\<lambda>q s. None) ''set define $'' 12 ?s = set_named (\<lambda>q s. None) ''define $'' 6 ''$'' ?s"
    using set_cmd_named [of ?s "''define''" "''$''" "\<lambda>q s. None" 12] j(3,4) by (simp add: sample_oracle_simps numeral_eq_Suc)
  then have e: "set_cmd_oracle (\<lambda>q s. None) ''set define $'' 12 ?s
      = Some (CMD_STATE_RUNED, ?s\<lparr>define_char_oracle := CHR ''$'', is_define_oracle := True\<rparr>)"
    using j(1,2,5) by (simp add: sample_oracle_simps set_named_def set_define_def Let_def)
  show ?thesis
    using e set_cmd_oracle_settings [OF q ok _ e] by (simp add: is_cstr_def)
qed

text \<open>
  C37: a feedback limit above 50000 is reported as out of range and is in force all the same;
  one up to 50000 is taken over, and 0 turns the feedback off.
\<close>

theorem set_feedback_number:
  assumes "charset_info s = my_charset_latin1" and "n < 2147483648"
  shows "set_cmd_oracle query (''set feedback '' @ dec_str n) len s =
    Some (CMD_STATE_RUNED,
      if n > 50000 then tell ''SP2-0267: feedback value is (0-50000)'' INFO_INFO (s\<lparr>feedback_int_oracle := int n\<rparr>)
      else s\<lparr>feedback_int_oracle := int n, is_feedback_oracle := (n > 0)\<rparr>)"
proof -
  let ?cs = my_charset_latin1
  obtain c r where d: "dec_str n = c # r" by (cases "dec_str n") auto
  have dig: "\<forall>c \<in> set (dec_str n). is_digit c" by (rule dec_str_digits)
  have di: "my_isdigit ?cs c \<and> \<not> my_isspace ?cs c \<and> c \<noteq> NUL" if "is_digit c" for c
  proof -
    have "\<forall>c \<in> set (NUL # latin1_spaces). \<not> is_digit c" by code_simp
    then show ?thesis using that by (auto simp: my_isdigit_latin1 my_isspace_latin1)
  qed
  have f: "\<forall>c \<in> set ''feedback''. \<not> my_isspace ?cs c" by code_simp
  have a: "\<not> abbreviates (''feedback '' @ dec_str n) 8 ''define'' 3" "abbreviates (''feedback '' @ dec_str n) 8 ''feedback'' 4"
    by (simp_all add: abbreviates_def strncaseeq_def)
  have v: "\<not> my_isspace ?cs (hd (dec_str n))" "is_cstr (''feedback'' @ dec_str n)"
    using di dig d by (auto simp: is_cstr_def)
  have l: "length ''feedback'' = 8" by simp
  have "set_cmd_oracle query (''set feedback '' @ dec_str n) len s = set_named query (''feedback '' @ dec_str n) 8 (dec_str n) s"
    using set_cmd_named [OF assms(1) _ f _ v, of query len, unfolded l] by simp
  moreover have "to_digit ?cs (dec_str n) (length (dec_str n)) = int n"
    using di dig atoi_dec_str [of "[]" n] by (simp add: to_digit_def)
  ultimately show ?thesis using a assms(1) by (simp add: set_named_def set_feedback_def Let_def)
qed

theorem set_feedback_number_witness:
  "set_cmd_oracle (\<lambda>q s. None) (''set feedback '' @ dec_str 60000) 18 sample_oracle =
     Some (CMD_STATE_RUNED,
       tell ''SP2-0267: feedback value is (0-50000)'' INFO_INFO (sample_oracle\<lparr>feedback_int_oracle := 60000\<rparr>))"
  using set_feedback_number [of sample_oracle 60000 "\<lambda>q s. None" 18] by (simp add: sample_oracle_simps)

end
