(* ===== verification/Session.thy ===== *)
theory Session
  imports Define CommandArgs LineBuffer CompletionHash "HOL-Library.Monad_Syntax"
begin

text \<open>
  The state of a session and the routines the command handlers of \<^verbatim>\<open>client/mysql.cc\<close>
  share: messages for errors of the server, queries with reconnection, the pager and the tee
  file, the current database and the completion hash.

  Everything outside the program, the MySQL client library with the server behind it and the
  operating system, is a state of type \<open>'w\<close> and a record of functions on it. A connection is
  part of that state; the two members of the library's \<open>MYSQL\<close> structure the scanner reads,
  \<open>server_status\<close> and \<open>oracle_mode\<close>, are copied to the client's state after each call.
  The outcome \<open>None\<close> is a call that does not return or has no defined behaviour.
\<close>

section \<open>The environment\<close>

record connect_request =
  cr_host :: "cstring option"
  cr_user :: "cstring option"
  cr_password :: "cstring option"
  cr_database :: "cstring option"
  cr_port :: nat
  cr_charset :: cstring
  cr_proxy :: "(cstring \<times> int \<times> cstring option \<times> cstring option) option"

record tm =
  tm_sec :: nat
  tm_min :: nat
  tm_hour :: nat
  tm_mon :: nat
  tm_year :: nat
  tm_wday :: nat

datatype stmt_call = Stmt_bind_param | Stmt_execute | Stmt_store_result | Stmt_bind_result | Stmt_fetch

record 'w env =
  e_real_query :: "string \<Rightarrow> 'w \<Rightarrow> int \<times> 'w"
  e_errno :: "'w \<Rightarrow> nat"
  e_error :: "'w \<Rightarrow> cstring"
  e_sqlstate :: "'w \<Rightarrow> cstring"
  e_store_result :: "'w \<Rightarrow> mysql_res option \<times> 'w"
  e_use_result :: "'w \<Rightarrow> mysql_res option \<times> 'w"
  e_list_fields :: "cstring \<Rightarrow> 'w \<Rightarrow> mysql_res option \<times> 'w"
  e_next_result :: "'w \<Rightarrow> int \<times> 'w"
  e_field_count :: "'w \<Rightarrow> nat"
  e_affected_rows :: "'w \<Rightarrow> nat"
  e_warning_count :: "'w \<Rightarrow> nat"
  e_info :: "'w \<Rightarrow> cstring option"
  e_eof :: "'w \<Rightarrow> bool"
  e_select_db :: "cstring \<Rightarrow> 'w \<Rightarrow> int \<times> 'w"
  e_server_status :: "'w \<Rightarrow> nat"
  e_oracle_mode :: "'w \<Rightarrow> bool"
  e_server_version :: "'w \<Rightarrow> nat"
  e_thread_id :: "'w \<Rightarrow> nat"
  e_charset :: "'w \<Rightarrow> charset_info"
  e_set_character_set :: "cstring \<Rightarrow> 'w \<Rightarrow> 'w"
  e_real_connect :: "connect_request \<Rightarrow> 'w \<Rightarrow> bool \<times> 'w"
  e_lb_connect :: "cstring option \<Rightarrow> (cstring \<times> int) list \<Rightarrow> connect_request \<Rightarrow> 'w \<Rightarrow> (cstring \<times> nat) option \<times> 'w"
  e_close :: "'w \<Rightarrow> 'w"
  e_stmt_init :: "'w \<Rightarrow> bool \<times> 'w"
  e_stmt_prepare :: "cstring \<Rightarrow> 'w \<Rightarrow> int \<times> 'w"
  e_stmt_call :: "stmt_call \<Rightarrow> 'w \<Rightarrow> int \<times> 'w"
  e_stmt_done :: "'w \<Rightarrow> 'w"
  e_stmt_next :: "'w \<Rightarrow> 'w"
  e_stmt_error :: "'w \<Rightarrow> cstring \<times> nat \<times> cstring"
  e_dbms_row :: "'w \<Rightarrow> char \<times> bool \<times> string \<times> nat"
  e_get_charset :: "cstring \<Rightarrow> (charset_info \<times> cstring) option"
  e_default_csname :: cstring
  e_strnncoll :: "charset_info \<Rightarrow> string \<Rightarrow> string \<Rightarrow> int"
  e_timer :: "'w \<Rightarrow> cstring"
  e_stale_text :: "string \<Rightarrow> cstring"
  e_column_format_re :: "cstring \<Rightarrow> bool"
  e_show_errors_re :: "cstring \<Rightarrow> (int \<times> int) list option"
  e_create_re :: "cstring \<Rightarrow> (int \<times> int) list option"
  e_alter_re :: "cstring \<Rightarrow> (int \<times> int) list option"
  e_popen :: "cstring \<Rightarrow> 'w \<Rightarrow> bool \<times> 'w"
  e_fopen_append :: "cstring \<Rightarrow> 'w \<Rightarrow> bool \<times> 'w"
  e_fopen_read :: "cstring \<Rightarrow> 'w \<Rightarrow> nat option \<times> 'w"
  e_fstat :: "nat \<Rightarrow> 'w \<Rightarrow> bool \<times> bool"
  e_read :: "nat \<Rightarrow> 'w \<Rightarrow> nat \<Rightarrow> sys_result \<times> 'w"
  e_fclose :: "nat \<Rightarrow> 'w \<Rightarrow> 'w"
  e_malloc :: "nat \<Rightarrow> bool"
  e_hash_alloc :: "nat \<Rightarrow> bool \<times> bool"
  e_readable :: "cstring \<Rightarrow> 'w \<Rightarrow> bool"
  e_unpack_filename :: "cstring \<Rightarrow> cstring"
  e_system :: "cstring \<Rightarrow> 'w \<Rightarrow> int \<times> 'w"
  e_sys_error :: "'w \<Rightarrow> cstring \<times> nat"
  e_create_temp_file :: "'w \<Rightarrow> cstring option \<times> 'w"
  e_write_file :: "cstring \<Rightarrow> string \<Rightarrow> 'w \<Rightarrow> 'w"
  e_read_file :: "cstring \<Rightarrow> 'w \<Rightarrow> string option option \<times> 'w"
  e_delete_file :: "cstring \<Rightarrow> 'w \<Rightarrow> 'w"
  e_getenv :: "cstring \<Rightarrow> cstring option"
  e_readline :: "cstring \<Rightarrow> 'w \<Rightarrow> cstring option \<times> 'w"
  e_getch :: "'w \<Rightarrow> char \<times> 'w"
  e_sleep :: "nat \<Rightarrow> 'w \<Rightarrow> 'w"
  e_server_info :: "'w \<Rightarrow> cstring"
  e_server_name :: "'w \<Rightarrow> cstring"
  e_host_info :: "'w \<Rightarrow> cstring"
  e_mysql_host :: "'w \<Rightarrow> cstring"
  e_unix_socket :: "'w \<Rightarrow> cstring option"
  e_port :: "'w \<Rightarrow> nat"
  e_proto_info :: "'w \<Rightarrow> nat"
  e_ssl_cipher :: "'w \<Rightarrow> cstring option"
  e_insert_id :: "'w \<Rightarrow> nat"
  e_compress :: "'w \<Rightarrow> bool"
  e_stat :: "'w \<Rightarrow> cstring option \<times> 'w"
  e_commit :: "'w \<Rightarrow> 'w"
  e_csname :: "charset_info \<Rightarrow> cstring"
  e_login_info :: "'w \<Rightarrow> cstring option"
  e_localtime :: "'w \<Rightarrow> tm"
  e_ctime :: "'w \<Rightarrow> cstring"
  e_hostname :: "cstring option"
  e_nice_time :: "nat \<Rightarrow> cstring"
  e_version_text :: cstring
  e_is_proxymode :: bool
  e_safe_updates :: bool
  e_select_limit :: nat
  e_max_join_size :: nat

section \<open>The state\<close>

record 'w session = oracle_client +
  world :: 'w
  connected :: bool
  opt_reconnect :: bool
  opt_rehash :: bool
  one_database :: bool
  skip_updates :: bool
  opt_html :: bool
  opt_xml :: bool
  vertical :: bool
  auto_vertical_output :: bool
  output_tables :: bool
  show_warnings :: bool
  named_cmds :: bool
  opt_nopager :: bool
  default_pager_set :: bool
  opt_binary_mode :: bool
  batch_abort_on_error :: bool
  wait_flag :: bool
  aborted :: bool
  terminal_width :: nat
  exit_status :: int
  line_buff :: "(line_buffer \<times> nat) option"
  old_buffer :: string
  current_db :: "cstring option"
  current_user :: "cstring option"
  current_host :: "cstring option"
  current_host_success :: "cstring option"
  opt_password :: "cstring option"
  opt_mysql_port :: nat
  current_port_success :: nat
  default_charset :: cstring
  ob_socket5_proxy_str :: "cstring option"
  ob_service_name_str :: "cstring option"
  ob_error_top_str :: "cstring option"
  outfile :: cstring
  pager :: cstring
  default_pager :: cstring
  current_prompt :: cstring
  default_prompt :: cstring
  prompt_counter :: nat
  full_username :: "cstring option"
  part_username :: "cstring option"
  server_version :: "cstring option"
  ht :: hashtable
  pl_last_type :: "cstring option"
  pl_last_object :: "cstring option"
  pl_last_schema :: "cstring option"
  dbms_stmt :: bool
  dbms_prepared :: bool

type_synonym 'w cmd = "com_func \<Rightarrow> bufref \<Rightarrow> cstring option \<Rightarrow> 'w session \<Rightarrow> (int \<times> 'w session) option"

definition batch :: "'w session \<Rightarrow> bool" where "batch s = s_batch (info s)"

definition verbose :: "'w session \<Rightarrow> nat" where "verbose s = s_verbose (info s)"

definition ignore_errors :: "'w session \<Rightarrow> bool" where "ignore_errors s = s_ignore_errors (info s)"

text \<open>A call to the library or the system that changes the world.\<close>

definition sync :: "'w env \<Rightarrow> 'w session \<Rightarrow> 'w \<Rightarrow> 'w session" where
  "sync env s w = s\<lparr>world := w, server_status := e_server_status env w, mysql_oracle_mode := e_oracle_mode env w\<rparr>"

definition call :: "'w env \<Rightarrow> ('w \<Rightarrow> 'b \<times> 'w) \<Rightarrow> 'w session \<Rightarrow> 'b \<times> 'w session" where
  "call env f s = (case f (world s) of (r, w) \<Rightarrow> (r, sync env s w))"

lemma sync_sync [simp]: "sync env (sync env s v) w = sync env s w"
  by (simp add: sync_def)

lemma world_sync [simp]: "world (sync env s w) = w"
  by (simp add: sync_def)

text \<open>The settings the printers read.\<close>

definition print_cfg :: "'w session \<Rightarrow> settings" where
  "print_cfg s = (conf s)\<lparr>oracle_mode := mysql_oracle_mode s, charset := charset_info s, opt_silent := s_silent (info s)\<rparr>"

definition printed :: "act \<Rightarrow> 'w session \<Rightarrow> 'w session option" where
  "printed p s = map_option (\<lambda>c. s\<lparr>screen := c\<rparr>) (p (screen s))"

definition note_info :: "cstring \<Rightarrow> INFO_TYPE \<Rightarrow> 'w session \<Rightarrow> 'w session" where
  "note_info str type s = snd (say str type s)"

section \<open>Messages\<close>

definition put_error_text :: "cstring \<times> nat \<times> cstring \<Rightarrow> 'w session \<Rightarrow> int \<times> 'w session" where
  "put_error_text e s =
     (case e of (msg, err, state) \<Rightarrow>
        case put_info (info s) msg INFO_ERROR err (Some state) (mysql_oracle_mode s) (screen s) of
          (r, c) \<Rightarrow> (r, s\<lparr>screen := c\<rparr>))"

definition put_error :: "'w env \<Rightarrow> 'w session \<Rightarrow> int \<times> 'w session" where
  "put_error env s =
     put_error_text (e_error env (world s), e_errno env (world s), e_sqlstate env (world s)) s"

definition put_stmt_error :: "'w env \<Rightarrow> 'w session \<Rightarrow> int \<times> 'w session" where
  "put_stmt_error env s = put_error_text (e_stmt_error env (world s)) s"

text \<open>The end of the buffer that is not printable is cut off.\<close>

definition remove_cntrl :: "charset_info \<Rightarrow> string \<Rightarrow> string" where
  "remove_cntrl cs b = rev (dropWhile (\<lambda>c. \<not> my_isgraph cs c) (rev b))"

section \<open>Pager and tee file\<close>

definition init_pager :: "'w env \<Rightarrow> 'w session \<Rightarrow> 'w session" where
  "init_pager env s =
     (if \<not> opt_nopager s then
        (case call env (e_popen env (pager s)) s of
           (True, s) \<Rightarrow> s\<lparr>screen := (screen s)\<lparr>PAGER := PIPE\<rparr>\<rparr>
         | (False, s) \<Rightarrow>
             (let s = shown (tee_fprintf STDOUT (''popen() failed! defaulting PAGER to stdout!'' @ [NL])) s
              in s\<lparr>screen := (screen s)\<lparr>PAGER := STDOUT\<rparr>\<rparr>))
      else s\<lparr>screen := (screen s)\<lparr>PAGER := STDOUT\<rparr>\<rparr>)"

definition end_tee :: "'w session \<Rightarrow> 'w session" where
  "end_tee s = s\<lparr>screen := (screen s)\<lparr>opt_outfile := False\<rparr>\<rparr>"

definition init_tee :: "'w env \<Rightarrow> cstring \<Rightarrow> 'w session \<Rightarrow> 'w session" where
  "init_tee env file_name s =
     (let s = (if opt_outfile (screen s) then end_tee s else s)
      in case call env (e_fopen_append env file_name) s of
           (False, s) \<Rightarrow> shown (tee_fprintf STDOUT (''Error logging to file '' @ [SQ] @ file_name @ [SQ, NL])) s
         | (True, s) \<Rightarrow>
             (let s = s\<lparr>outfile := strmake file_name 511\<rparr>;
                  s = shown (tee_fprintf STDOUT (''Logging to file '' @ [SQ] @ file_name @ [SQ, NL])) s
              in s\<lparr>screen := (screen s)\<lparr>opt_outfile := True\<rparr>\<rparr>))"

section \<open>Queries\<close>

definition get_current_db :: "'w env \<Rightarrow> 'w session \<Rightarrow> 'w session" where
  "get_current_db env s =
     (if one_database s then s
      else
        let sql = (if mysql_oracle_mode s
                   then ''SELECT (SYS_CONTEXT('' @ [SQ] @ ''USERENV'' @ [SQ] @ '', '' @ [SQ] @ ''CURRENT_SCHEMA'' @ [SQ] @ '')) FROM SYS.DUAL''
                   else ''SELECT DATABASE()'');
            s = s\<lparr>current_db := None\<rparr>
        in case call env (e_real_query env sql) s of (error, s) \<Rightarrow>
             if error \<noteq> 0 then s
             else case call env (e_use_result env) s of
                    (None, s) \<Rightarrow> s
                  | (Some res, s) \<Rightarrow>
                      (case r_rows res of
                         (Some db # _) # _ \<Rightarrow> s\<lparr>current_db := Some (cstr db)\<rparr>
                       | _ \<Rightarrow> s))"

definition mysql_store_result_for_lazy :: "'w env \<Rightarrow> 'w session \<Rightarrow> int \<times> mysql_res option \<times> 'w session" where
  "mysql_store_result_for_lazy env s =
     (case call env (e_store_result env) s of
        (Some r, s) \<Rightarrow> (0, Some r, s)
      | (None, s) \<Rightarrow>
          if e_error env (world s) \<noteq> [] then
            (case put_error env s of (error, s) \<Rightarrow> (error, None, s))
          else (0, None, s))"

end
