(* ===== verification/Connect.thy ===== *)
theory Connect
  imports Session
begin

text \<open>
  Connecting to a server: \<^verbatim>\<open>build_completion_hash\<close>, \<^verbatim>\<open>sql_real_connect\<close>,
  \<^verbatim>\<open>sql_real_connect_multi\<close>, \<^verbatim>\<open>sql_connect\<close>, \<^verbatim>\<open>com_connect\<close>,
  \<^verbatim>\<open>reconnect\<close> and \<^verbatim>\<open>mysql_real_query_for_lazy\<close> of \<^verbatim>\<open>client/mysql.cc\<close>.
  The connection options that are fixed when the client starts are left out of the request,
  and the load balancer's connection gets no port.
  \<open>exec\<close> runs the login script, which is a \<open>source\<close> command.
\<close>

section \<open>Words for completion\<close>

text \<open>The name in the first column of a row, which is not null.\<close>

definition row_name :: "cell list \<Rightarrow> cstring" where
  "row_name r = (case r of Some n # _ \<Rightarrow> cstr n | _ \<Rightarrow> [])"

definition add_new_word :: "'w env \<Rightarrow> cstring \<Rightarrow> hashtable \<Rightarrow> hashtable" where
  "add_new_word env str h =
     (if completion_hash_exists h str (length str) then h else add_word (e_hash_alloc env) h str)"

definition field_words :: "'w env \<Rightarrow> cstring \<Rightarrow> mysql_field \<Rightarrow> hashtable \<Rightarrow> hashtable" where
  "field_words env table f h =
     add_new_word env (f_name f)
       (add_word (e_hash_alloc env) h (take 64 table @ ''.'' @ take 64 (f_name f)))"

definition table_words :: "'w env \<Rightarrow> cell list \<Rightarrow> 'w session \<Rightarrow> 'w session" where
  "table_words env r s =
     (case call env (e_list_fields env (row_name r)) s of
        (None, s) \<Rightarrow> s
      | (Some res, s) \<Rightarrow> s\<lparr>ht := fold (field_words env (row_name r)) (r_fields res) (ht s)\<rparr>)"

definition database_names :: "'w env \<Rightarrow> 'w session \<Rightarrow> 'w session" where
  "database_names env s =
     (case call env (e_real_query env ''show databases'') s of (error, s) \<Rightarrow>
        if error \<noteq> 0 then s
        else case call env (e_store_result env) s of
               (None, s) \<Rightarrow> note_info (e_error env (world s)) INFO_INFO s
             | (Some res, s) \<Rightarrow>
                 s\<lparr>ht := fold (\<lambda>r h. add_word (e_hash_alloc env) h (row_name r)) (r_rows res) (ht s)\<rparr>)"

definition table_names :: "'w env \<Rightarrow> bool \<Rightarrow> 'w session \<Rightarrow> mysql_res option \<times> 'w session" where
  "table_names env write_info s =
     (case call env (e_real_query env ''show tables'') s of (error, s) \<Rightarrow>
        if error \<noteq> 0 then (None, s)
        else case call env (e_store_result env) s of
               (None, s) \<Rightarrow> (None, note_info (e_error env (world s)) INFO_INFO s)
             | (Some res, s) \<Rightarrow>
                 let s = (if r_rows res \<noteq> [] \<and> s_silent (info s) = 0 \<and> write_info
                          then shown (tee_fprintf STDOUT
                                 (''Reading table information for completion of table and column names'' @ [NL]
                                  @ ''You can turn off this feature to get a quicker startup with -A'' @ [NL, NL])) s
                          else s)
                 in (Some res, s\<lparr>ht := fold (\<lambda>r. add_new_word env (row_name r)) (r_rows res) (ht s)\<rparr>))"

definition build_completion_hash :: "'w env \<Rightarrow> bool \<Rightarrow> bool \<Rightarrow> 'w session \<Rightarrow> 'w session" where
  "build_completion_hash env rehash write_info s =
     (if batch s \<or> quick (conf s) \<or> current_db s = None \<or> \<not> rehash then s
      else
        let s = s\<lparr>ht := build_commands_hash (e_hash_alloc env) (completion_hash_clean (ht s))\<rparr>;
            s = database_names env s
        in case table_names env write_info s of
             (None, s) \<Rightarrow> s
           | (Some res, s) \<Rightarrow> fold (table_words env) (r_rows res) s)"

section \<open>Connections\<close>

definition set_default_charset :: "'w env \<Rightarrow> 'w session \<Rightarrow> 'w session" where
  "set_default_charset env s =
     (let cs = (if default_charset s = ''auto'' then e_default_csname env else default_charset s);
          cs = (if strncaseeq cs ''GB18030-2022'' 12 then ''GB18030'' else cs);
          cs = (if strncaseeq cs ''BIG5-HKSCS'' 10 \<or> strncaseeq cs ''BIG5HKSCS'' 9 then ''big5'' else cs)
      in s\<lparr>default_charset := cs\<rparr>)"

text \<open>The SOCKS5 proxy that is set, if the option names a host and a port.\<close>

definition proxy_of :: "cstring option \<Rightarrow> (cstring \<times> int \<times> cstring option \<times> cstring option) option" where
  "proxy_of str =
     (case str of
        None \<Rightarrow> None
      | Some p \<Rightarrow>
          if p = [] then None
          else
            case parse_socket5_proxy (p @ [NUL]) \<lparr>s5_host = None, s5_port = Some 0, s5_user = None, s5_pwd = None\<rparr> of
              (v, a) \<Rightarrow>
                let at = map_option (\<lambda>i. cstr (drop i a)) in
                case (s5_host v, s5_port v) of
                  (Some h, Some port) \<Rightarrow>
                    if port > 0 then Some (cstr (drop h a), port, at (s5_user v), at (s5_pwd v)) else None
                | _ \<Rightarrow> None)"

definition request ::
  "cstring option \<Rightarrow> cstring option \<Rightarrow> cstring option \<Rightarrow> cstring option \<Rightarrow> 'w session \<Rightarrow> connect_request" where
  "request host database user password s =
     \<lparr>cr_host = host, cr_user = user, cr_password = password, cr_database = database, cr_port = opt_mysql_port s,
      cr_charset = default_charset s, cr_proxy = proxy_of (ob_socket5_proxy_str s)\<rparr>"

definition close_connection :: "'w env \<Rightarrow> 'w session \<Rightarrow> 'w session" where
  "close_connection env s = (if connected s then sync env (s\<lparr>connected := False\<rparr>) (e_close env (world s)) else s)"

text \<open>What a successful connection changes.\<close>

definition connection_made :: "'w env \<Rightarrow> 'w session \<Rightarrow> 'w session" where
  "connection_made env s =
     build_completion_hash env (opt_rehash s) True
       (s\<lparr>charset_info := e_charset env (world s), last_session_mode := mysql_oracle_mode s, connected := True\<rparr>)"

definition sql_real_connect ::
  "'w env \<Rightarrow> cstring option \<Rightarrow> cstring option \<Rightarrow> cstring option \<Rightarrow> cstring option \<Rightarrow> bool \<Rightarrow> 'w session \<Rightarrow> int \<times> 'w session" where
  "sql_real_connect env host database user password silent s =
     (let s = set_default_charset env (close_connection env s)
      in case call env (e_real_connect env (request host database user password s)) s of
           (False, s) \<Rightarrow>
             if \<not> silent \<or> e_errno env (world s) \<noteq> 2003 \<and> e_errno env (world s) \<noteq> 2002
             then (if ignore_errors s then -1 else 1, snd (put_error env s))
             else (-1, s)
         | (True, s) \<Rightarrow>
             (0, connection_made env
                   (s\<lparr>current_host_success := Some (case host of None \<Rightarrow> [] | Some h \<Rightarrow> h),
                      current_port_success := opt_mysql_port s\<rparr>)))"

definition sql_real_connect_multi ::
  "'w env \<Rightarrow> (cstring \<times> int) list \<Rightarrow> cstring option \<Rightarrow> cstring option \<Rightarrow> cstring option \<Rightarrow> 'w session \<Rightarrow> int \<times> 'w session" where
  "sql_real_connect_multi env addresses database user password s =
     (let s = set_default_charset env (close_connection env s)
      in case call env (e_lb_connect env (ob_service_name_str s) addresses ((request None database user password s)\<lparr>cr_port := 0\<rparr>)) s of
           (None, s) \<Rightarrow>
             if e_errno env (world s) \<noteq> 0 then (-1, snd (put_error env s)) else (-2, s)
         | (Some (host, port), s) \<Rightarrow>
             (0, connection_made env (s\<lparr>current_host_success := Some host, current_port_success := port\<rparr>)))"

partial_function (option) sql_connect_loop ::
  "'w env \<Rightarrow> cstring option \<Rightarrow> cstring option \<Rightarrow> cstring option \<Rightarrow> cstring option \<Rightarrow> bool \<Rightarrow> bool \<Rightarrow> nat \<Rightarrow> 'w session
   \<Rightarrow> (int \<times> 'w session) option" where
  "sql_connect_loop env host database user password silent message n s =
     (case sql_real_connect env host database user password (wait_flag s) s of (error, s) \<Rightarrow>
        if error \<ge> 0 then Some (error, if n \<noteq> 0 then shown (tee_fputs [NL] STDERR) s else s)
        else if \<not> wait_flag s then Some (if ignore_errors s then -1 else 1, s)
        else
          let s = (if \<not> message \<and> \<not> silent then shown (tee_fputs ''Waiting'' STDERR) s else s);
              s = sync env s (e_sleep env 5 (world s));
              s = (if \<not> silent then shown (put STDERR ''.'') s else s)
          in sql_connect_loop env host database user password silent (message \<or> \<not> silent)
               (if silent then n else n + 1) s)"

declare sql_connect_loop.simps [code]

text \<open>The value 100 of \<open>silent\<close> tells that it is the connect command; its other values are flags.\<close>

definition sql_connect ::
  "'w env \<Rightarrow> cstring option \<Rightarrow> cstring option \<Rightarrow> cstring option \<Rightarrow> cstring option \<Rightarrow> nat \<Rightarrow> 'w session
   \<Rightarrow> (int \<times> 'w session) option" where
  "sql_connect env host database user password silent s =
     (case parse_multi_host (Some ((case host of None \<Rightarrow> [] | Some h \<Rightarrow> h) @ [NUL])) [] of (multi_host, a) \<Rightarrow>
        if silent \<noteq> 100 \<and> (ob_service_name_str s \<noteq> None \<or> multi_host \<noteq> []) then
          (let addresses = map (\<lambda>(p, port). (cstr (drop p (the a)), port)) multi_host
           in case sql_real_connect_multi env addresses database user password s of (error, s) \<Rightarrow>
                if error = -2 \<and> ob_service_name_str s \<noteq> None then
                  (case put_info (info s) ''ob-service-name invalid tnsnames.ora'' INFO_ERROR 4294967295 None
                          (mysql_oracle_mode s) (screen s) of
                     (r, c) \<Rightarrow> Some (error, s\<lparr>screen := c\<rparr>))
                else Some (error, s))
        else sql_connect_loop env host database user password (silent \<noteq> 0 \<and> silent \<noteq> 100) False 0 s)"

section \<open>The connect command\<close>

text \<open>
  \<open>get_password\<close> reads until a carriage return; what a closed terminal gives is a character
  like any other.
\<close>

partial_function (option) get_password :: "'w env \<Rightarrow> string \<Rightarrow> 'w session \<Rightarrow> (string \<times> 'w session) option" where
  "get_password env password s =
     (case call env (e_getch env) s of (ch, s) \<Rightarrow>
        if ch = CR then Some (password, shown (tee_fprintf STDOUT [NL]) s)
        else get_password env (if ch = CHR 0x08 then butlast password else password @ [ch]) s)"

declare get_password.simps [code]

definition enter_password :: "'w env \<Rightarrow> 'w session \<Rightarrow> 'w session option" where
  "enter_password env s =
     map_option (\<lambda>(passwd, s). s\<lparr>opt_password := Some (cstr passwd)\<rparr>)
       (get_password env [] (shown (tee_fprintf STDOUT ''Enter password:'') s))"

text \<open>\<open>strtoull\<close> for base ten; \<open>None\<close> is the error \<open>ERANGE\<close>.\<close>

definition strtoull :: "cstring \<Rightarrow> nat option" where
  "strtoull str =
     (let n = atoi str; m = nat (abs n)
      in if m \<ge> 2 ^ 64 then None else Some (if n < 0 then 2 ^ 64 - m else m))"

text \<open>The text of an argument, empty for a null pointer.\<close>

definition arg_text :: "nat option \<Rightarrow> string \<Rightarrow> cstring" where
  "arg_text p a = (case p of None \<Rightarrow> [] | Some i \<Rightarrow> cstr (drop i a))"

text \<open>The password is copied to an array of 128 bytes.\<close>

definition unquote_password :: "cstring \<Rightarrow> cstring option" where
  "unquote_password tmp =
     (let t = (if hd tmp = DQ \<and> last tmp = DQ \<and> length tmp > 2 then butlast (tl tmp) else tmp)
      in if length t < 128 then Some t else None)"

definition old_tenant :: "'w session \<Rightarrow> cstring option" where
  "old_tenant s = (case snd (split_fullname (current_user s) None (Some None)) of Some t \<Rightarrow> t | None \<Rightarrow> None)"

definition complete_user :: "cstring option \<Rightarrow> 'w session \<Rightarrow> 'w session" where
  "complete_user oldtenant s =
     (case (split_fullname (current_user s) (Some None) (Some None), oldtenant) of
        ((Some (Some newuser), Some None), Some t) \<Rightarrow> s\<lparr>current_user := Some (take 255 (newuser @ t))\<rparr>
      | _ \<Rightarrow> s)"

text \<open>\<open>connect user/password@host:port\<close>, whose port is the fourth argument.\<close>

definition connect_port :: "cstring \<Rightarrow> 'w session \<Rightarrow> bool \<times> 'w session" where
  "connect_port tmp s =
     (if tmp = [] then (True, s)
      else case strtoull tmp of
             None \<Rightarrow>
               (False, shown (put STDERR (''Incorrect unsigned integer value: '' @ [SQ] @ tmp @ [SQ, NL])) s)
           | Some port \<Rightarrow>
               (True, s\<lparr>opt_mysql_port := port mod 4294967296, current_port_success := port mod 4294967296\<rparr>))"

definition connect_host :: "string \<Rightarrow> 'w session \<Rightarrow> bool \<times> 'w session" where
  "connect_host buff s =
     (case get_arg_by_index (charset_info s) buff 0 2 of (tmp, buff) \<Rightarrow>
        let host = arg_text tmp buff in
        if host = [] then (True, s)
        else
          let s = s\<lparr>current_host := Some host, current_host_success := Some host\<rparr>
          in case get_arg_by_index (charset_info s) buff 0 3 of (tmp, buff) \<Rightarrow> connect_port (arg_text tmp buff) s)"

definition connect_user ::
  "'w env \<Rightarrow> cstring option \<Rightarrow> string \<Rightarrow> 'w session \<Rightarrow> (bool \<times> 'w session) option" where
  "connect_user env oldtenant buff s =
     (case get_arg_string (charset_info s) buff 0 GET of (tmp, buff) \<Rightarrow>
        let user = arg_text tmp buff in
        if user = [] then Some (True, s\<lparr>opt_rehash := False\<rparr>)
        else
          let s = s\<lparr>current_user := Some user\<rparr>
          in case get_arg_by_index (charset_info s) buff 0 1 of (tmp, buff) \<Rightarrow>
               let passwd = arg_text tmp buff in
               if passwd \<noteq> [] then
                 do { p \<leftarrow> unquote_password passwd;
                      case connect_host buff (s\<lparr>opt_password := Some p\<rparr>) of
                        (True, s) \<Rightarrow> Some (True, complete_user oldtenant s)
                      | (False, s) \<Rightarrow> Some (False, s) }
               else
                 do { s \<leftarrow> enter_password env s;
                      Some (True, complete_user oldtenant s) })"

definition connect_oracle_user ::
  "'w env \<Rightarrow> cstring option \<Rightarrow> string \<Rightarrow> 'w session \<Rightarrow> (bool \<times> 'w session) option" where
  "connect_oracle_user env oldtenant buff s =
     (case get_arg_string (charset_info s) buff 0 GET of (tmp, buff) \<Rightarrow>
        let user = arg_text tmp buff in
        if user = [] then Some (True, s\<lparr>opt_rehash := False\<rparr>)
        else
          do { s \<leftarrow> enter_password env (complete_user oldtenant (s\<lparr>current_user := Some user\<rparr>));
               Some (True, s) })"

definition connect_database :: "string \<Rightarrow> 'w session \<Rightarrow> 'w session" where
  "connect_database buff s =
     (case get_arg_string (charset_info s) buff 0 GET of (tmp, buff) \<Rightarrow>
        let db = arg_text tmp buff in
        if db = [] then s\<lparr>opt_rehash := False\<rparr>
        else
          let s = s\<lparr>current_db := Some db\<rparr>
          in case get_arg_string (charset_info s) buff 0 GET_NEXT of (tmp, buff) \<Rightarrow>
               let host = arg_text tmp buff in
               if host = [] then s else s\<lparr>current_host := Some host, current_host_success := Some host\<rparr>)"

definition connect_args ::
  "'w env \<Rightarrow> cstring option \<Rightarrow> int \<Rightarrow> string \<Rightarrow> 'w session \<Rightarrow> (bool \<times> 'w session) option" where
  "connect_args env oldtenant rewrite buff s =
     (if rewrite = 1 then connect_user env oldtenant buff s
      else if last_session_mode s then connect_oracle_user env oldtenant buff s
      else Some (True, connect_database buff s))"

text \<open>The database of the old connection is used again; \<open>sprintf\<close> writes to 256 bytes.\<close>

definition use_current_db :: "'w env \<Rightarrow> 'w session \<Rightarrow> 'w session option" where
  "use_current_db env s =
     (let sql = ''use '' @ (case current_db s of None \<Rightarrow> ''(null)'' | Some db \<Rightarrow> db)
      in if length sql \<ge> 256 then None
         else case call env (e_real_query env sql) s of
                (error, s) \<Rightarrow> Some (if error \<noteq> 0 then snd (put_error env s) else s))"

definition connect_again ::
  "'w env \<Rightarrow> bufref \<Rightarrow> cstring \<Rightarrow> cstring \<Rightarrow> nat \<Rightarrow> 'w session \<Rightarrow> (int \<times> 'w session) option" where
  "connect_again env r saveuser savehost saveport s =
     do { let s = (set_buffer r [] s)\<lparr>opt_mysql_port := current_port_success s\<rparr>;
          (error, s) \<leftarrow> sql_connect env (current_host_success s) None (current_user s) (opt_password s) 100 s;
          s \<leftarrow> (if connected s \<and> \<not> mysql_oracle_mode s then use_current_db env s else Some s);
          Some (error,
            if connected s then s
            else s\<lparr>current_user := Some saveuser, current_host_success := Some savehost,
                   current_port_success := saveport, opt_mysql_port := saveport\<rparr>) }"

definition get_login_sql_path :: "'w env \<Rightarrow> cstring option" where
  "get_login_sql_path env =
     (case e_getenv env ''OBCLIENT_LOGIN_FILE'' of
        Some path \<Rightarrow> Some (take 1023 path)
      | None \<Rightarrow>
          (case e_getenv env ''OBCLIENT_PATH'' of
             Some path \<Rightarrow> Some (take 1023 (path @ ''/'' @ ''obclient_login.sql''))
           | None \<Rightarrow> None))"

definition start_login_sql :: "'w env \<Rightarrow> 'w cmd \<Rightarrow> bufref \<Rightarrow> cstring option \<Rightarrow> 'w session \<Rightarrow> 'w session option" where
  "start_login_sql env exec r path s =
     (case path of
        None \<Rightarrow> Some s
      | Some path \<Rightarrow>
          if e_readable env path (world s) then
            do { (ret, s) \<leftarrow> exec Com_source r (Some (take 1023 (''source '' @ path))) (s\<lparr>is_feedback_oracle := False\<rparr>);
                 Some (s\<lparr>is_feedback_oracle := True\<rparr>) }
          else Some s)"

definition connect_done :: "'w env \<Rightarrow> 'w cmd \<Rightarrow> bool \<Rightarrow> int \<Rightarrow> 'w session \<Rightarrow> (int \<times> 'w session) option" where
  "connect_done env exec save_rehash error s =
     (let s = s\<lparr>opt_rehash := save_rehash\<rparr> in
      if connected s then
        do { let s = get_current_db env (s\<lparr>full_username := None, part_username := None\<rparr>);
             let s = note_info (''Connection id:    '' @ dec_str (e_thread_id env (world s))) INFO_INFO s;
             let s = note_info (''Current database: '' @
                       (case current_db s of None \<Rightarrow> ''*** NONE ***'' | Some db \<Rightarrow> take 128 db) @ [NL]) INFO_INFO s;
             s \<leftarrow> start_login_sql env exec GLOB (get_login_sql_path env) s;
             Some (error, s) }
      else Some (error, s))"

definition com_connect ::
  "'w env \<Rightarrow> 'w cmd \<Rightarrow> bufref option \<Rightarrow> cstring option \<Rightarrow> 'w session \<Rightarrow> (int \<times> 'w session) option" where
  "com_connect env exec buffer line s =
     do { let save_rehash = opt_rehash s;
          saveuser \<leftarrow> current_user s;
          savehost \<leftarrow> current_host_success s;
          let saveport = current_port_success s;
          let s = s\<lparr>dbms_serveroutput := False, dbms_prepared := False\<rparr>;
          let s = (if dbms_stmt s then sync env (s\<lparr>dbms_stmt := False\<rparr>) (e_stmt_done env (world s)) else s);
          let oldtenant = old_tenant s;
          case buffer of
            None \<Rightarrow>
              do { (error, s) \<leftarrow> sql_connect env (current_host s) (current_db s) (current_user s) (opt_password s) 0
                                   (s\<lparr>opt_rehash := False\<rparr>);
                   connect_done env exec save_rehash error s }
          | Some r \<Rightarrow>
              do { text \<leftarrow> line;
                   (text, s) \<leftarrow> (if last_session_mode s \<and> is_define_oracle s then scan_define_oracle text False s
                                  else Some (text, s));
                   let t = strmake (cstr text) 254;
                   case rewrite_by_oracle (charset_info s) (t @ replicate (256 - length t) NUL) of
                     (rewrite, buff) \<Rightarrow>
                       if rewrite = -1 then
                         Some (0, shown (tee_fprintf STDOUT (''Connect string is invalid...'' @ [NL])) s)
                       else
                         do { (given, s) \<leftarrow> connect_args env oldtenant rewrite buff s;
                              if \<not> given then Some (1, s)
                              else do { (error, s) \<leftarrow> connect_again env r saveuser savehost saveport s;
                                        connect_done env exec save_rehash error s } } } }"

section \<open>Reconnecting\<close>

definition com_rehash :: "'w env \<Rightarrow> 'w session \<Rightarrow> int \<times> 'w session" where
  "com_rehash env s = (0, build_completion_hash env True False s)"

definition reconnect :: "'w env \<Rightarrow> 'w cmd \<Rightarrow> 'w session \<Rightarrow> (int \<times> 'w session) option" where
  "reconnect env exec s =
     do { s \<leftarrow> (if opt_reconnect s then
                   do { (error, s) \<leftarrow> com_connect env exec None None
                                        (note_info ''No connection. Trying to reconnect...'' INFO_INFO s);
                        Some (if opt_rehash s then snd (com_rehash env s) else s) }
                 else Some s);
          if \<not> connected s then Some (say (''Can'' @ [SQ] @ ''t connect to the server'' @ [NL]) INFO_ERROR s)
          else Some (0, s\<lparr>server_version := None\<rparr>) }"

function real_query_loop :: "'w env \<Rightarrow> 'w cmd \<Rightarrow> string \<Rightarrow> nat \<Rightarrow> 'w session \<Rightarrow> (int \<times> 'w session) option" where
  "real_query_loop env exec buf retry s =
     (case call env (e_real_query env buf) s of (failed, s) \<Rightarrow>
        if failed = 0 then Some (0, s)
        else case put_error env s of (error, s) \<Rightarrow>
          if e_errno env (world s) \<noteq> 2006 \<or> retry > 1 \<or> \<not> opt_reconnect s then Some (error, s)
          else do { (r, s) \<leftarrow> reconnect env exec s;
                    if r \<noteq> 0 then Some (error, s) else real_query_loop env exec buf (retry + 1) s })"
  by pat_completeness auto
termination
  by (relation "measure (\<lambda>(env, exec, buf, retry, s). 2 - retry)") auto

declare real_query_loop.simps [simp del]

definition mysql_real_query_for_lazy ::
  "'w env \<Rightarrow> 'w cmd \<Rightarrow> string \<Rightarrow> 'w session \<Rightarrow> (int \<times> 'w session) option" where
  "mysql_real_query_for_lazy env exec buf s = real_query_loop env exec buf 0 s"

section \<open>Properties\<close>

text \<open>The keys that are typed, and what each does to the password.\<close>

primrec typed :: "'w env \<Rightarrow> nat \<Rightarrow> 'w \<Rightarrow> 'w" where
  "typed env 0 w = w"
| "typed env (Suc n) w = typed env n (snd (e_getch env w))"

definition key :: "'w env \<Rightarrow> 'w \<Rightarrow> nat \<Rightarrow> char" where
  "key env w n = fst (e_getch env (typed env n w))"

definition edit :: "string \<Rightarrow> char \<Rightarrow> string" where
  "edit t c = (if c = CHR 0x08 then butlast t else t @ [c])"

lemma key_simps [simp]: "key env w 0 = fst (e_getch env w)" "key env w (Suc n) = key env (snd (e_getch env w)) n"
  by (simp_all add: key_def)

lemma get_password_CR:
  assumes "key env (world s) n = CR" and "\<forall>m < n. key env (world s) m \<noteq> CR"
  shows "get_password env p s = Some (foldl edit p (map (key env (world s)) [0..<n]),
    shown (tee_fprintf STDOUT [NL]) (sync env s (typed env (Suc n) (world s))))"
  using assms
proof (induction n arbitrary: p s)
  case 0
  then show ?case by (subst get_password.simps) (simp add: call_def case_prod_beta)
next
  case (Suc n)
  let ?s = "sync env s (snd (e_getch env (world s)))"
  have "\<forall>m < n. key env (world ?s) m \<noteq> CR" using Suc.prems(2) by fastforce
  then have IH: "get_password env q ?s = Some (foldl edit q (map (key env (world ?s)) [0..<n]),
      shown (tee_fprintf STDOUT [NL]) (sync env ?s (typed env (Suc n) (world ?s))))" for q
    using Suc.prems(1) by (intro Suc.IH) simp_all
  have "key env (world s) 0 \<noteq> CR" using Suc.prems(2) by blast
  then have "get_password env p s = get_password env (edit p (key env (world s) 0)) ?s"
    by (subst get_password.simps) (simp add: call_def case_prod_beta edit_def)
  then show ?case
    unfolding IH map_upt_Suc by simp
qed

lemma get_password_only_CR:
  assumes "get_password env p s = Some r"
  shows "\<exists>n. key env (world s) n = CR"
proof (rule get_password.raw_induct [where P = "\<lambda>env p s r. \<exists>n. key env (world s) n = CR", OF _ assms])
  fix f :: "'a env \<Rightarrow> string \<Rightarrow> 'a session \<Rightarrow> (string \<times> 'a session) option" and env p s r
  assume IH: "\<And>env p s r. f env p s = Some r \<Longrightarrow> \<exists>n. key env (world s) n = CR"
    and r: "(case call env (e_getch env) s of (ch, s) \<Rightarrow>
      if ch = CR then Some (p, shown (tee_fprintf STDOUT [NL]) s)
      else f env (if ch = CHR 0x08 then butlast p else p @ [ch]) s) = Some r"
  show "\<exists>n. key env (world s) n = CR"
  proof (cases "key env (world s) 0 = CR")
    case False
    then have "\<exists>q. f env q (sync env s (snd (e_getch env (world s)))) = Some r"
      using r by (auto simp: call_def case_prod_beta)
    then obtain n where "key env (world (sync env s (snd (e_getch env (world s))))) n = CR" using IH by blast
    then have "key env (world s) (Suc n) = CR" by simp
    then show ?thesis ..
  qed (rule exI)
qed

text \<open>
  C39: the password prompt returns exactly if a carriage return is typed at some time, with what
  was typed before the first one, where a backspace takes back one character. If none comes, as
  when standard input is not a terminal and every read gives the character of \<open>EOF\<close>, it never
  returns.
\<close>

theorem get_password_result:
  "get_password env [] s =
     (if \<exists>n. key env (world s) n = CR then
        let n = LEAST n. key env (world s) n = CR
        in Some (foldl edit [] (map (key env (world s)) [0..<n]),
                 shown (tee_fprintf STDOUT [NL]) (sync env s (typed env (Suc n) (world s))))
      else None)"
proof (cases "\<exists>n. key env (world s) n = CR")
  case True
  then show ?thesis
    using get_password_CR [of env s "LEAST n. key env (world s) n = CR" "[]"] LeastI_ex [OF True] not_less_Least
    by (auto simp: Let_def)
next
  case False
  then have "get_password env [] s = None" using get_password_only_CR [of env "[]" s] by (metis not_None_eq)
  then show ?thesis using False by simp
qed
end
