(* ===== verification/Query.thy ===== *)
theory Query
  imports Connect
begin

text \<open>
  Sending a statement and showing what comes back: \<^verbatim>\<open>com_go\<close>, \<^verbatim>\<open>com_ego\<close>,
  \<^verbatim>\<open>com_print\<close>, \<^verbatim>\<open>print_warnings\<close>, and for Oracle mode \<^verbatim>\<open>handle_oracle_sql\<close>,
  \<^verbatim>\<open>call_dbms_get_line\<close> and \<^verbatim>\<open>print_error_sqlstr\<close> of \<^verbatim>\<open>client/mysql.cc\<close>.
  A regular expression is a function from a text to the offsets of its groups, \<open>-1\<close> for a
  group that took no part.
\<close>

section \<open>Show errors\<close>

fun fmt_loop :: "string \<Rightarrow> nat \<Rightarrow> nat \<Rightarrow> string" where
  "fmt_loop [] j n = []"
| "fmt_loop (c # s) j n =
     (if j + 2 < n then (if c = SQ then SQ # SQ # fmt_loop s (j + 2) n else c # fmt_loop s (j + 1) n) else [])"

definition fmt_str :: "cstring \<Rightarrow> nat \<Rightarrow> nat \<Rightarrow> cstring" where
  "fmt_str p_in p_in_len p_out_len = fmt_loop (take p_in_len p_in) 0 p_out_len"

type_synonym regmatch = "int \<times> int"

definition sub_text :: "cstring \<Rightarrow> regmatch \<Rightarrow> cstring" where
  "sub_text b m = take (nat (snd m - fst m)) (drop (nat (fst m)) b)"

definition matched :: "regmatch \<Rightarrow> bool" where
  "matched m \<longleftrightarrow> fst m \<noteq> -1 \<and> snd m \<noteq> -1"

definition pl_get_errors_sql :: "cstring \<Rightarrow> cstring \<Rightarrow> cstring \<Rightarrow> cstring" where
  "pl_get_errors_sql object type schema =
     ''SELECT TO_CHAR(LINE)||'' @ [SQ] @ ''/'' @ [SQ] @ ''||TO_CHAR(POSITION) '' @ [DQ] @ ''LINE/COL'' @ [DQ]
     @ '', TEXT '' @ [DQ] @ ''ERROR'' @ [DQ] @ '' FROM ALL_ERRORS A WHERE A.NAME = '' @ [SQ] @ object @ [SQ]
     @ ''  AND A.TYPE = '' @ [SQ] @ type @ [SQ] @ '' AND A.OWNER = '' @ [SQ] @ schema @ [SQ]
     @ '' ORDER BY LINE, POSITION, ATTRIBUTE, MESSAGE_NUMBER''"

definition opt_text :: "cstring option \<Rightarrow> cstring" where
  "opt_text t = (case t of None \<Rightarrow> [] | Some t \<Rightarrow> t)"

definition show_errors_args ::
  "cstring \<Rightarrow> regmatch list \<Rightarrow> 'w session \<Rightarrow> (cstring \<times> cstring \<times> cstring) option" where
  "show_errors_args b subs s =
     (if matched (subs ! 3) then
        let type = mytoupper (sub_text b (subs ! 4));
            object = sub_text b (subs ! 12);
            object = (if matched (subs ! 11) then object else mytoupper object)
        in if fst (subs ! 10) \<noteq> -1 \<or> snd (subs ! 10) \<noteq> -1 then
             let schema = sub_text b (subs ! 10);
                 schema = (if matched (subs ! 9) then schema else mytoupper schema)
             in Some (object, type, schema)
           else do { schema \<leftarrow> current_db s; Some (object, type, schema) }
      else
        do { schema \<leftarrow> (case pl_last_schema s of None \<Rightarrow> current_db s | Some t \<Rightarrow> Some t);
             Some (opt_text (pl_last_object s), opt_text (pl_last_type s), schema) })"

text \<open>The name of an object or schema, quoted or not.\<close>

definition last_name :: "cstring \<Rightarrow> regmatch \<Rightarrow> regmatch \<Rightarrow> cstring option" where
  "last_name b plain quoted =
     (if matched quoted then Some (fmt_str (drop (nat (fst quoted)) b) (nat (snd quoted - fst quoted)) 1024)
      else if matched plain then Some (mytoupper (sub_text b plain)) else None)"

definition remember_object ::
  "cstring \<Rightarrow> regmatch list \<Rightarrow> nat \<Rightarrow> nat \<Rightarrow> nat \<Rightarrow> 'w session \<Rightarrow> 'w session" where
  "remember_object b subs type schema object s =
     s\<lparr>pl_last_type := Some (mytoupper (sub_text b (subs ! type))),
       pl_last_object := last_name b (subs ! object) (subs ! (object + 1)),
       pl_last_schema := last_name b (subs ! schema) (subs ! (schema + 1))\<rparr>"

definition handle_oracle_sql :: "'w env \<Rightarrow> bufref \<Rightarrow> 'w session \<Rightarrow> 'w session option" where
  "handle_oracle_sql env r s =
     (let b = cstr (get_buffer r s) in
      case e_show_errors_re env b of
        Some subs \<Rightarrow>
          do { (object, type, schema) \<leftarrow> show_errors_args b subs s;
               Some (set_buffer r (take 511 (pl_get_errors_sql object type schema)) s) }
      | None \<Rightarrow>
          (case e_create_re env b of
             Some subs \<Rightarrow> Some (remember_object b subs 3 8 11 s)
           | None \<Rightarrow>
               (case e_alter_re env b of
                  Some subs \<Rightarrow> Some (remember_object b subs 2 4 7 s)
                | None \<Rightarrow> Some s)))"

section \<open>Output of the server\<close>

definition dbms_get_line :: cstring where
  "dbms_get_line = ''call dbms_output.get_line(?, ?)''"

fun stmt_calls :: "'w env \<Rightarrow> stmt_call list \<Rightarrow> 'w session \<Rightarrow> bool \<times> 'w session" where
  "stmt_calls env [] s = (True, s)"
| "stmt_calls env (c # cs) s =
     (case call env (e_stmt_call env c) s of (r, s) \<Rightarrow> if r \<noteq> 0 then (False, s) else stmt_calls env cs s)"

text \<open>
  The bound variables, which the library writes: the status, whether the line is null, the
  array and the length. The array has 32767 bytes.
\<close>

definition print_dbms_line :: "'w env \<Rightarrow> int \<Rightarrow> 'w session \<Rightarrow> 'w session option" where
  "print_dbms_line env error s =
     (case e_dbms_row env (world s) of (dbms_status, is_null, dbms_line_buffer, n) \<Rightarrow>
        if error = 0 \<and> dbms_status = CHR ''0'' \<and> \<not> is_null then
          if n > 32767 then None
          else
            let text = map (\<lambda>c. if c = NUL then CHR '' '' else c) (take n dbms_line_buffer) @ drop n dbms_line_buffer
            in Some (shown (tee_puts (cstr text) STDOUT) s)
        else Some s)"

definition get_line_once :: "'w env \<Rightarrow> int \<Rightarrow> 'w session \<Rightarrow> (int \<times> 'w session) option" where
  "get_line_once env error s =
     (case (if dbms_stmt s then (True, s) else call env (e_stmt_init env) s) of
        (False, s) \<Rightarrow> Some (put_error env s)
      | (True, s) \<Rightarrow>
          let s = s\<lparr>dbms_stmt := True\<rparr> in
          case (if dbms_prepared s then (0, s) else call env (e_stmt_prepare env dbms_get_line) s) of (r, s) \<Rightarrow>
            if r \<noteq> 0 then Some (put_stmt_error env s)
            else
              case stmt_calls env [Stmt_bind_param, Stmt_execute, Stmt_store_result, Stmt_bind_result, Stmt_fetch]
                     (s\<lparr>dbms_prepared := True\<rparr>) of
                (False, s) \<Rightarrow> Some (put_stmt_error env s)
              | (True, s) \<Rightarrow>
                  do { s \<leftarrow> print_dbms_line env error s;
                       Some (0, sync env s (e_stmt_next env (world s))) })"

partial_function (option) call_dbms_get_line :: "'w env \<Rightarrow> int \<Rightarrow> 'w session \<Rightarrow> 'w session option" where
  "call_dbms_get_line env error s =
     do { (inner_error, s) \<leftarrow> get_line_once env error s;
          if inner_error = 0 \<and> fst (e_dbms_row env (world s)) = CHR ''0'' then call_dbms_get_line env error s
          else Some s }"

declare call_dbms_get_line.simps [code]

fun top_lines :: "int \<Rightarrow> int \<Rightarrow> cstring \<Rightarrow> cstring" where
  "top_lines m i [] = []"
| "top_lines m i (c # p) =
     (if m = 0 \<or> i < m then c # top_lines m (if c = NL then i + 1 else i) p else [])"

definition top_of :: "cstring \<Rightarrow> int" where
  "top_of topN =
     (if strncaseeq topN ''top'' 3 \<and> is_digit (ch_at topN 3)
      then let m = atoi (drop 3 topN) in if m < 0 then 5 else m
      else 5)"

text \<open>\<open>p\<close> is the text the pointer of the buffer points at.\<close>

definition print_error_sqlstr :: "cstring \<Rightarrow> cstring \<Rightarrow> 'w session \<Rightarrow> 'w session" where
  "print_error_sqlstr p topN s =
     shown (put STDOUT (''----------------------------'' @ [NL]
              @ top_lines (top_of topN) 0 (dropWhile (\<lambda>c. c \<in> {CHR '' '', TAB, CR, NL}) p) @ [NL, NL])) s"

section \<open>Warnings\<close>

definition null_text :: "cell \<Rightarrow> cstring" where
  "null_text c = (case c of None \<Rightarrow> ''(null)'' | Some t \<Rightarrow> cstr t)"

definition warning_line :: "cell list \<Rightarrow> string" where
  "warning_line cur = null_text (cur ! 0) @ '' (Code '' @ null_text (cur ! 1) @ ''): '' @ null_text (cur ! 2) @ [NL]"

text \<open>\<open>strtoul\<close> of the error code of a row, as an unsigned integer.\<close>

definition row_code :: "cell list \<Rightarrow> nat option" where
  "row_code cur =
     do { code \<leftarrow> cur ! 1;
          Some (case strtoull (cstr code) of None \<Rightarrow> 4294967295 | Some n \<Rightarrow> n mod 4294967296) }"

definition print_warnings :: "'w env \<Rightarrow> 'w cmd \<Rightarrow> 'w session \<Rightarrow> 'w session option" where
  "print_warnings env exec s =
     (let error = e_errno env (world s) in
      do { (failed, s) \<leftarrow> mysql_real_query_for_lazy env exec ''show warnings'' s;
           if failed \<noteq> 0 then Some s
           else
             case mysql_store_result_for_lazy env s of
               (failed, Some res, s) \<Rightarrow>
                 (case r_rows res of
                    [] \<Rightarrow> Some s
                  | cur # rest \<Rightarrow>
                      do { same \<leftarrow> (if rest = [] then do { code \<leftarrow> row_code cur; Some (error = code) } else Some False);
                           if same then Some s
                           else
                             let s = init_pager env s
                             in printed (acts (map (\<lambda>cur. tee (warning_line cur)) (cur # rest))) s })
             | (failed, None, s) \<Rightarrow> Some s })"

section \<open>Running a statement\<close>

definition com_print :: "bufref \<Rightarrow> 'w session \<Rightarrow> int \<times> 'w session" where
  "com_print r s =
     (let b = get_buffer r s;
          s = shown (tee_fputs (cstr b) STDOUT) (shown (tee_puts ''--------------'' STDOUT) s);
          s = (if b = [] \<or> last b \<noteq> NL then shown (tee_putc NL STDOUT) s else s)
      in (0, shown (tee_puts (''--------------'' @ [NL]) STDOUT) s))"

text \<open>A 64-bit count printed with \<open>%ld\<close>.\<close>

definition ld :: "nat \<Rightarrow> string" where
  "ld n = (if n < 2 ^ 63 then dec_str n else ''-'' @ dec_str (2 ^ 64 - n))"

text \<open>The rows that have been fetched once the result is printed.\<close>

definition rows_fetched :: "settings \<Rightarrow> mysql_res \<Rightarrow> nat" where
  "rows_fetched cfg res =
     (if quick cfg then min (length (r_rows res)) (length (printed_rows cfg res) + 1) else length (r_rows res))"

text \<open>
  \<open>go_on\<close> is a statement that is not a command of the client. The text of the statement can
  be one that is made from the variables and from the last objects.
\<close>

definition com_go_oracle :: "'w env \<Rightarrow> 'w cmd \<Rightarrow> bufref \<Rightarrow> 'w session \<Rightarrow> (bool \<times> 'w session) option" where
  "com_go_oracle env exec r s =
     do { s \<leftarrow> (if is_define_oracle s
                 then do { (b, s) \<leftarrow> scan_define_oracle (get_buffer r s) True s; Some (set_buffer r b s) }
                 else Some s);
          let str = cstr (get_buffer r s);
          (state, s) \<leftarrow> set_cmd_oracle (mysql_real_query_for_lazy env exec) str (int (length str)) s;
          let (state, s) = (if state \<noteq> CMD_STATE_UNKNOW then (state, s)
                            else set_param_oracle (e_column_format_re env) str s);
          if state \<noteq> CMD_STATE_UNKNOW then Some (False, set_buffer r [] s)
          else
            let s = (if (verbose s > 0 \<or> is_echo_oracle s \<and> in_com_source (conf s))
                        \<and> is_termout_oracle_enable (print_cfg s)
                     then snd (com_print r s) else s)
            in do { s \<leftarrow> handle_oracle_sql env r s; Some (True, s) } }"

definition fetch_result :: "'w env \<Rightarrow> int \<Rightarrow> 'w session \<Rightarrow> bool \<times> int \<times> mysql_res option \<times> 'w session" where
  "fetch_result env error s =
     (if quick (conf s) then
        (case call env (e_use_result env) s of (res, s) \<Rightarrow>
           if res = None \<and> e_field_count env (world s) \<noteq> 0
           then (case put_error env s of (error, s) \<Rightarrow> (False, error, None, s))
           else (True, error, res, s))
      else
        (case mysql_store_result_for_lazy env s of (error, res, s) \<Rightarrow> (error = 0, error, res, s)))"

text \<open>\<open>stmt\<close> is what the pointer of the emptied statement buffer points at.\<close>

definition print_result :: "cstring \<Rightarrow> mysql_res \<Rightarrow> 'w session \<Rightarrow> act" where
  "print_result stmt res s =
     (let cfg = print_cfg s in
      if opt_html s then print_table_data_html cfg res
      else if opt_xml s then print_table_data_xml cfg stmt res
      else if vertical s \<or> auto_vertical_output s \<and> terminal_width s < get_result_width cfg res
        then print_table_data_vertically cfg res
      else if s_silent (info s) \<noteq> 0 \<and> verbose s \<le> 2 \<and> \<not> output_tables s then print_tab_data cfg res
      else print_table_data cfg res)"

definition rows_text :: "nat \<Rightarrow> string" where
  "rows_text n = ld n @ (if n = 1 then '' row'' else '' rows'')"

definition show_result ::
  "'w env \<Rightarrow> cstring \<Rightarrow> int \<Rightarrow> mysql_res option \<Rightarrow> 'w session \<Rightarrow> (string \<times> int \<times> 'w session) option" where
  "show_result env stmt error result s =
     (case result of
        Some res \<Rightarrow>
          if r_rows res = [] \<and> \<not> quick (conf s) \<and> \<not> column_types_flag (conf s) then
            do { s \<leftarrow> (if opt_xml s
                       then let s = init_pager env s in printed (print_table_data_xml (print_cfg s) stmt res) s
                       else Some s);
                 Some (''Empty set'', error, s) }
          else
            do { let s = init_pager env s;
                 s \<leftarrow> printed (print_result stmt res s) s;
                 let buff = rows_text (rows_fetched (conf s) res) @ '' in set'';
                 if e_errno env (world s) \<noteq> 0
                 then (case put_error env s of (error, s) \<Rightarrow> Some (buff, error, s))
                 else Some (buff, error, s) }
      | None \<Rightarrow>
          Some (if e_affected_rows env (world s) = 2 ^ 64 - 1 then ''Query OK''
                else ''Query OK, '' @ rows_text (e_affected_rows env (world s)) @ '' affected'', error, s))"

definition warnings_text :: "nat \<Rightarrow> string" where
  "warnings_text n = (if n = 0 then [] else '', '' @ dec_str n @ '' warning'' @ (if n \<noteq> 1 then ''s'' else []))"

definition give_feedback :: "mysql_res option \<Rightarrow> 'w session \<Rightarrow> bool" where
  "give_feedback result s =
     (if mysql_oracle_mode s then
        is_feedback_oracle s \<and> is_termout_oracle_enable (print_cfg s) \<and>
        (feedback_int_oracle s \<le> 0 \<or>
         (case result of
            None \<Rightarrow> True
          | Some res \<Rightarrow>
              rows_fetched (conf s) res = 0 \<or> rows_fetched (conf s) res \<ge> nat (feedback_int_oracle s)))
      else True)"

definition show_feedback :: "'w env \<Rightarrow> string \<Rightarrow> mysql_res option \<Rightarrow> 'w session \<Rightarrow> 'w session" where
  "show_feedback env buff result s =
     (let s = (if give_feedback result s then note_info buff INFO_RESULT s else s)
      in if is_termout_oracle_enable (print_cfg s) then
           let s = (case e_info env (world s) of None \<Rightarrow> s | Some t \<Rightarrow> note_info t INFO_RESULT s)
           in note_info [] INFO_RESULT s
         else s)"

definition one_result ::
  "'w env \<Rightarrow> cstring \<Rightarrow> int \<Rightarrow> mysql_res option \<Rightarrow> 'w session \<Rightarrow> (int \<times> nat \<times> 'w session) option" where
  "one_result env stmt error result s =
     do { let time_buff = (if verbose s \<ge> 3 \<or> s_silent (info s) = 0 then e_timer env (world s) else []);
          (buff, error, s) \<leftarrow> show_result env stmt error result s;
          let warnings = e_warning_count env (world s);
          let s = show_feedback env (buff @ warnings_text warnings @ time_buff) result s;
          let (error, s) = (if result \<noteq> None \<and> \<not> e_eof env (world s) then put_error env s else (error, s));
          Some (error, warnings, s) }"

partial_function (option) result_loop ::
  "'w env \<Rightarrow> cstring \<Rightarrow> int \<Rightarrow> nat \<Rightarrow> 'w session \<Rightarrow> (int \<times> nat \<times> 'w session) option" where
  "result_loop env stmt error warnings s =
     (case fetch_result env error s of (go_on, error, result, s) \<Rightarrow>
        if \<not> go_on then Some (error, warnings, s)
        else
          do { (error, warnings, s) \<leftarrow> one_result env stmt error result s;
               case call env (e_next_result env) s of (err, s) \<Rightarrow>
                 if err = 0 then result_loop env stmt error warnings s
                 else if err \<ge> 1 then (case put_error env s of (error, s) \<Rightarrow> Some (error, warnings, s))
                 else Some (error, warnings, s) })"

declare result_loop.simps [code]

text \<open>
  The statement is copied to \<open>last_execute_buffer\<close>, which is emptied first, and with its end
  to the history. The statement's own buffer then is emptied.
\<close>

definition go_done :: "bufref \<Rightarrow> 'w session \<Rightarrow> 'w session" where
  "go_done r s =
     (let s = s\<lparr>last_execute_buffer := []\<rparr>;
          s = s\<lparr>last_execute_buffer := get_buffer r s\<rparr>;
          s = (if add_to_history s
               then fix_history (get_buffer r s @
                      (if vertical s then [BSL, CHR ''G''] else if is_pl_escape_sql s then ''/'' else delimiter s)) s
               else s)
      in set_buffer r [] s)"

definition go_end ::
  "'w env \<Rightarrow> 'w cmd \<Rightarrow> cstring \<Rightarrow> int \<Rightarrow> nat \<Rightarrow> 'w session \<Rightarrow> (int \<times> 'w session) option" where
  "go_end env exec text error warnings s =
     do { let s = (case ob_error_top_str s of
                     None \<Rightarrow> s
                   | Some topN \<Rightarrow> if error \<noteq> 0 then print_error_sqlstr text topN s else s);
          s \<leftarrow> (if \<not> mysql_oracle_mode s \<and> show_warnings s \<and> (warnings \<ge> 1 \<or> error \<noteq> 0)
                then print_warnings env exec s else Some s);
          let s = (if error = 0 \<and> \<not> batch s \<and> has_flag (server_status s) 256 then get_current_db env s else s);
          s \<leftarrow> (if dbms_serveroutput s then call_dbms_get_line env error s else Some s);
          Some (error, s) }"

definition send_statement :: "'w env \<Rightarrow> 'w cmd \<Rightarrow> bufref \<Rightarrow> 'w session \<Rightarrow> (int \<times> 'w session) option" where
  "send_statement env exec r s =
     do { let b = get_buffer r s;
          (error, s) \<leftarrow> mysql_real_query_for_lazy env exec b s;
          let s = go_done r s;
          let text = (if r = LAST \<or> b = [] then e_stale_text env b else cstr b);
          if error \<noteq> 0 then go_end env exec text error 0 s
          else do { (error, warnings, s) \<leftarrow> result_loop env (e_stale_text env b) 0 0 s;
                    go_end env exec text error warnings s } }"

definition com_go :: "'w env \<Rightarrow> 'w cmd \<Rightarrow> bufref \<Rightarrow> 'w session \<Rightarrow> (int \<times> 'w session) option" where
  "com_go env exec r s =
     (let s = (if batch s then s else s\<lparr>old_buffer := get_buffer r s\<rparr>);
          s = set_buffer r (remove_cntrl (charset_info s) (get_buffer r s)) s
      in if get_buffer r s = [] then
           (if batch s then Some (0, s) else Some (say (''No query specified'' @ [NL]) INFO_ERROR s))
         else
           do { (go_on, s) \<leftarrow> (if last_session_mode s then com_go_oracle env exec r s
                                 else Some (True, if verbose s > 0 then snd (com_print r s) else s));
                if \<not> go_on then Some (0, s)
                else
                  do { (failed, s) \<leftarrow> (if connected s then Some (0, s) else reconnect env exec s);
                       if failed \<noteq> 0 then Some (if opt_reconnect s then -1 else 1, set_buffer r [] s)
                       else if skip_updates s \<and>
                               (length (get_buffer r s) < 4 \<or>
                                e_strnncoll env (charset_info s) (take 4 (get_buffer r s)) ''SET '' \<noteq> 0)
                         then Some (0, note_info ''Ignoring query to other database'' INFO_INFO s)
                       else send_statement env exec r s } })"

definition com_ego :: "'w env \<Rightarrow> 'w cmd \<Rightarrow> bufref \<Rightarrow> 'w session \<Rightarrow> (int \<times> 'w session) option" where
  "com_ego env exec r s =
     do { let oldvertical = vertical s;
          (result, s) \<leftarrow> com_go env exec r (s\<lparr>vertical := True\<rparr>);
          Some (result, s\<lparr>vertical := oldvertical\<rparr>) }"

end
