(* ===== verification/Prompt.thy ===== *)
theory Prompt
  imports Session
begin

text \<open>
  The prompt: \<^verbatim>\<open>construct_prompt\<close>, \<^verbatim>\<open>add_int_to_prompt\<close>, \<^verbatim>\<open>init_username\<close> and
  \<^verbatim>\<open>com_prompt\<close> of \<^verbatim>\<open>client/mysql.cc\<close>. The clock is one of the functions of the
  environment. The outcome \<open>None\<close> is a string function that is given a null pointer or an
  array without an end.
\<close>

definition add_int_to_prompt :: "nat \<Rightarrow> string" where
  "add_int_to_prompt n = d32 (n mod 4294967296)"

definition two_digits :: "nat \<Rightarrow> string" where
  "two_digits n = (if n < 10 then ''0'' else []) @ add_int_to_prompt n"

definition init_username :: "'w env \<Rightarrow> 'w session \<Rightarrow> 'w session option" where
  "init_username env s =
     (let sql = (if mysql_oracle_mode s then ''select USER from dual'' else ''select USER()'') in
      case call env (e_real_query env sql) s of (error, s) \<Rightarrow>
        if error \<noteq> 0 then Some s
        else case call env (e_use_result env) s of
               (None, s) \<Rightarrow> Some s
             | (Some res, s) \<Rightarrow>
                 (case r_rows res of
                    [] \<Rightarrow> Some s
                  | cur # _ \<Rightarrow>
                      do { user \<leftarrow> hd cur;
                           let part = takeWhile (\<lambda>c. c \<noteq> CHR ''@'') (dropWhile (\<lambda>c. c = CHR ''@'') (cstr user));
                           if part = [] then None
                           else Some (s\<lparr>full_username := Some (cstr user), part_username := Some part\<rparr>) }))"

definition known_username :: "'w env \<Rightarrow> 'w session \<Rightarrow> 'w session option" where
  "known_username env s = (if full_username s = None then init_username env s else Some s)"

definition username_text :: "cstring option \<Rightarrow> 'w session \<Rightarrow> cstring" where
  "username_text name s =
     (case name of
        Some n \<Rightarrow> n
      | None \<Rightarrow> (case current_user s of Some u \<Rightarrow> u | None \<Rightarrow> ''(unknown)''))"

definition prompt_host :: "'w env \<Rightarrow> char \<Rightarrow> 'w session \<Rightarrow> cstring" where
  "prompt_host env c s =
     (let prompt = (if connected s then e_host_info env (world s) else ''not_connected'') in
      if strstr prompt ''Localhost'' \<noteq> None \<or> strstr prompt ''localhost '' \<noteq> None then
        if c = CHR ''h'' then ''localhost''
        else case e_hostname env of Some h \<Rightarrow> h | None \<Rightarrow> ''gethostname(2) failed''
      else takeWhile (\<lambda>c. c \<noteq> CHR '' '') prompt)"

definition prompt_port :: "'w env \<Rightarrow> 'w session \<Rightarrow> cstring" where
  "prompt_port env s =
     (if \<not> connected s then ''not_connected''
      else
        let host_info = e_host_info env (world s) in
        if strstr host_info ''memory'' \<noteq> None then e_mysql_host env (world s)
        else case e_unix_socket env (world s) of
               None \<Rightarrow> add_int_to_prompt (e_port env (world s))
             | Some socket \<Rightarrow>
                 if strstr host_info ''TCP/IP'' \<noteq> None then add_int_to_prompt (e_port env (world s))
                 else rev (takeWhile (\<lambda>c. c \<noteq> CHR ''/'') (rev socket)))"

text \<open>The arrays for the names have 256 bytes and are zero at first.\<close>

definition name_or_none :: "string \<Rightarrow> cstring option" where
  "name_or_none name = (if length name \<ge> 256 then None else Some (if name = [] then ''(none)'' else name))"

definition day_names :: "cstring list" where
  "day_names = [''Sun'', ''Mon'', ''Tue'', ''Wed'', ''Thu'', ''Fri'', ''Sat'']"

definition month_names :: "cstring list" where
  "month_names = [''Jan'', ''Feb'', ''Mar'', ''Apr'', ''May'', ''Jun'', ''Jul'', ''Aug'', ''Sep'', ''Oct'', ''Nov'', ''Dec'']"

text \<open>What depends on the clock only.\<close>

definition prompt_time :: "tm \<Rightarrow> cstring \<Rightarrow> char \<Rightarrow> cstring option" where
  "prompt_time t ctime c =
     (if c = CHR ''R'' then Some (two_digits (tm_hour t))
      else if c = CHR ''r'' then Some (two_digits (if tm_hour t mod 12 = 0 then 12 else tm_hour t mod 12))
      else if c = CHR ''m'' then Some (two_digits (tm_min t))
      else if c = CHR ''y'' then Some (two_digits (tm_year t mod 100))
      else if c = CHR ''Y'' then Some (add_int_to_prompt (tm_year t + 1900))
      else if c = CHR ''D'' then Some (takeWhile (\<lambda>c. c \<noteq> NL) (dropWhile (\<lambda>c. c = NL) ctime))
      else if c = CHR ''s'' then Some (two_digits (tm_sec t))
      else if c = CHR ''w'' then Some (day_names ! tm_wday t)
      else if c = CHR ''P'' then Some (if tm_hour t < 12 then ''am'' else ''pm'')
      else if c = CHR ''o'' then Some (add_int_to_prompt (tm_mon t + 1))
      else if c = CHR ''O'' then Some (month_names ! tm_mon t)
      else None)"

text \<open>What is the same text every time.\<close>

definition prompt_const :: "'w session \<Rightarrow> char \<Rightarrow> cstring option" where
  "prompt_const s c =
     (if c = BSL then Some [BSL]
      else if c = CHR ''n'' then Some [NL]
      else if c = CHR '' '' \<or> c = CHR ''_'' then Some '' ''
      else if c = SQ then Some [SQ]
      else if c = DQ then Some [DQ]
      else if c = CHR ''S'' then Some '';''
      else if c = CHR ''t'' then Some [TAB]
      else if c = CHR ''l'' then Some (delimiter s)
      else None)"

text \<open>What is appended for the character \<open>c\<close> after a backslash, with the text behind it.\<close>

definition prompt_item :: "'w env \<Rightarrow> char \<Rightarrow> cstring \<Rightarrow> 'w session \<Rightarrow> (string \<times> 'w session) option" where
  "prompt_item env c rest s =
     (if c = CHR ''c'' then
        (let n = (prompt_counter s + 1) mod 4294967296 in Some (add_int_to_prompt n, s\<lparr>prompt_counter := n\<rparr>))
      else if c = CHR ''v'' then Some (if connected s then e_server_info env (world s) else ''not_connected'', s)
      else if c = CHR ''d'' then Some (case current_db s of None \<Rightarrow> ''(none)'' | Some db \<Rightarrow> db, s)
      else if c = CHR ''N'' then Some (if connected s then e_server_name env (world s) else ''unknown'', s)
      else if c = CHR ''h'' \<or> c = CHR ''H'' then Some (prompt_host env c s, s)
      else if c = CHR ''p'' then Some (prompt_port env s, s)
      else if c = CHR ''U'' then do { s \<leftarrow> known_username env s; Some (username_text (full_username s) s, s) }
      else if c = CHR ''u'' then do { s \<leftarrow> known_username env s; Some (username_text (part_username s) s, s) }
      else if c = CHR ''T'' then
        do { name \<leftarrow> name_or_none (fst (get_tenant_clust_name (current_user s) (Some 256) None)); Some (name, s) }
      else if c = CHR ''C'' then
        do { name \<leftarrow> name_or_none (snd (get_tenant_clust_name (current_user s) None (Some 256))); Some (name, s) }
      else case prompt_const s c of
             Some t \<Rightarrow> Some (t, s)
           | None \<Rightarrow>
               (case prompt_time (e_localtime env (world s)) (e_ctime env (world s)) c of
                  Some t \<Rightarrow> Some (t, s)
                | None \<Rightarrow> Some (c # rest, s)))"

fun prompt_loop :: "'w env \<Rightarrow> cstring \<Rightarrow> 'w session \<Rightarrow> (string \<times> 'w session) option" where
  "prompt_loop env [] s = Some ([], s)"
| "prompt_loop env (c # p) s =
     (if c \<noteq> BSL then do { (t, s) \<leftarrow> prompt_loop env p s; Some (c # t, s) }
      else case p of
             [] \<Rightarrow> Some ([], s)
           | d # q \<Rightarrow>
               do { (t, s) \<leftarrow> prompt_item env d q s;
                    (u, s) \<leftarrow> prompt_loop env q s;
                    Some (t @ u, s) })"

definition construct_prompt :: "'w env \<Rightarrow> 'w session \<Rightarrow> (cstring \<times> 'w session) option" where
  "construct_prompt env s = prompt_loop env (current_prompt s) s"

definition com_prompt :: "cstring \<Rightarrow> 'w session \<Rightarrow> int \<times> 'w session" where
  "com_prompt line s =
     (case strchr line CHR '' '' of
        None \<Rightarrow>
          (0, shown (tee_fprintf STDOUT (''Returning to default PROMPT of '' @ default_prompt s @ [NL]))
                (s\<lparr>prompt_counter := 0, current_prompt := default_prompt s\<rparr>))
      | Some p \<Rightarrow>
          (0, shown (tee_fprintf STDOUT (''PROMPT set to '' @ [SQ] @ drop 1 p @ [SQ, NL]))
                (s\<lparr>prompt_counter := 0, current_prompt := drop 1 p\<rparr>)))"

section \<open>Properties\<close>

text \<open>A text written so that the prompt shows it: every backslash is doubled.\<close>

definition quote_prompt :: "cstring \<Rightarrow> cstring" where
  "quote_prompt t = concat (map (\<lambda>c. if c = BSL then [BSL, BSL] else [c]) t)"

lemma prompt_item_BSL: "prompt_item env BSL q s = Some ([BSL], s)"
  by (simp add: prompt_item_def prompt_const_def)

lemma prompt_loop_quoted:
  "prompt_loop env (quote_prompt t @ p) s = map_option (\<lambda>(u, s). (t @ u, s)) (prompt_loop env p s)"
proof (induction t)
  case (Cons c t)
  then show ?case
    by (cases "prompt_loop env p s") (auto simp: quote_prompt_def prompt_item_BSL)
qed (cases "prompt_loop env p s"; auto simp: quote_prompt_def)

text \<open>
  C40: a prompt that is set by the command \<open>prompt\<close> with every backslash doubled is shown as the
  text that was meant, whatever other characters it has, and showing it changes nothing.
\<close>

theorem com_prompt_roundtrip:
  "construct_prompt env (snd (com_prompt (''prompt '' @ quote_prompt t) s))
   = Some (t, snd (com_prompt (''prompt '' @ quote_prompt t) s))"
  using prompt_loop_quoted [of env t "[]"] by (simp add: com_prompt_def construct_prompt_def shown_def)

text \<open>
  The characters with a meaning after a backslash. After any other one the code appends the
  whole rest of the prompt, and then goes on with that rest.
\<close>

definition prompt_escapes :: string where
  "prompt_escapes = ''cvdNhHpUu'' @ [BSL] @ ''n _RrmyYDswPoO'' @ [SQ, DQ] @ ''StlTC''"

lemma prompt_unknown_escape:
  assumes "c \<notin> set prompt_escapes"
  shows "prompt_loop env (BSL # c # rest) s = map_option (\<lambda>(u, s). ((c # rest) @ u, s)) (prompt_loop env rest s)"
  using assms by (cases "prompt_loop env rest s") (auto simp: prompt_escapes_def prompt_item_def prompt_const_def prompt_time_def)

end
