(* ===== verification/MainLoop.thy ===== *)
theory MainLoop
  imports Query Prompt
begin

text \<open>
  The main loop \<^verbatim>\<open>read_and_execute\<close> of \<^verbatim>\<open>client/mysql.cc\<close>: it reads a line from the
  terminal or from a file and hands it to the Oracle commands, to the client's commands or
  to the scanner. \<open>exec\<close> runs a command.
\<close>

section \<open>Reading a line\<close>

text \<open>The local variables of the loop.\<close>

record reader =
  rd_in_string :: char
  rd_ml_comment :: bool
  rd_line_number :: nat

text \<open>The line as it was read, \<open>stop\<close> when the loop is left with a message.\<close>

definition nul_message :: "string \<Rightarrow> string \<Rightarrow> cstring" where
  "nul_message buffer line =
     ''ASCII '' @ [SQ, BSL] @ ''0'' @ [SQ] @ '' appeared in the statement, but this is not ''
     @ ''allowed unless option --binary-mode is enabled and mysql is ''
     @ ''run in non-interactive mode. Set --binary-mode to 1 if ASCII ''
     @ [SQ, BSL] @ ''0'' @ [SQ] @ '' is expected. Query: '' @ [SQ]
     @ buffer @ cstr line @ [SQ] @ ''.''"

definition strip_bom :: "nat \<Rightarrow> string \<Rightarrow> string" where
  "strip_bom line_number line =
     (if line_number = 0 \<and> ch_at line 0 = CHR 0xEF \<and> ch_at line 1 = CHR 0xBB \<and> ch_at line 2 = CHR 0xBF
      then drop 3 line else line)"

definition batch_line ::
  "'w env \<Rightarrow> reader \<Rightarrow> 'w session \<Rightarrow> (bool \<times> string option \<times> reader \<times> 'w session) option" where
  "batch_line env rd s =
     do { (lb, fd) \<leftarrow> line_buff s;
          (line, lb, w) \<leftarrow> batch_readline (e_read env fd) (e_malloc env) (real_binary_mode s) lb (world s);
          let s = sync env (s\<lparr>line_buff := Some (lb, fd)\<rparr>) w;
          case line of
            Some l \<Rightarrow>
              if \<not> real_binary_mode s \<and> length (cstr l) \<noteq> length l then
                Some (True, None, rd,
                  snd (say (cstr (nul_message (glob_buffer s) l)) INFO_ERROR (s\<lparr>exit_status := 1\<rparr>)))
              else
                let l = strip_bom (rd_line_number rd) l;
                    n = rd_line_number rd + 1
                in Some (False, Some l, rd\<lparr>rd_line_number := n\<rparr>,
                     if glob_buffer s = [] then s\<lparr>info := (info s)\<lparr>s_query_start_line := n\<rparr>\<rparr> else s)
          | None \<Rightarrow>
              let n = rd_line_number rd + 1
              in Some (False, None, rd\<lparr>rd_line_number := n\<rparr>,
                   if glob_buffer s = [] then s\<lparr>info := (info s)\<lparr>s_query_start_line := n\<rparr>\<rparr> else s) }"

definition line_prompt :: "'w env \<Rightarrow> reader \<Rightarrow> 'w session \<Rightarrow> (cstring \<times> 'w session) option" where
  "line_prompt env rd s =
     (if rd_ml_comment rd then Some (''   /*> '', s)
      else if glob_buffer s = [] then construct_prompt env s
      else if rd_in_string rd = NUL then Some (''    -> '', s)
      else if rd_in_string rd = SQ then Some (''    '' @ [SQ] @ ''> '', s)
      else if rd_in_string rd = BQ then Some (''    '' @ [BQ] @ ''> '', s)
      else Some (''    '' @ [DQ] @ ''> '', s))"

definition terminal_line ::
  "'w env \<Rightarrow> reader \<Rightarrow> 'w session \<Rightarrow> (bool \<times> string option \<times> reader \<times> 'w session) option" where
  "terminal_line env rd s =
     do { (prompt, s) \<leftarrow> line_prompt env rd s;
          let s = shown (tee_outfile prompt) s;
          case call env (e_readline env prompt) s of (line, s) \<Rightarrow>
            Some (False, line, rd, case line of None \<Rightarrow> s | Some l \<Rightarrow> shown (tee_outfile (l @ [NL])) s) }"

section \<open>A line\<close>

text \<open>A blank line ends a statement when the setting says so.\<close>

definition ends_statement :: "string \<Rightarrow> 'w session \<Rightarrow> bool" where
  "ends_statement line s \<longleftrightarrow>
     mysql_oracle_mode s \<and> \<not> is_sqlblanklines_oracle s \<and> glob_buffer s \<noteq> [] \<and>
     dropWhile (my_isspace (charset_info s)) (cstr line) = [] \<and>
     \<not> is_oracle_pl_escape_sql (pl_escape_sql_re s) (cstr (glob_buffer s)) (int (length (glob_buffer s)))"

definition scan_line :: "'w cmd \<Rightarrow> string \<Rightarrow> reader \<Rightarrow> 'w session \<Rightarrow> (bool \<times> reader \<times> 'w session) option" where
  "scan_line exec line rd s =
     do { (stop, l, s) \<leftarrow> add_line exec line (rd_in_string rd) (rd_ml_comment rd)
                             (case line_buff s of None \<Rightarrow> False | Some (lb, fd) \<Rightarrow> truncated lb) s;
          Some (stop, rd\<lparr>rd_in_string := in_string l, rd_ml_comment := ml_comment l\<rparr>, s) }"

text \<open>A command of the client that stands at the start of a line.\<close>

definition client_command ::
  "'w cmd \<Rightarrow> bool \<Rightarrow> string \<Rightarrow> nat \<times> cstring option \<Rightarrow> reader \<Rightarrow> 'w session \<Rightarrow> (bool \<times> reader \<times> 'w session) option" where
  "client_command exec interactive line com rd s =
     do { (ret, s) \<leftarrow> (case com of
                          (i, None) \<Rightarrow> Some (0, s)
                        | (i, Some cmdstr) \<Rightarrow>
                            do { f \<leftarrow> c_func (commands ! i); exec f GLOB (Some cmdstr) s });
          if ret > 0 then Some (True, rd, s)
          else
            Some (False,
              if glob_buffer s = [] then rd\<lparr>rd_in_string := NUL\<rparr> else rd,
              if interactive \<and> add_to_history s \<and> not_in_history (cstr line) s
              then s\<lparr>history := history s @ [cstr line]\<rparr> else s) }"

definition take_line ::
  "'w cmd \<Rightarrow> bool \<Rightarrow> string \<Rightarrow> reader \<Rightarrow> 'w session \<Rightarrow> (bool \<times> reader \<times> 'w session) option" where
  "take_line exec interactive line rd s =
     (if named_cmds s \<or> glob_buffer s = [] then
        if \<not> rd_ml_comment rd \<and> rd_in_string rd = NUL then
          (case find_command (cstr line) s of
             Some com \<Rightarrow> client_command exec interactive line com rd s
           | None \<Rightarrow> scan_line exec line rd s)
        else scan_line exec line rd s
      else scan_line exec line rd s)"

definition one_line ::
  "'w cmd \<Rightarrow> bool \<Rightarrow> string \<Rightarrow> reader \<Rightarrow> 'w session \<Rightarrow> (bool \<times> reader \<times> 'w session) option" where
  "one_line exec interactive line rd s =
     (if ends_statement line s then Some (False, rd, s\<lparr>glob_buffer := []\<rparr>)
      else if last_session_mode s \<and> \<not> rd_ml_comment rd \<and> rd_in_string rd = NUL \<and> \<not> is_pl_escape_sql s then
        do { (state, s) \<leftarrow> run_oracle_command exec (cstr line) s;
             case state of
               CMD_STATE_RUNED \<Rightarrow> Some (False, rd, s)
             | CMD_STATE_ERROR \<Rightarrow> Some (True, rd, s)
             | CMD_STATE_UNKNOW \<Rightarrow> take_line exec interactive line rd s }
      else take_line exec interactive line rd s)"

section \<open>The loop\<close>

definition end_of_input :: "'w session \<Rightarrow> 'w session" where
  "end_of_input s =
     s\<lparr>exit_status := (case line_buff s of Some (lb, fd) \<Rightarrow> if lb_error lb then 1 else 0 | None \<Rightarrow> 0)\<rparr>"

partial_function (option) main_loop ::
  "'w env \<Rightarrow> 'w cmd \<Rightarrow> bool \<Rightarrow> reader \<Rightarrow> 'w session \<Rightarrow> 'w session option" where
  "main_loop env exec interactive rd s =
     (if aborted s then Some s
      else
        do { (stop, line, rd, s) \<leftarrow> (if interactive then terminal_line env rd s else batch_line env rd s);
             if stop then Some s
             else case line of
                    None \<Rightarrow> Some (end_of_input s)
                  | Some l \<Rightarrow>
                      do { (stop, rd, s) \<leftarrow> one_line exec interactive l rd s;
                           if stop then Some s else main_loop env exec interactive rd s } })"

declare main_loop.simps [code]

text \<open>The statement at the end of a file needs no delimiter.\<close>

definition last_statement :: "'w cmd \<Rightarrow> 'w session \<Rightarrow> 'w session option" where
  "last_statement exec s =
     (let s = s\<lparr>glob_buffer := remove_cntrl (charset_info s) (glob_buffer s)\<rparr> in
      if glob_buffer s = [] then Some s
      else do { (ret, s) \<leftarrow> exec Com_go GLOB None (s\<lparr>exit_status := 1\<rparr>);
                Some (if ret \<le> 0 then s\<lparr>exit_status := 0\<rparr> else s) })"

definition read_and_execute :: "'w env \<Rightarrow> 'w cmd \<Rightarrow> bool \<Rightarrow> 'w session \<Rightarrow> (int \<times> 'w session) option" where
  "read_and_execute env exec interactive s =
     do { s \<leftarrow> main_loop env exec interactive \<lparr>rd_in_string = NUL, rd_ml_comment = False, rd_line_number = 0\<rparr>
               (s\<lparr>exit_status := 1, real_binary_mode := \<not> interactive \<and> opt_binary_mode s\<rparr>);
          s \<leftarrow> (if \<not> interactive \<and> exit_status s = 0 then last_statement exec s else Some s);
          Some (exit_status s, s\<lparr>real_binary_mode := False\<rparr>) }"

end
