(* ===== verification/Handlers.thy ===== *)
theory Handlers
  imports MainLoop
begin

text \<open>
  The other command handlers of \<^verbatim>\<open>client/mysql.cc\<close>, the table that calls them, and what
  \<^verbatim>\<open>main\<close> does once the options are read. A command can run a file of commands, so
  the handlers are indexed by the depth to which files may be nested; the outcome \<open>None\<close> at
  depth 0 stands for a stack that is used up.
\<close>

section \<open>Help\<close>

text \<open>A message whose error number is not 0.\<close>

definition say_error :: "cstring \<Rightarrow> nat \<Rightarrow> bool \<Rightarrow> 'w session \<Rightarrow> int \<times> 'w session" where
  "say_error str error oracle s =
     (case put_info (info s) str INFO_ERROR error None oracle (screen s) of (r, c) \<Rightarrow> (r, s\<lparr>screen := c\<rparr>))"

text \<open>\<open>strxnmov\<close> to an array of 101 bytes: it ends the text behind the 101 bytes it may copy.\<close>

definition help_command :: "charset_info \<Rightarrow> cstring \<Rightarrow> cstring option" where
  "help_command cs help_arg =
     (let t = (if hd help_arg \<noteq> SQ
               then ''help '' @ [SQ] @ rev (dropWhile (my_isspace cs) (rev help_arg)) @ [SQ]
               else ''help '' @ help_arg)
      in if length t \<ge> 101 then None else Some t)"

definition print_help_item :: "nat \<Rightarrow> nat \<Rightarrow> cell list \<Rightarrow> char \<times> 'w session \<Rightarrow> (char \<times> 'w session) option" where
  "print_help_item num_name num_cat cur st =
     (case st of (shown_cat, s) \<Rightarrow>
        do { cat \<leftarrow> cur ! num_cat;
             let cat_char = ch_at cat 0;
             let s = (if shown_cat \<noteq> cat_char
                      then note_info (if cat_char = CHR ''Y'' then ''categories:'' else ''topics:'') INFO_INFO s else s);
             s \<leftarrow> printed (tee (''   '' @ null_text (cur ! num_name) @ [NL])) s;
             Some (cat_char, s) })"

fun print_help_items ::
  "nat \<Rightarrow> nat \<Rightarrow> cell list list \<Rightarrow> char \<times> 'w session \<Rightarrow> 'w session option" where
  "print_help_items num_name num_cat [] st = Some (snd st)"
| "print_help_items num_name num_cat (cur # rest) st =
     do { st \<leftarrow> print_help_item num_name num_cat cur st; print_help_items num_name num_cat rest st }"

definition help_topic :: "cell list \<Rightarrow> act" where
  "help_topic cur =
     acts ([tee (''Name: '' @ [SQ] @ null_text (cur ! 0) @ [SQ, NL]),
            tee (''Description:'' @ [NL] @ null_text (cur ! 1))]
       @ (case cur ! 2 of
            Some t \<Rightarrow> if cstr t \<noteq> [] then [tee (''Examples:'' @ [NL] @ cstr t)] else []
          | None \<Rightarrow> [])
       @ [tee [NL]])"

definition help_list :: "'w env \<Rightarrow> mysql_res \<Rightarrow> 'w session \<Rightarrow> 'w session option" where
  "help_list env res s =
     (let s = init_pager env s in
      if length (r_fields res) = 2 then
        let s = note_info ''Many help items for your request exist.'' INFO_INFO s;
            s = note_info (''To make a more specific request, please type '' @ [SQ] @ ''help <item>'' @ [SQ] @ '',''
                  @ [NL] @ ''where <item> is one of the following'') INFO_INFO s
        in do { s \<leftarrow> print_help_items 0 1 (r_rows res) (NUL, s); printed (tee [NL]) s }
      else
        do { s \<leftarrow> printed (tee (''You asked for help about help category: '' @ [DQ]
                              @ null_text (hd (r_rows res) ! 0) @ [DQ, NL])) s;
             let s = note_info (''For more information, type '' @ [SQ] @ ''help <item>'' @ [SQ]
                       @ '', where <item> is one of the following'') INFO_INFO s;
             s \<leftarrow> print_help_items 1 2 (r_rows res) (NUL, s);
             printed (tee [NL]) s })"

definition help_nothing :: "cstring \<Rightarrow> 'w session \<Rightarrow> 'w session" where
  "help_nothing server_cmd s =
     (let s = note_info ([NL] @ ''Nothing found'') INFO_INFO s in
      if strncaseeq server_cmd (''help '' @ [SQ] @ ''contents'' @ [SQ]) 15 then
        note_info ([NL] @ ''Please check if '' @ [SQ] @ ''help tables'' @ [SQ] @ '' are loaded.'' @ [NL]) INFO_INFO s
      else
        note_info (''Please try to run '' @ [SQ] @ ''help contents'' @ [SQ]
          @ '' for a list of all accessible topics'' @ [NL]) INFO_INFO s)"

definition com_server_help ::
  "'w env \<Rightarrow> 'w cmd \<Rightarrow> bufref \<Rightarrow> cstring \<Rightarrow> 'w session \<Rightarrow> (int \<times> 'w session) option" where
  "com_server_help env exec r help_arg s =
     do { server_cmd \<leftarrow> help_command (charset_info s) help_arg;
          let s = (if batch s then s else s\<lparr>old_buffer := get_buffer r s\<rparr>);
          (failed, s) \<leftarrow> (if connected s then Some (0, s) else reconnect env exec s);
          if failed \<noteq> 0 then Some (1, s)
          else
            do { (error, s) \<leftarrow> mysql_real_query_for_lazy env exec server_cmd s;
                 if error \<noteq> 0 then Some (error, s)
                 else
                   case mysql_store_result_for_lazy env s of
                     (error, None, s) \<Rightarrow> Some (error, s)
                   | (error, Some res, s) \<Rightarrow>
                       if length (r_fields res) = 3 \<and> length (r_rows res) = 1 then
                         (let s = init_pager env s
                          in do { s \<leftarrow> printed (help_topic (hd (r_rows res))) s; Some (0, s) })
                       else if length (r_fields res) \<ge> 2 \<and> r_rows res \<noteq> [] then
                         do { s \<leftarrow> help_list env res s; Some (0, s) }
                       else Some (0, help_nothing server_cmd s) } }"

definition command_help :: "COMMANDS \<Rightarrow> string" where
  "command_help c = pad_right 10 (c_name c) @ ''('' @ [BSL, cmd_char c] @ '') '' @ c_doc c @ [NL]"

definition list_commands :: "'w session \<Rightarrow> 'w session" where
  "list_commands s =
     fold (\<lambda>c. shown (tee_fprintf STDOUT (command_help c)))
       (filter (\<lambda>c. is_command_valid (disabled_commands s) (c_name c) \<and> c_func c \<noteq> None) commands) s"

definition com_help ::
  "'w env \<Rightarrow> 'w cmd \<Rightarrow> bufref \<Rightarrow> cstring \<Rightarrow> 'w session \<Rightarrow> (int \<times> 'w session) option" where
  "com_help env exec r line s =
     (let help_arg = dropWhile (my_isspace (charset_info s)) (opt_text (strchr line CHR '' '')) in
      if help_arg \<noteq> [] then com_server_help env exec r help_arg s
      else
        let s = note_info ([NL] @ ''General information about OceanBase can be found at'' @ [NL]
                  @ ''https://www.oceanbase.com'' @ [NL]) INFO_INFO s;
            s = note_info ''List of all client commands:'' INFO_INFO s;
            s = (if named_cmds s then s
                 else note_info (''Note that all text commands must be first on line and end with '' @ [SQ] @ '';'' @ [SQ])
                        INFO_INFO s);
            s = list_commands s
        in Some (0,
             if connected s \<and> e_server_version env (world s) \<ge> 40100
             then note_info ([NL] @ ''For server side help, type '' @ [SQ] @ ''help contents'' @ [SQ, NL]) INFO_INFO s
             else s))"

section \<open>Settings\<close>

definition com_clear :: "bufref \<Rightarrow> 'w session \<Rightarrow> int \<times> 'w session" where
  "com_clear r s =
     (0, set_buffer r [] (if add_to_history s then fix_history (get_buffer r s) s else s))"

definition com_charset :: "'w env \<Rightarrow> cstring \<Rightarrow> 'w session \<Rightarrow> int \<times> 'w session" where
  "com_charset env line s =
     (case get_arg (charset_info s) (strmake line 255 @ [NUL]) 0 GET of (p, a) \<Rightarrow>
        let param = arg_text p a in
        if param = [] then say (''Usage: '' @ [BSL] @ ''C charset_name | charset charset_name'') INFO_ERROR s
        else case e_get_charset env param of
               Some (new_cs, csname) \<Rightarrow>
                 let s = s\<lparr>charset_info := new_cs\<rparr>;
                     s = sync env s (e_set_character_set env csname (world s))
                 in (0, note_info ''Charset changed'' INFO_INFO (s\<lparr>default_charset := csname\<rparr>))
             | None \<Rightarrow> (0, note_info ''Charset is not found'' INFO_INFO s))"

definition com_delimiter :: "cstring \<Rightarrow> 'w session \<Rightarrow> int \<times> 'w session" where
  "com_delimiter line s =
     (case get_arg (charset_info s) (strmake line 255 @ [NUL]) 0 GET of (p, a) \<Rightarrow>
        let tmp = arg_text p a in
        if tmp = [] then
          (0, note_info (''DELIMITER must be followed by a '' @ [SQ] @ ''delimiter'' @ [SQ] @ '' character or string'')
                INFO_ERROR s)
        else if strstr tmp [BSL] \<noteq> None then
          (0, note_info ''DELIMITER cannot contain a backslash character'' INFO_ERROR s)
        else
          let d = strmake tmp 15
          in (0, s\<lparr>delimiter := d, is_user_specify_delimiter := (d \<noteq> '';'')\<rparr>))"

definition com_warnings :: "'w session \<Rightarrow> int \<times> 'w session" where
  "com_warnings s = (0, note_info ''Show warnings enabled.'' INFO_INFO (s\<lparr>show_warnings := True\<rparr>))"

definition com_nowarnings :: "'w session \<Rightarrow> int \<times> 'w session" where
  "com_nowarnings s = (0, note_info ''Show warnings disabled.'' INFO_INFO (s\<lparr>show_warnings := False\<rparr>))"

definition com_quit :: "'w session \<Rightarrow> int \<times> 'w session" where
  "com_quit s = (1, s\<lparr>exit_status := 0\<rparr>)"

section \<open>Files and programs\<close>

text \<open>The name of a file: at most 511 characters, without blanks and control characters at the end.\<close>

definition file_arg :: "charset_info \<Rightarrow> cstring \<Rightarrow> cstring" where
  "file_arg cs param =
     rev (dropWhile (\<lambda>c. my_isspace cs c \<or> my_iscntrl cs c)
       (rev (strmake (dropWhile (my_isspace cs) param) 511)))"

definition to_stdout :: "string \<Rightarrow> 'w session \<Rightarrow> 'w session" where
  "to_stdout t s = shown (put STDOUT t) s"

definition com_tee :: "'w env \<Rightarrow> cstring \<Rightarrow> 'w session \<Rightarrow> int \<times> 'w session" where
  "com_tee env line s =
     (let open_tee = (\<lambda>param.
            let file_name = file_arg (charset_info s) param
            in if file_name = [] then (0, to_stdout (''No outfile specified!'' @ [NL]) s)
               else (0, init_tee env file_name s))
      in case strchr (dropWhile (my_isspace (charset_info s)) line) CHR '' '' of
           Some param \<Rightarrow> open_tee param
         | None \<Rightarrow>
             if outfile s = [] then
               (0, to_stdout (''No previous outfile available, you must give a filename!'' @ [NL]) s)
             else if opt_outfile (screen s) then
               (0, shown (tee_fprintf STDOUT (''Currently logging to file '' @ [SQ] @ outfile s @ [SQ, NL])) s)
             else open_tee (outfile s))"

definition com_notee :: "'w session \<Rightarrow> int \<times> 'w session" where
  "com_notee s =
     (0, shown (tee_fprintf STDOUT (''Outfile disabled.'' @ [NL])) (if opt_outfile (screen s) then end_tee s else s))"

definition pager_to_stdout :: "string \<Rightarrow> 'w session \<Rightarrow> 'w session" where
  "pager_to_stdout t s =
     (let s = s\<lparr>opt_nopager := True, pager := ''stdout'', screen := (screen s)\<lparr>PAGER := STDOUT\<rparr>\<rparr>
      in shown (tee_fprintf STDOUT t) s)"

definition set_pager :: "cstring \<Rightarrow> 'w session \<Rightarrow> 'w session" where
  "set_pager p s =
     shown (tee_fprintf STDOUT (''PAGER set to '' @ [SQ] @ p @ [SQ, NL])) (s\<lparr>pager := p, opt_nopager := False\<rparr>)"

definition com_pager :: "cstring \<Rightarrow> 'w session \<Rightarrow> int \<times> 'w session" where
  "com_pager line s =
     (if batch s then (0, s)
      else
        let cs = charset_info s;
            param = dropWhile (my_isspace cs) (opt_text (strchr (dropWhile (my_isspace cs) line) CHR '' ''))
        in if param = [] then
             (0, if \<not> default_pager_set s
                 then pager_to_stdout (''Default pager wasn'' @ [SQ] @ ''t set, using stdout.'' @ [NL]) s
                 else set_pager (default_pager s) s)
           else
             let pager_name = file_arg cs param
             in (0, set_pager pager_name (s\<lparr>default_pager := pager_name\<rparr>)))"

definition com_nopager :: "'w session \<Rightarrow> int \<times> 'w session" where
  "com_nopager s = (0, pager_to_stdout (''PAGER set to stdout'' @ [NL]) s)"

text \<open>The command line of the editor is written to an array of 160 bytes.\<close>

definition com_edit :: "'w env \<Rightarrow> bufref \<Rightarrow> 'w session \<Rightarrow> (int \<times> 'w session) option" where
  "com_edit env r s =
     (case call env (e_create_temp_file env) s of
        (None, s) \<Rightarrow> Some (0, s)
      | (Some filename, s) \<Rightarrow>
          let text = (if get_buffer r s = [] then old_buffer s else get_buffer r s);
              s = sync env s (e_write_file env filename text (world s));
              editor = (case e_getenv env ''EDITOR'' of
                          Some e \<Rightarrow> e
                        | None \<Rightarrow> (case e_getenv env ''VISUAL'' of Some e \<Rightarrow> e | None \<Rightarrow> ''vi''));
              buff = editor @ '' '' @ filename
          in if length buff \<ge> 160 then None
             else case call env (e_system env buff) s of (error, s) \<Rightarrow>
               if error \<noteq> 0 then
                 Some (0, note_info (''Command '' @ [SQ] @ take 40 buff @ [SQ] @ '' failed'') INFO_ERROR s)
               else case call env (e_read_file env filename) s of
                 (None, s) \<Rightarrow> Some (0, s)
               | (Some contents, s) \<Rightarrow>
                   Some (0, sync env (set_buffer r (case contents of None \<Rightarrow> [] | Some t \<Rightarrow> t) s)
                              (e_delete_file env filename (world s))))"

definition com_shell :: "'w env \<Rightarrow> cstring \<Rightarrow> 'w session \<Rightarrow> int \<times> 'w session" where
  "com_shell env line s =
     (case strchr (dropWhile (my_isspace (charset_info s)) line) CHR '' '' of
        None \<Rightarrow> (-1, note_info (''Usage: '' @ [BSL] @ ''! shell-command'') INFO_ERROR s)
      | Some shell_cmd \<Rightarrow>
          (case call env (e_system env shell_cmd) s of (ret, s) \<Rightarrow>
             if ret = -1 then
               (case e_sys_error env (world s) of (msg, errno) \<Rightarrow> (-1, snd (say_error msg errno False s)))
             else (0, s)))"

text \<open>
  \<open>com_source\<close> runs a file with the fields of \<open>STATUS\<close> reset, and puts the old ones back.
\<close>

definition source_status :: "line_buffer \<Rightarrow> nat \<Rightarrow> cstring \<Rightarrow> 'w session \<Rightarrow> 'w session" where
  "source_status lb fd source_name s =
     s\<lparr>exit_status := 0, line_buff := Some (lb, fd), add_to_history := False, glob_buffer := [],
       conf := (conf s)\<lparr>in_com_source := True\<rparr>,
       info := (info s)\<lparr>s_query_start_line := 0, s_file_name := Some source_name,
                         s_ignore_errors := \<not> batch_abort_on_error s\<rparr>\<rparr>"

definition restore_status :: "'w session \<Rightarrow> 'w session \<Rightarrow> 'w session" where
  "restore_status old s =
     s\<lparr>exit_status := exit_status old, line_buff := line_buff old, add_to_history := add_to_history old,
       aborted := False, conf := (conf s)\<lparr>in_com_source := False\<rparr>,
       info := (info s)\<lparr>s_batch := s_batch (info old), s_query_start_line := s_query_start_line (info old),
                         s_file_name := s_file_name (info old), s_ignore_errors := s_ignore_errors (info old)\<rparr>\<rparr>"

definition com_source :: "'w env \<Rightarrow> 'w cmd \<Rightarrow> cstring \<Rightarrow> 'w session \<Rightarrow> (int \<times> 'w session) option" where
  "com_source env exec line s =
     (case strchr (dropWhile (my_isspace (charset_info s)) line) CHR '' '' of
        None \<Rightarrow> Some (say (''Usage: '' @ [BSL] @ ''. <filename> | source <filename>'') INFO_ERROR s)
      | Some param \<Rightarrow>
          let source_name = e_unpack_filename env (file_arg (charset_info s) param) in
          case call env (e_fopen_read env source_name) s of
            (None, s) \<Rightarrow>
              Some (say (take 571 (''Failed to open file '' @ [SQ] @ source_name @ [SQ] @ '', error: ''
                           @ d32 (snd (e_sys_error env (world s))))) INFO_ERROR s)
          | (Some fd, s) \<Rightarrow>
              (case batch_readline_init 1073741824 (fst (e_fstat env fd (world s))) (snd (e_fstat env fd (world s))) of
                 None \<Rightarrow>
                   Some (say (''Can'' @ [SQ] @ ''t initialize batch_readline'') INFO_ERROR
                     (sync env s (e_fclose env fd (world s))))
               | Some lb \<Rightarrow>
                   do { (error, t) \<leftarrow> read_and_execute env exec False (source_status lb fd source_name s);
                        let t = restore_status s t;
                        let t = sync env t (e_fclose env fd (world t));
                        Some (if error \<noteq> 0 \<and> ignore_errors t then -1 else error, t) }))"

section \<open>The current database\<close>

text \<open>\<open>mysql_select_db\<close> with one reconnection; the first part is the return value if it fails.\<close>

definition select_database ::
  "'w env \<Rightarrow> 'w cmd \<Rightarrow> cstring \<Rightarrow> 'w session \<Rightarrow> (int option \<times> 'w session) option" where
  "select_database env exec db s =
     do { (failed, s) \<leftarrow> (if connected s then Some (0, s) else reconnect env exec s);
          if failed \<noteq> 0 then Some (Some (if opt_reconnect s then -1 else 1), s)
          else
            case call env (e_select_db env db) s of (error, s) \<Rightarrow>
              if error = 0 then Some (None, s)
              else if e_errno env (world s) \<noteq> 2006 then
                (case put_error env s of (e, s) \<Rightarrow> Some (Some e, s))
              else
                do { (failed, s) \<leftarrow> reconnect env exec s;
                     if failed \<noteq> 0 then Some (Some (if opt_reconnect s then -1 else 1), s)
                     else
                       case call env (e_select_db env db) s of (error, s) \<Rightarrow>
                         if error = 0 then Some (None, s)
                         else (case put_error env s of (e, s) \<Rightarrow> Some (Some e, s)) } }"

definition com_use :: "'w env \<Rightarrow> 'w cmd \<Rightarrow> cstring \<Rightarrow> 'w session \<Rightarrow> (int \<times> 'w session) option" where
  "com_use env exec line s =
     (if mysql_oracle_mode s then
        Some (say_error (take 512 (''unknown command '' @ [DQ] @ line @ [DQ] @ '' - rest of line ignored.'')) 42
                (mysql_oracle_mode s) s)
      else
        case get_arg (charset_info s) (strmake line 512 @ [NUL]) 0 GET of (p, a) \<Rightarrow>
          let tmp = arg_text p a in
          if tmp = [] then Some (0, note_info ''USE must be followed by a database name'' INFO_ERROR s)
          else
            let s = get_current_db env s;
                other = (current_db s \<noteq> Some tmp)
            in if other \<and> one_database s then
                 Some (0, note_info ''Database changed'' INFO_INFO (s\<lparr>skip_updates := True\<rparr>))
               else
                 do { (failed, s) \<leftarrow> select_database env exec tmp (if other then s else s\<lparr>skip_updates := False\<rparr>);
                      case failed of
                        Some e \<Rightarrow> Some (e, s)
                      | None \<Rightarrow>
                          let s = s\<lparr>current_db := Some tmp\<rparr>;
                              s = (if other then build_completion_hash env (opt_rehash s) True s else s)
                          in Some (0, note_info ''Database changed'' INFO_INFO s) })"

section \<open>Status\<close>

definition server_version_string :: "'w env \<Rightarrow> 'w session \<Rightarrow> cstring \<times> 'w session" where
  "server_version_string env s =
     (case server_version s of
        Some v \<Rightarrow> (v, s)
      | None \<Rightarrow>
          let sql = (if mysql_oracle_mode s then ''select @@version_comment from dual where rownum <= 1''
                     else ''select @@version_comment limit 1'');
              (comment, s) =
                (case call env (e_real_query env sql) s of (error, s) \<Rightarrow>
                   if error \<noteq> 0 then (None, s)
                   else case call env (e_use_result env) s of
                          (None, s) \<Rightarrow> (None, s)
                        | (Some res, s) \<Rightarrow>
                            (case r_rows res of (Some v # _) # _ \<Rightarrow> Some (cstr v) | _ \<Rightarrow> None, s));
              v = (case comment of Some v \<Rightarrow> v | None \<Rightarrow> e_server_info env (world s))
          in (v, s\<lparr>server_version := Some v\<rparr>))"

definition out_line :: "string \<Rightarrow> 'w session \<Rightarrow> 'w session" where
  "out_line t s = shown (tee_fprintf STDOUT (t @ [NL])) s"

definition cell_or_empty :: "cell \<Rightarrow> cstring" where
  "cell_or_empty c = cstr (cell_text c)"

definition status_user :: "'w env \<Rightarrow> 'w session \<Rightarrow> 'w session" where
  "status_user env s =
     (case mysql_store_result_for_lazy env s of (error, result, s) \<Rightarrow>
        if error \<noteq> 0 then s
        else case map_option r_rows result of
               Some (cur # _) \<Rightarrow>
                 out_line (''Current user:'' @ [TAB, TAB] @ null_text (cur ! 1))
                   (out_line (''Current database:'' @ [TAB] @ cell_or_empty (cur ! 0)) s)
             | _ \<Rightarrow> s)"

definition status_charsets :: "'w env \<Rightarrow> 'w session \<Rightarrow> 'w session" where
  "status_charsets env s =
     (case mysql_store_result_for_lazy env s of (error, result, s) \<Rightarrow>
        if error = 0 then
          (case map_option r_rows result of
             Some (cur # _) \<Rightarrow>
               fold (\<lambda>(label, i). out_line (label @ '' characterset:'' @ [TAB] @ cell_or_empty (cur ! i)))
                 [(''Server'', 2), (''Db    '', 3), (''Client'', 0), (''Conn. '', 1)] s
           | _ \<Rightarrow> s)
        else
          out_line (''Server characterset:'' @ [TAB] @ e_csname env (e_charset env (world s)))
            (out_line (''Client characterset:'' @ [TAB] @ e_csname env (charset_info s)) s))"

text \<open>\<open>str2int\<close> for values of at least 0, with the text behind the number.\<close>

definition str2int :: "cstring \<Rightarrow> (nat \<times> cstring) option" where
  "str2int src =
     (let t = dropWhile (my_isspace my_charset_latin1) src;
          neg = (ch_at t 0 = CHR ''-'');
          t = (if ch_at t 0 = CHR ''+'' \<or> neg then drop 1 t else t);
          zs = takeWhile (\<lambda>c. c = CHR ''0'') t;
          ds = take 20 (takeWhile is_digit (drop (length zs) t));
          n = digits_value 0 ds
      in if zs @ ds = [] \<or> n > 2 ^ 63 - 1 \<or> neg \<and> n \<noteq> 0 then None
         else Some (n, drop (length zs + length ds) t))"

definition status_uptime :: "'w env \<Rightarrow> 'w session \<Rightarrow> 'w session" where
  "status_uptime env s =
     (case call env (e_stat env) s of (status_str, s) \<Rightarrow>
        case status_str of
          None \<Rightarrow> s
        | Some str \<Rightarrow>
            if e_error env (world s) \<noteq> [] then s
            else case strchr str CHR '' '' of
                   None \<Rightarrow> s
                 | Some p \<Rightarrow>
                     let s = shown (tee_fprintf STDOUT (take (length str - length p) str @ [TAB, TAB, TAB])) s
                     in case str2int p of
                          None \<Rightarrow> s
                        | Some (sec, rest) \<Rightarrow>
                            let s = shown (tee_puts (e_nice_time env sec) STDOUT) s;
                                s = shown (tee_putc NL STDOUT) s
                            in shown (tee_puts (dropWhile (\<lambda>c. c = CHR '' '') rest) STDOUT) s)"

definition safe_mode_text :: "'w env \<Rightarrow> string" where
  "safe_mode_text env =
     ''UPDATEs and DELETEs that don'' @ [SQ] @ ''t use a key in the WHERE clause are not allowed.'' @ [NL]
     @ ''(One can force an UPDATE/DELETE by adding LIMIT # at the end of the command.)'' @ [NL]
     @ ''SELECT has an automatic '' @ [SQ] @ ''LIMIT '' @ dec_str (e_select_limit env) @ [SQ]
     @ '' if LIMIT is not used.'' @ [NL]
     @ ''Max number of examined row combination in a join is set to: '' @ dec_str (e_max_join_size env) @ [NL, NL]"

definition status_head :: "'w env \<Rightarrow> 'w session \<Rightarrow> 'w session" where
  "status_head env s =
     (let s = shown (tee_puts ''--------------'' STDOUT) s;
          s = to_stdout (e_version_text env) s;
          s = out_line ([NL] @ ''Connection id:'' @ [TAB, TAB] @ dec_str (e_thread_id env (world s))) s;
          s = status_user env s;
          s = (case e_ssl_cipher env (world s) of
                 Some c \<Rightarrow> out_line (''SSL:'' @ [TAB, TAB, TAB] @ ''Cipher in use is '' @ c) s
               | None \<Rightarrow> shown (tee_puts (''SSL:'' @ [TAB, TAB, TAB] @ ''Not in use'') STDOUT) s)
      in if skip_updates s then out_line ([NL] @ ''All updates ignored to this database'') s else s)"

definition status_settings :: "'w env \<Rightarrow> 'w session \<Rightarrow> 'w session" where
  "status_settings env s =
     (let s = out_line (''Current pager:'' @ [TAB, TAB] @ pager s) s;
          s = out_line (''Using outfile:'' @ [TAB, TAB, SQ] @ (if opt_outfile (screen s) then outfile s else []) @ [SQ]) s;
          s = out_line (''Using delimiter:'' @ [TAB] @ delimiter s) s;
          (version, s) = (if e_is_proxymode env then ([], s) else server_version_string env s);
          s = out_line (''Server version:'' @ [TAB, TAB] @ version) s;
          s = out_line (''Protocol version:'' @ [TAB] @ d32 (e_proto_info env (world s))) s;
          s = out_line (''Connection:'' @ [TAB, TAB] @ e_host_info env (world s)) s
      in if e_insert_id env (world s) \<noteq> 0 then out_line (''Insert id:'' @ [TAB, TAB] @ ld (e_insert_id env (world s))) s
         else s)"

definition status_tail :: "'w env \<Rightarrow> 'w session \<Rightarrow> 'w session" where
  "status_tail env s =
     (let s = (case e_unix_socket env (world s) of
                 Some socket \<Rightarrow>
                   if strstr (e_host_info env (world s)) ''TCP/IP'' \<noteq> None
                   then out_line (''TCP port:'' @ [TAB, TAB] @ d32 (e_port env (world s))) s
                   else out_line (''UNIX socket:'' @ [TAB, TAB] @ socket) s
               | None \<Rightarrow> out_line (''TCP port:'' @ [TAB, TAB] @ d32 (e_port env (world s))) s);
          s = (if e_compress env (world s) then out_line (''Protocol:'' @ [TAB, TAB] @ ''Compressed'') s else s);
          s = status_uptime env s;
          s = (if e_safe_updates env
               then shown (tee_fprintf STDOUT (safe_mode_text env))
                      (out_line ([NL] @ ''Note that you are running in safe_update_mode:'') s)
               else s)
      in shown (tee_puts (''--------------'' @ [NL]) STDOUT) s)"

definition com_status :: "'w env \<Rightarrow> 'w cmd \<Rightarrow> 'w session \<Rightarrow> (int \<times> 'w session) option" where
  "com_status env exec s =
     (let sql = (if mysql_oracle_mode s
                 then ''select sys_context('' @ [SQ] @ ''USERENV'' @ [SQ] @ '','' @ [SQ] @ ''CURRENT_SCHEMA'' @ [SQ]
                      @ ''), sys_context('' @ [SQ] @ ''USERENV'' @ [SQ] @ '','' @ [SQ] @ ''CURRENT_USER'' @ [SQ]
                      @ '') from dual where rownum <= 1''
                 else ''select DATABASE(), USER() limit 1'')
      in do { (failed, s) \<leftarrow> mysql_real_query_for_lazy env exec sql s;
              if failed \<noteq> 0 then Some (0, s)
              else
                do { let s = status_settings env (status_head env s);
                     let sql = ''select @@character_set_client, @@character_set_connection, ''
                               @ ''@@character_set_server, @@character_set_database ''
                               @ (if mysql_oracle_mode s then ''from dual where rownum <= 1'' else ''limit 1'');
                     (failed, s) \<leftarrow> mysql_real_query_for_lazy env exec sql s;
                     if failed \<noteq> 0 \<and> e_errno env (world s) = 2006 then Some (0, s)
                     else Some (0, status_tail env (status_charsets env s)) } })"

section \<open>The handlers\<close>

definition run_command :: "'w env \<Rightarrow> 'w cmd \<Rightarrow> 'w cmd" where
  "run_command env exec f r line s =
     (case f of
        Com_go \<Rightarrow> com_go env exec r s
      | Com_ego \<Rightarrow> com_ego env exec r s
      | Com_print \<Rightarrow> Some (com_print r s)
      | Com_clear \<Rightarrow> Some (com_clear r s)
      | Com_edit \<Rightarrow> com_edit env r s
      | Com_connect \<Rightarrow> com_connect env exec (Some r) line s
      | Com_status \<Rightarrow> com_status env exec s
      | Com_rehash \<Rightarrow> Some (com_rehash env s)
      | Com_quit \<Rightarrow> Some (com_quit s)
      | Com_notee \<Rightarrow> Some (com_notee s)
      | Com_nopager \<Rightarrow> Some (com_nopager s)
      | Com_warnings \<Rightarrow> Some (com_warnings s)
      | Com_nowarnings \<Rightarrow> Some (com_nowarnings s)
      | Com_pager \<Rightarrow> (if batch s then Some (0, s) else map_option (\<lambda>line. com_pager line s) line)
      | Com_help \<Rightarrow> Option.bind line (\<lambda>line. com_help env exec r line s)
      | Com_use \<Rightarrow> Option.bind line (\<lambda>line. com_use env exec line s)
      | Com_source \<Rightarrow> Option.bind line (\<lambda>line. com_source env exec line s)
      | Com_delimiter \<Rightarrow> map_option (\<lambda>line. com_delimiter line s) line
      | Com_prompt \<Rightarrow> map_option (\<lambda>line. com_prompt line s) line
      | Com_shell \<Rightarrow> map_option (\<lambda>line. com_shell env line s) line
      | Com_tee \<Rightarrow> map_option (\<lambda>line. com_tee env line s) line
      | Com_charset \<Rightarrow> map_option (\<lambda>line. com_charset env line s) line)"

primrec handler :: "'w env \<Rightarrow> nat \<Rightarrow> 'w cmd" where
  "handler env 0 = (\<lambda>f r line s. None)"
| "handler env (Suc n) = run_command env (handler env n)"

section \<open>The program\<close>

definition mysql_end :: "'w env \<Rightarrow> int \<Rightarrow> 'w session \<Rightarrow> int \<times> 'w session" where
  "mysql_end env sig s =
     (let s = (if is_exitcommit_oracle s \<and> mysql_oracle_mode s then sync env s (e_commit env (world s)) else s);
          s = sync env s (e_close env (world s));
          s = (if sig \<ge> 0 then note_info (if sig \<noteq> 0 then ''Aborted'' else ''Bye'') INFO_RESULT s else s)
      in (exit_status s, s))"

definition welcome_user :: "'w env \<Rightarrow> 'w session \<Rightarrow> 'w session" where
  "welcome_user env s =
     (let s = note_info (''Welcome to the OceanBase.  Commands end with ; or '' @ [BSL] @ ''g.'') INFO_INFO s;
          (version, s) = (if e_is_proxymode env then ([], s) else server_version_string env s);
          s = note_info (take 519 (''Your OceanBase connection id is '' @ dec_str (e_thread_id env (world s)) @ [NL]
                @ ''Server version: '' @ version @ [NL])) INFO_INFO s
      in note_info (''Copyright (c) 2000, 2018, OceanBase and/or its affiliates. All rights reserved.'' @ [NL]) INFO_INFO s)"

definition login_warning :: "cstring \<Rightarrow> cstring" where
  "login_warning t =
     take 255 (''*************************************************'' @ [NL]
       @ ''  '' @ [CHR 0x1B] @ ''[0;31mWARNING:'' @ t @ [CHR 0x1B] @ ''[0m                    '' @ [NL]
       @ ''*************************************************'' @ [NL])"

definition client_main :: "'w env \<Rightarrow> 'w cmd \<Rightarrow> 'w session \<Rightarrow> (int \<times> 'w session) option" where
  "client_main env exec s =
     do { (failed, s) \<leftarrow> sql_connect env (current_host s) (current_db s) (current_user s) (opt_password s)
                            (s_silent (info s)) s;
          if failed \<noteq> 0 then
            Some (mysql_end env (-1) (s\<lparr>conf := (conf s)\<lparr>quick := True\<rparr>, exit_status := 1\<rparr>))
          else
            do { let s = (if batch s then s else s\<lparr>info := (info s)\<lparr>s_ignore_errors := True\<rparr>\<rparr>);
                 let s = (if mysql_oracle_mode s then get_current_db env s else s);
                 let s = (if batch s then s else welcome_user env s);
                 let s = note_info (''Type '' @ [SQ] @ ''help;'' @ [SQ] @ '' or '' @ [SQ, BSL] @ ''h'' @ [SQ]
                           @ '' for help. Type '' @ [SQ, BSL] @ ''c'' @ [SQ] @ '' to clear the current input statement.''
                           @ [NL]) INFO_INFO s;
                 let s = (case e_login_info env (world s) of
                            None \<Rightarrow> s
                          | Some t \<Rightarrow> note_info (login_warning t) INFO_INFO s);
                 s \<leftarrow> start_login_sql env exec GLOB (get_login_sql_path env) s;
                 (status, s) \<leftarrow> read_and_execute env exec (\<not> batch s) s;
                 let s = s\<lparr>exit_status := status\<rparr>;
                 Some (mysql_end env 0 (if opt_outfile (screen s) then end_tee s else s)) } }"

end
