(* ===== verification/Outcomes.thy ===== *)
theory Outcomes
  imports Prelude
begin

text \<open>
  Reasoning about functions that may not return: the model writes a loop that need not end, and
  undefined behaviour, as the outcome \<open>None\<close>.
\<close>

section \<open>Outcomes\<close>

text \<open>Partial correctness of a run: if it returns, its result satisfies a property.\<close>

definition wp :: "('a \<Rightarrow> bool) \<Rightarrow> 'a option \<Rightarrow> bool" where
  "wp P r \<longleftrightarrow> (\<forall>x. r = Some x \<longrightarrow> P x)"

lemma wp_simps [simp]:
  "wp P None" "wp P (Some x) = P x" "wp P (Option.bind m f) = wp (\<lambda>x. wp P (f x)) m"
  "wp P (map_option g m) = wp (\<lambda>x. P (g x)) m" "wp (\<lambda>x. True) m"
  by (auto simp: wp_def split: bind_splits)

lemma wp_bind: "wp (\<lambda>x. wp P (f x)) m \<Longrightarrow> wp P (Option.bind m f)"
  by simp

lemma wp_option:
  "wp P (case x of None \<Rightarrow> a | Some y \<Rightarrow> f y) \<longleftrightarrow> (x = None \<longrightarrow> wp P a) \<and> wp (\<lambda>y. wp P (f y)) x"
  by (cases x) simp_all

lemma wp_any: "(\<And>y. x = Some y \<Longrightarrow> P y) \<Longrightarrow> wp P x"
  by (simp add: wp_def)

lemma wp_mono: "wp Q x \<Longrightarrow> (\<And>y. Q y \<Longrightarrow> P y) \<Longrightarrow> wp P x"
  by (simp add: wp_def)

lemma wp_if: "(c \<Longrightarrow> wp P a) \<Longrightarrow> (\<not> c \<Longrightarrow> wp P b) \<Longrightarrow> wp P (if c then a else b)"
  by simp

lemma wp_bool: "wp P a \<Longrightarrow> wp P b \<Longrightarrow> wp P (case x of True \<Rightarrow> a | False \<Rightarrow> b)"
  by (simp split: bool.split)

end
