(* ===== verification/Script.thy ===== *)
theory Script
  imports Handlers
begin

text \<open>
  A script from end to end: the main loop of \<^verbatim>\<open>read_and_execute\<close>, the batch line reader, the
  scanner and \<^verbatim>\<open>com_go\<close> together, on a file of statements and a server that accepts them.
\<close>

section \<open>A server that accepts everything\<close>

definition accepting :: "'w env \<Rightarrow> bool" where
  "accepting env \<longleftrightarrow> (\<forall>q w. fst (e_real_query env q w) = 0)
     \<and> (\<forall>w. fst (e_store_result env w) = None \<and> e_error env (snd (e_store_result env w)) = [])
     \<and> (\<forall>w. fst (e_next_result env w) = -1)
     \<and> (\<forall>w. \<not> e_oracle_mode env w \<and> e_server_status env w AND SERVER_STATUS_ANSI_QUOTES = 0
          \<and> e_server_status env w AND SERVER_STATUS_NO_BACKSLASH_ESCAPES = 0)"

definition reply :: "'w env \<Rightarrow> string \<Rightarrow> 'w \<Rightarrow> 'w" where
  "reply env q w = snd (e_next_result env (snd (e_store_result env (snd (e_real_query env q w)))))"

definition ready :: "charset_info \<Rightarrow> disabled \<Rightarrow> cstring \<Rightarrow> 'w session \<Rightarrow> bool" where
  "ready cs d delim s \<longleftrightarrow> calm cs d delim s \<and> batch s \<and> verbose s = 0 \<and> connected s \<and> \<not> skip_updates s
     \<and> \<not> quick (conf s) \<and> \<not> show_warnings s \<and> \<not> dbms_serveroutput s \<and> \<not> aborted s \<and> \<not> opt_binary_mode s"

definition sent_state :: "'w env \<Rightarrow> string \<Rightarrow> 'w session \<Rightarrow> 'w session" where
  "sent_state env q s = sync env (s\<lparr>last_execute_buffer := q, glob_buffer := []\<rparr>) (reply env q (world s))"

lemma note_info_batch: "batch s \<Longrightarrow> verbose s = 0 \<Longrightarrow> type \<noteq> INFO_ERROR \<Longrightarrow> note_info t type s = s"
  by (simp add: note_info_def say_def put_info_def batch_def verbose_def)

lemma show_feedback_batch: "batch s \<Longrightarrow> verbose s = 0 \<Longrightarrow> show_feedback env t r s = s"
  by (simp add: show_feedback_def note_info_batch Let_def split: option.splits)

lemma sync_fields [simp]: "batch (sync env s w) = batch s" "verbose (sync env s w) = verbose s"
  "info (sync env s w) = info s" "conf (sync env s w) = conf s" "connected (sync env s w) = connected s" "get_buffer r (sync env s w) = get_buffer r s"
  "mysql_oracle_mode (sync env s w) = e_oracle_mode env w" "show_warnings (sync env s w) = show_warnings s"
  "dbms_serveroutput (sync env s w) = dbms_serveroutput s" "add_to_history (sync env s w) = add_to_history s"
  "ob_error_top_str (sync env s w) = ob_error_top_str s"
  by (simp_all add: sync_def batch_def verbose_def get_buffer_def split: bufref.split)

lemma sync_update [simp]: "(sync env s v)\<lparr>last_execute_buffer := q\<rparr> = sync env (s\<lparr>last_execute_buffer := q\<rparr>) v"
  "set_buffer r b (sync env s v) = sync env (set_buffer r b s) v"
  by (simp_all add: sync_def set_buffer_def split: bufref.split)

lemma real_query_accepted:
  "accepting env \<Longrightarrow> mysql_real_query_for_lazy env exec q s = Some (0, sync env s (snd (e_real_query env q (world s))))"
  by (simp add: mysql_real_query_for_lazy_def real_query_loop.simps [of _ _ _ 0] call_def case_prod_beta accepting_def)

lemma result_loop_accepted:
  assumes "accepting env" and "batch s" and "verbose s = 0" and "\<not> quick (conf s)"
  shows "\<exists>n. result_loop env stmt 0 0 s = Some (0, n, sync env s (snd (e_next_result env (snd (e_store_result env (world s))))))"
proof -
  let ?s = "sync env s (snd (e_store_result env (world s)))"
  have "fetch_result env 0 s = (True, 0, None, ?s)"
    using assms by (simp add: fetch_result_def mysql_store_result_for_lazy_def call_def case_prod_beta accepting_def split: option.splits)
  moreover obtain n where "one_result env stmt 0 None ?s = Some (0, n, ?s)"
    using assms(2,3) by (simp add: one_result_def show_result_def Let_def show_feedback_batch)
  ultimately show ?thesis
    using assms(1) by (subst result_loop.simps) (simp add: call_def case_prod_beta accepting_def)
qed

lemma go_done_plain:
  "\<not> add_to_history s \<Longrightarrow> go_done r s = set_buffer r [] (s\<lparr>last_execute_buffer := if r = LAST then [] else get_buffer r s\<rparr>)"
  by (cases r) (simp_all add: go_done_def set_buffer_def get_buffer_def Let_def)

lemma sync_go_done: "\<not> add_to_history s \<Longrightarrow> go_done r (sync env s w) = sync env (go_done r s) w"
  by (simp add: go_done_plain)

lemma last_buffer_fields [simp]: "batch (s\<lparr>last_execute_buffer := b\<rparr>) = batch s" "verbose (s\<lparr>last_execute_buffer := b\<rparr>) = verbose s"
  by (simp_all add: batch_def verbose_def)

lemma set_buffer_fields [simp]: "get_buffer r (set_buffer r b s) = b" "world (set_buffer r b s) = world s" "batch (set_buffer r b s) = batch s"
  "verbose (set_buffer r b s) = verbose s" "conf (set_buffer r b s) = conf s" "connected (set_buffer r b s) = connected s"
  "show_warnings (set_buffer r b s) = show_warnings s" "dbms_serveroutput (set_buffer r b s) = dbms_serveroutput s"
  "last_session_mode (set_buffer r b s) = last_session_mode s" "skip_updates (set_buffer r b s) = skip_updates s"
  "add_to_history (set_buffer r b s) = add_to_history s"
  by (simp_all add: set_buffer_def get_buffer_def batch_def verbose_def split: bufref.split)

lemma send_statement_ready:
  assumes "accepting env" and "batch t" and "verbose t = 0" and "\<not> quick (conf t)" and "\<not> show_warnings t" and "\<not> dbms_serveroutput t"
    and "\<not> add_to_history t"
  shows "send_statement env exec r t = Some (0, sync env (go_done r t) (reply env (get_buffer r t) (world t)))"
proof -
  let ?q = "get_buffer r t"
  define v where "v = sync env (go_done r t) (snd (e_real_query env ?q (world t)))"
  define u where "u = sync env (go_done r t) (reply env ?q (world t))"
  have "batch v" "verbose v = 0" "\<not> quick (conf v)" using assms(2-4,7) by (simp_all add: v_def go_done_plain)
  from result_loop_accepted [OF assms(1) this, of "e_stale_text env ?q"]
  obtain n where n: "result_loop env (e_stale_text env ?q) 0 0 v = Some (0, n, u)"
    by (auto simp: u_def v_def reply_def)
  have "go_end env exec tx 0 n u = Some (0, u)" for tx n
    using assms(2,5-7) by (simp add: go_end_def u_def go_done_plain split: option.split)
  then show ?thesis
    using n assms(7) by (simp add: send_statement_def real_query_accepted [OF assms(1)] sync_go_done v_def u_def)
qed

lemma com_go_ready:
  assumes "accepting env" and "ready cs d delim s" and "q = remove_cntrl cs (get_buffer r s)"
  shows "com_go env exec r s = Some (0, if q = [] then set_buffer r [] s
    else sync env (go_done r (set_buffer r q s)) (reply env q (world s)))"
proof -
  have r: "charset_info s = cs" "batch s" "verbose s = 0" "connected s" "\<not> skip_updates s" "\<not> quick (conf s)"
    "\<not> show_warnings s" "\<not> dbms_serveroutput s" "\<not> last_session_mode s" "\<not> add_to_history s"
    using assms(2) by (simp_all add: ready_def calm_def)
  show ?thesis
    using r assms(3) send_statement_ready [OF assms(1), of "set_buffer r q s" exec r] by (simp add: com_go_def Let_def)
qed

lemma go_done_glob: "\<not> add_to_history s \<Longrightarrow> go_done GLOB (set_buffer GLOB q s) = s\<lparr>last_execute_buffer := q, glob_buffer := []\<rparr>"
  by (simp add: go_done_def get_buffer_def set_buffer_def Let_def)

section \<open>Scripts\<close>

text \<open>What a script is read from and sent to.\<close>

definition script_env :: "'w env \<Rightarrow> nat \<Rightarrow> ('w \<Rightarrow> string) \<Rightarrow> ('w \<Rightarrow> string list) \<Rightarrow> bool" where
  "script_env env fd contents sent \<longleftrightarrow> accepting env \<and> (\<forall>n. e_malloc env n)
     \<and> (\<exists>intr. file_source (e_read env fd) contents intr) \<and> unread (e_read env fd) sent
     \<and> (\<forall>q w. sent (snd (e_real_query env q w)) = sent w @ [q] \<and> contents (snd (e_real_query env q w)) = contents w)
     \<and> (\<forall>w. sent (snd (e_store_result env w)) = sent w \<and> contents (snd (e_store_result env w)) = contents w)
     \<and> (\<forall>w. sent (snd (e_next_result env w)) = sent w \<and> contents (snd (e_next_result env w)) = contents w)"

fun line_stmts :: "charset_info \<Rightarrow> string \<Rightarrow> string list \<Rightarrow> string list" where
  "line_stmts cs b [] = []"
| "line_stmts cs b (t # ts) = (b @ lead cs b t) # line_stmts cs [] ts"

definition texts :: "charset_info \<Rightarrow> string list \<Rightarrow> string list" where
  "texts cs us = filter (\<lambda>u. u \<noteq> []) (map (remove_cntrl cs) us)"

definition moved :: "('w \<Rightarrow> string) \<Rightarrow> ('w \<Rightarrow> string list) \<Rightarrow> string list \<Rightarrow> 'w session \<Rightarrow> 'w session \<Rightarrow> bool" where
  "moved contents sent qs s s' \<longleftrightarrow> sent (world s') = sent (world s) @ qs \<and> contents (world s') = contents (world s)
     \<and> line_buff s' = line_buff s \<and> exit_status s' = exit_status s"

lemma texts_simps [simp]: "texts cs [] = []" "texts cs (us @ vs) = texts cs us @ texts cs vs"
  "texts cs (u # us) = (if remove_cntrl cs u = [] then texts cs us else remove_cntrl cs u # texts cs us)"
  by (simp_all add: texts_def)

lemma ready_updates [simp]:
  "ready cs d delim (s\<lparr>glob_buffer := b\<rparr>) = ready cs d delim s"
  "ready cs d delim (s\<lparr>tmp_buffer := b\<rparr>) = ready cs d delim s"
  "ready cs d delim (s\<lparr>last_execute_buffer := b\<rparr>) = ready cs d delim s"
  "ready cs d delim (s\<lparr>exit_status := e\<rparr>) = ready cs d delim s"
  "ready cs d delim (s\<lparr>line_buff := lb\<rparr>) = ready cs d delim s"
  "ready cs d delim (s\<lparr>info := (info s)\<lparr>s_query_start_line := m\<rparr>\<rparr>) = ready cs d delim s"
  by (simp_all add: ready_def calm_def batch_def verbose_def)

lemma ready_sync: "accepting env \<Longrightarrow> ready cs d delim s \<Longrightarrow> ready cs d delim (sync env s w)"
  by (simp add: ready_def calm_def accepting_def sync_def batch_def verbose_def)

lemma ready_pl: "ready cs d delim s \<Longrightarrow> ready cs d delim (s\<lparr>is_pl_escape_sql := False\<rparr>)"
  by (simp add: ready_def calm_def batch_def verbose_def)

lemma ready_calm: "ready cs d delim s \<Longrightarrow> calm cs d delim s"
  by (simp add: ready_def)

lemma calm_fields: "calm cs d delim s \<Longrightarrow> charset_info s = cs" "calm cs d delim s \<Longrightarrow> disabled_commands s = d"
  "calm cs d delim s \<Longrightarrow> delimiter s = delim" "calm cs d delim s \<Longrightarrow> \<not> last_session_mode s"
  "calm cs d delim s \<Longrightarrow> \<not> real_binary_mode s" "calm cs d delim s \<Longrightarrow> \<not> mysql_oracle_mode s"
  by (simp_all add: calm_def)

lemma sent_state_ready: "accepting env \<Longrightarrow> ready cs d delim s \<Longrightarrow> ready cs d delim (sent_state env q s)"
  by (simp add: sent_state_def ready_sync)

lemma sent_state_glob [simp]: "glob_buffer (sent_state env q s) = []"
  by (simp add: sent_state_def sync_def)

lemma sent_state_moved: "script_env env fd contents sent \<Longrightarrow> moved contents sent [q] s (sent_state env q s)"
  by (simp add: moved_def sent_state_def reply_def script_env_def sync_def)

lemma moved_trans: "moved contents sent qs s t \<Longrightarrow> moved contents sent ps t u \<Longrightarrow> moved contents sent (qs @ ps) s u"
  by (simp add: moved_def)

lemma moved_updates [simp]: "moved contents sent qs (s\<lparr>glob_buffer := b\<rparr>) t = moved contents sent qs s t"
  "moved contents sent qs s (t\<lparr>glob_buffer := b\<rparr>) = moved contents sent qs s t"
  "moved contents sent qs s (t\<lparr>tmp_buffer := b\<rparr>) = moved contents sent qs s t"
  "moved contents sent qs s (t\<lparr>is_pl_escape_sql := p\<rparr>) = moved contents sent qs s t"
  "moved contents sent qs (s\<lparr>is_pl_escape_sql := p\<rparr>) t = moved contents sent qs s t"
  by (simp_all add: moved_def)

lemma moved_refl [simp]: "moved contents sent [] s s"
  by (simp add: moved_def)

lemma handler_go:
  assumes "script_env env fd contents sent" and "ready cs d delim s"
  obtains s' where "handler env (Suc n) Com_go GLOB a s = Some (0, s')" and "ready cs d delim s'"
    and "moved contents sent (texts cs [glob_buffer s]) s s'" and "glob_buffer s' = []"
proof -
  have acc: "accepting env" using assms(1) by (simp add: script_env_def)
  let ?q = "remove_cntrl cs (glob_buffer s)"
  let ?s = "if ?q = [] then s\<lparr>glob_buffer := []\<rparr> else sent_state env ?q s"
  have "\<not> add_to_history s" using assms(2) by (simp add: ready_def calm_def)
  then have "handler env (Suc n) Com_go GLOB a s = Some (0, ?s)"
    using com_go_ready [OF acc assms(2), of "remove_cntrl cs (get_buffer GLOB s)" GLOB "handler env n"]
    by (simp add: run_command_def go_done_glob sent_state_def) (simp add: set_buffer_def get_buffer_def)
  then show thesis
    using assms(2) sent_state_moved [OF assms(1), of ?q s] sent_state_ready [OF acc assms(2)]
    by (intro that [of ?s]) simp_all
qed

lemma run_all_ready:
  assumes "script_env env fd contents sent" and "ready cs d delim s"
    and "\<forall>u \<in> set (line_stmts cs (glob_buffer s) ts). find_command_name cs False d delim (cstr u) = None"
  shows "\<exists>s'. run_all (handler env (Suc n)) cs ts s = Some (False, s') \<and> calm_run (handler env (Suc n)) cs d delim ts s
    \<and> ready cs d delim s' \<and> moved contents sent (texts cs (line_stmts cs (glob_buffer s) ts)) s s'
    \<and> glob_buffer s' = (if ts = [] then glob_buffer s else [])"
  using assms(2,3)
proof (induction ts arbitrary: s)
  case Nil
  then show ?case by (simp add: ready_calm)
next
  case (Cons t ts)
  define b where "b = glob_buffer s @ lead cs (glob_buffer s) t"
  have r: "ready cs d delim (s\<lparr>glob_buffer := b\<rparr>)" using Cons.prems(1) by simp
  have none: "find_command (cstr b) (s\<lparr>glob_buffer := b\<rparr>) = None"
    using Cons.prems(2) calm_fields [OF ready_calm [OF r]] by (simp add: find_command_def b_def)
  obtain s1 where s1: "handler env (Suc n) Com_go GLOB None (s\<lparr>glob_buffer := b\<rparr>) = Some (0, s1)" "ready cs d delim s1"
    "moved contents sent (texts cs [b]) s s1" "glob_buffer s1 = []"
    by (rule handler_go [OF assms(1) r, of n None]) auto
  define s2 where "s2 = s1\<lparr>glob_buffer := [], is_pl_escape_sql := False\<rparr>"
  have s2: "ready cs d delim s2" "moved contents sent (texts cs [b]) s s2" "glob_buffer s2 = []"
    using s1 by (simp_all add: s2_def ready_pl)
  obtain s' where s': "run_all (handler env (Suc n)) cs ts s2 = Some (False, s')" "calm_run (handler env (Suc n)) cs d delim ts s2"
    "ready cs d delim s'" "moved contents sent (texts cs (line_stmts cs [] ts)) s2 s'" "glob_buffer s' = []"
    using Cons.IH [OF s2(1)] Cons.prems(2) s2(3) by auto
  have "texts cs (line_stmts cs (glob_buffer s) (t # ts)) = texts cs [b] @ texts cs (line_stmts cs [] ts)"
    by (simp add: b_def)
  then show ?case
    using s' none s1(1) moved_trans [OF s2(2) s'(4)] ready_calm [OF Cons.prems(1)]
    by (simp add: run_found_def b_def [symmetric] s2_def [symmetric] del: handler.simps)
qed

text \<open>
  A script line by line: the statements that end on a line, and what the line leaves for the next one.
  No line, statement or rest is a command of the client.
\<close>

definition script_rest :: "charset_info \<Rightarrow> string \<Rightarrow> string list \<Rightarrow> string \<Rightarrow> string" where
  "script_rest cs b ts tail =
     (let b = (if ts = [] then b else []); r = b @ lead cs b tail in if r = [] then [] else r @ [NL])"

fun script_ok :: "charset_info \<Rightarrow> disabled \<Rightarrow> cstring \<Rightarrow> string \<Rightarrow> (string list \<times> string) list \<Rightarrow> bool" where
  "script_ok cs d delim b [] \<longleftrightarrow> True"
| "script_ok cs d delim b ((ts, tail) # ps) \<longleftrightarrow>
     is_cstr (line_of delim ts tail) \<and> ch_at (line_of delim ts tail) 0 \<noteq> CHR 0xEF
     \<and> find_command_name cs False d delim (line_of delim ts tail) = None
     \<and> plain_line cs delim b NUL ts tail
     \<and> (\<forall>u \<in> set (line_stmts cs b ts). find_command_name cs False d delim (cstr u) = None)
     \<and> (let b = (if ts = [] then b else []); rest = lead cs b tail
        in \<not> is_delimiter_command rest (length rest) \<and> find_command_name cs False d delim (b @ rest) = None)
     \<and> script_ok cs d delim (script_rest cs b ts tail) ps"

fun script_stmts :: "charset_info \<Rightarrow> string \<Rightarrow> (string list \<times> string) list \<Rightarrow> string list" where
  "script_stmts cs b [] = [b]"
| "script_stmts cs b ((ts, tail) # ps) = line_stmts cs b ts @ script_stmts cs (script_rest cs b ts tail) ps"

definition script_lines :: "cstring \<Rightarrow> (string list \<times> string) list \<Rightarrow> string list" where
  "script_lines delim ps = map (\<lambda>(ts, tail). line_of delim ts tail) ps"

definition plain_delimiter :: "charset_info \<Rightarrow> cstring \<Rightarrow> bool" where
  "plain_delimiter cs delim \<longleftrightarrow> \<not> use_mb cs \<and> delim \<noteq> [] \<and> hd delim \<noteq> BSL \<and> \<not> my_isspace cs (hd delim)"

lemma batch_line_next:
  assumes "script_env env fd contents sent" and "ready cs d delim s" and "line_buff s = Some (lb, fd)"
    and "lines_left contents lb (world s) ls" and "\<forall>l \<in> set (take 1 ls). is_cstr l \<and> ch_at l 0 \<noteq> CHR 0xEF"
  shows "\<exists>rd' lb' s'. batch_line env rd s = Some (False, case ls of [] \<Rightarrow> None | l # _ \<Rightarrow> Some l, rd', s')
    \<and> rd_in_string rd' = rd_in_string rd \<and> rd_ml_comment rd' = rd_ml_comment rd \<and> ready cs d delim s'
    \<and> line_buff s' = Some (lb', fd) \<and> glob_buffer s' = glob_buffer s \<and> sent (world s') = sent (world s)
    \<and> \<not> lb_error lb' \<and> (ls \<noteq> [] \<longrightarrow> \<not> truncated lb' \<and> lines_left contents lb' (world s') (tl ls))"
proof -
  obtain intr where e: "accepting env" "\<And>n. e_malloc env n" "file_source (e_read env fd) contents intr" "unread (e_read env fd) sent"
    using assms(1) by (auto simp: script_env_def)
  obtain lb' w where rl: "batch_readline (e_read env fd) (e_malloc env) False lb (world s) = Some (case ls of [] \<Rightarrow> None | l # _ \<Rightarrow> Some l, lb', w)"
    "sent w = sent (world s)" "\<not> lb_error lb'" "ls \<noteq> [] \<Longrightarrow> \<not> truncated lb' \<and> lines_left contents lb' w (tl ls)"
    using next_line [where alloc = "e_malloc env", OF e(3) e(2) e(4) assms(4)] by auto
  define t where "t = sync env (s\<lparr>line_buff := Some (lb', fd)\<rparr>) w"
  have t: "ready cs d delim t" "line_buff t = Some (lb', fd)" "glob_buffer t = glob_buffer s" "world t = w" "\<not> real_binary_mode t"
    using assms(2) calm_fields [OF ready_calm [OF assms(2)]] by (simp_all add: t_def ready_sync [OF e(1)]) (simp_all add: sync_def)
  define s' where "s' = (if glob_buffer t = [] then t\<lparr>info := (info t)\<lparr>s_query_start_line := rd_line_number rd + 1\<rparr>\<rparr> else t)"
  have s': "ready cs d delim s'" "line_buff s' = Some (lb', fd)" "glob_buffer s' = glob_buffer s" "world s' = w"
    using t by (simp_all add: s'_def)
  have "strip_bom m l = l" if "ls = l # r" for l r m
    using that assms(5) by (simp add: strip_bom_def)
  then have "batch_line env rd s = Some (False, case ls of [] \<Rightarrow> None | l # _ \<Rightarrow> Some l, rd\<lparr>rd_line_number := rd_line_number rd + 1\<rparr>, s')"
    using assms(3,5) rl(1) t(5) calm_fields [OF ready_calm [OF assms(2)]]
    by (cases ls) (simp_all add: batch_line_def t_def [symmetric] s'_def Let_def cstr_id)
  then show ?thesis using s' rl(2-4) by auto
qed

lemma one_line_ready:
  assumes "script_env env fd contents sent" and "plain_delimiter cs delim" and "ready cs d delim s"
    and "line_buff s = Some (lb, fd)" and "\<not> truncated lb" and "rd_in_string rd = NUL" and "\<not> rd_ml_comment rd"
    and "script_ok cs d delim (glob_buffer s) ((ts, tail) # ps)" and "NUL \<notin> set (glob_buffer s)"
  shows "\<exists>rd' s'. one_line (handler env (Suc n)) False (line_of delim ts tail) rd s = Some (False, rd', s')
    \<and> rd_in_string rd' = NUL \<and> \<not> rd_ml_comment rd' \<and> ready cs d delim s'
    \<and> moved contents sent (texts cs (line_stmts cs (glob_buffer s) ts)) s s'
    \<and> glob_buffer s' = script_rest cs (glob_buffer s) ts tail \<and> NUL \<notin> set (glob_buffer s')"
proof -
  let ?line = "line_of delim ts tail" and ?exec = "handler env (Suc n)"
  define b where "b = (if ts = [] then glob_buffer s else [])"
  define rest where "rest = lead cs b tail"
  have ok: "is_cstr ?line" "find_command_name cs False d delim ?line = None" "plain_line cs delim (glob_buffer s) NUL ts tail"
    "\<forall>u \<in> set (line_stmts cs (glob_buffer s) ts). find_command_name cs False d delim (cstr u) = None"
    "\<not> is_delimiter_command rest (length rest)" "find_command_name cs False d delim (b @ rest) = None"
    using assms(8) by (simp_all add: b_def rest_def Let_def)
  note f = calm_fields [OF ready_calm [OF assms(3)]]
  obtain s1 where s1: "run_all ?exec cs ts s = Some (False, s1)" "calm_run ?exec cs d delim ts s" "ready cs d delim s1"
    "moved contents sent (texts cs (line_stmts cs (glob_buffer s) ts)) s s1" "glob_buffer s1 = b"
    using run_all_ready [OF assms(1,3) ok(4), of n] by (auto simp: b_def)
  have n: "NUL \<notin> set b" "NUL \<notin> set rest"
    using assms(9) plain_line_tail [OF ok(3)] by (simp_all add: b_def rest_def)
  have start: "ch_at ?line 0 \<noteq> NUL \<or> ?line = []" using ok(1) by (cases ?line) (auto simp: is_cstr_def ch_at_def)
  have pd: "\<not> use_mb cs" "delim \<noteq> []" "hd delim \<noteq> BSL" "\<not> my_isspace cs (hd delim)"
    using assms(2) by (simp_all add: plain_delimiter_def)
  define l where "l = idle (if b @ rest = [] then [] else rest @ [NL])"
  define s' where "s' = (if b @ rest = [] then s1 else s1\<lparr>glob_buffer := b @ rest @ [NL], tmp_buffer := b @ rest @ [NUL]\<rparr>)"
  have add: "add_line ?exec ?line NUL False False s = Some (False, l, s')"
    using add_line_plain [OF pd s1(2) ok(3) start b_def rest_def n(1) ok(5,6)] s1(1) by (simp add: l_def s'_def)
  have "one_line ?exec False ?line rd s = scan_line ?exec ?line rd s"
    using f ok(1,2) by (simp add: one_line_def ends_statement_def take_line_def find_command_def cstr_id)
  also have "\<dots> = Some (False, rd\<lparr>rd_in_string := in_string l, rd_ml_comment := ml_comment l\<rparr>, s')"
    using add assms(4-7) by (simp add: scan_line_def)
  finally show ?thesis
    using s1(3-5) n by (auto simp: l_def s'_def idle_def script_rest_def b_def rest_def Let_def)
qed

lemma main_loop_script:
  assumes "script_env env fd contents sent" and "plain_delimiter cs delim" and "ready cs d delim s"
    and "line_buff s = Some (lb, fd)" and "lines_left contents lb (world s) (script_lines delim ps)"
    and "rd_in_string rd = NUL" and "\<not> rd_ml_comment rd"
    and "script_ok cs d delim (glob_buffer s) ps" and "NUL \<notin> set (glob_buffer s)"
  shows "\<exists>s' us. main_loop env (handler env (Suc n)) False rd s = Some s' \<and> ready cs d delim s' \<and> exit_status s' = 0
    \<and> script_stmts cs (glob_buffer s) ps = us @ [glob_buffer s'] \<and> sent (world s') = sent (world s) @ texts cs us"
  using assms(3-)
proof (induction ps arbitrary: s lb rd)
  case Nil
  have ls: "script_lines delim [] = []" by (simp add: script_lines_def)
  obtain rd' lb' s' where l: "batch_line env rd s = Some (False, None, rd', s')" "ready cs d delim s'"
    "line_buff s' = Some (lb', fd)" "glob_buffer s' = glob_buffer s" "sent (world s') = sent (world s)" "\<not> lb_error lb'"
    using batch_line_next [OF assms(1) Nil.prems(1-3), of rd] ls by auto
  have "\<not> aborted s" using Nil.prems(1) by (simp add: ready_def)
  then have "main_loop env (handler env (Suc n)) False rd s = Some (end_of_input s')"
    using l(1) by (subst main_loop.simps) simp
  then show ?case using l by (auto simp: end_of_input_def)
next
  case (Cons p ps)
  obtain ts tail where p: "p = (ts, tail)" by (cases p)
  have ls: "script_lines delim (p # ps) = line_of delim ts tail # script_lines delim ps"
    by (simp add: script_lines_def p)
  have "\<forall>l \<in> set (take 1 (script_lines delim (p # ps))). is_cstr l \<and> ch_at l 0 \<noteq> CHR 0xEF"
    unfolding ls using Cons.prems(6) by (simp add: p)
  from batch_line_next [OF assms(1) Cons.prems(1-3) this, of rd]
  obtain rd1 lb1 s1 where l: "batch_line env rd s = Some (False, Some (line_of delim ts tail), rd1, s1)"
    "rd_in_string rd1 = NUL" "\<not> rd_ml_comment rd1" "ready cs d delim s1" "line_buff s1 = Some (lb1, fd)"
    "glob_buffer s1 = glob_buffer s" "sent (world s1) = sent (world s)" "\<not> truncated lb1"
    "lines_left contents lb1 (world s1) (script_lines delim ps)"
    using Cons.prems(4,5) by (auto simp: ls)
  have "script_ok cs d delim (glob_buffer s1) ((ts, tail) # ps)" "NUL \<notin> set (glob_buffer s1)"
    using Cons.prems(6,7) l(6) p by simp_all
  from one_line_ready [OF assms(1,2) l(4,5,8,2,3) this, of n]
  obtain rd2 s2 where o: "one_line (handler env (Suc n)) False (line_of delim ts tail) rd1 s1 = Some (False, rd2, s2)"
    "rd_in_string rd2 = NUL" "\<not> rd_ml_comment rd2" "ready cs d delim s2"
    "moved contents sent (texts cs (line_stmts cs (glob_buffer s) ts)) s1 s2"
    "glob_buffer s2 = script_rest cs (glob_buffer s) ts tail" "NUL \<notin> set (glob_buffer s2)"
    by (auto simp: l(6))
  have m: "sent (world s2) = sent (world s) @ texts cs (line_stmts cs (glob_buffer s) ts)" "line_buff s2 = Some (lb1, fd)"
    "contents (world s2) = contents (world s1)"
    using o(5) l(5,7) by (simp_all add: moved_def)
  have "lines_left contents lb1 (world s2) (script_lines delim ps)"
    using l(9) lines_left_frame [of contents, OF m(3)] by simp
  moreover have "script_ok cs d delim (glob_buffer s2) ps" using Cons.prems(6) o(6) p by simp
  ultimately obtain s' us where r: "main_loop env (handler env (Suc n)) False rd2 s2 = Some s'" "ready cs d delim s'" "exit_status s' = 0"
    "script_stmts cs (glob_buffer s2) ps = us @ [glob_buffer s']" "sent (world s') = sent (world s2) @ texts cs us"
    using Cons.IH [OF o(4) m(2) _ o(2,3) _ o(7)] by blast
  have "\<not> aborted s" using Cons.prems(1) by (simp add: ready_def)
  then have "main_loop env (handler env (Suc n)) False rd s = Some s'"
    using l(1) o(1) r(1) by (subst main_loop.simps) simp
  then show ?case
    using r(2-5) o(6) m(1) p by (intro exI [of _ s'] exI [of _ "line_stmts cs (glob_buffer s) ts @ us"]) simp
qed

lemma remove_cntrl_idem [simp]: "remove_cntrl cs (remove_cntrl cs b) = remove_cntrl cs b"
  by (simp add: remove_cntrl_def)

lemma last_statement_ready:
  assumes "script_env env fd contents sent" and "ready cs d delim s" and "exit_status s = 0"
  shows "\<exists>s'. last_statement (handler env (Suc n)) s = Some s' \<and> exit_status s' = 0
    \<and> sent (world s') = sent (world s) @ texts cs [glob_buffer s]"
proof -
  define t where "t = s\<lparr>glob_buffer := remove_cntrl cs (glob_buffer s), exit_status := 1\<rparr>"
  have "ready cs d delim t" using assms(2) by (simp add: t_def)
  then obtain s' where s': "handler env (Suc n) Com_go GLOB None t = Some (0, s')"
    "moved contents sent (texts cs [glob_buffer t]) t s'"
    by (rule handler_go [OF assms(1), of _ _ _ _ n None])
  have "sent (world s') = sent (world s) @ texts cs [glob_buffer s]"
    using s'(2) by (simp add: moved_def t_def)
  then show ?thesis
    using s'(1) assms(3) calm_fields(1) [OF ready_calm [OF assms(2)]]
    by (auto simp: last_statement_def Let_def t_def)
qed

section \<open>A server that keeps what it is sent\<close>

definition log_env :: "(string \<times> string list) env" where
  "log_env = \<lparr>e_real_query = (\<lambda>q (f, l). (0, f, l @ [q])), e_errno = (\<lambda>w. 0), e_error = (\<lambda>w. []), e_sqlstate = (\<lambda>w. ''00000''),
     e_store_result = (\<lambda>w. (None, w)), e_use_result = (\<lambda>w. (None, w)), e_list_fields = (\<lambda>t w. (None, w)), e_next_result = (\<lambda>w. (-1, w)),
     e_field_count = (\<lambda>w. 0), e_affected_rows = (\<lambda>w. 0), e_warning_count = (\<lambda>w. 0), e_info = (\<lambda>w. None), e_eof = (\<lambda>w. False),
     e_select_db = (\<lambda>d w. (0, w)), e_server_status = (\<lambda>w. 2), e_oracle_mode = (\<lambda>w. False), e_server_version = (\<lambda>w. 50700),
     e_thread_id = (\<lambda>w. 1), e_charset = (\<lambda>w. my_charset_latin1), e_set_character_set = (\<lambda>c w. w),
     e_real_connect = (\<lambda>r w. (True, w)), e_lb_connect = (\<lambda>s hs r w. (None, w)), e_close = (\<lambda>w. w),
     e_stmt_init = (\<lambda>w. (False, w)), e_stmt_prepare = (\<lambda>t w. (1, w)), e_stmt_call = (\<lambda>c w. (1, w)), e_stmt_done = (\<lambda>w. w),
     e_stmt_next = (\<lambda>w. w), e_stmt_error = (\<lambda>w. ([], 0, [])), e_dbms_row = (\<lambda>w. (NUL, True, [], 0)),
     e_get_charset = (\<lambda>n. None), e_default_csname = ''latin1'', e_strnncoll = (\<lambda>cs a b. if a = b then 0 else 1),
     e_timer = (\<lambda>w. ''0.00 sec''), e_stale_text = (\<lambda>q. []), e_column_format_re = (\<lambda>t. False), e_show_errors_re = (\<lambda>t. None),
     e_create_re = (\<lambda>t. None), e_alter_re = (\<lambda>t. None), e_popen = (\<lambda>c w. (False, w)), e_fopen_append = (\<lambda>n w. (False, w)),
     e_fopen_read = (\<lambda>n w. (None, w)), e_fstat = (\<lambda>fd w. (True, True)), e_read = (\<lambda>fd (f, l) n. (Got (take n f), drop n f, l)),
     e_fclose = (\<lambda>fd w. w), e_malloc = (\<lambda>n. True), e_hash_alloc = (\<lambda>n. (True, True)), e_readable = (\<lambda>n w. False),
     e_unpack_filename = (\<lambda>n. n), e_system = (\<lambda>c w. (0, w)), e_sys_error = (\<lambda>w. ([], 0)), e_create_temp_file = (\<lambda>w. (None, w)),
     e_write_file = (\<lambda>n t w. w), e_read_file = (\<lambda>n w. (None, w)), e_delete_file = (\<lambda>n w. w), e_getenv = (\<lambda>n. None),
     e_readline = (\<lambda>p w. (None, w)), e_getch = (\<lambda>w. (CHR 0x0D, w)), e_sleep = (\<lambda>n w. w), e_server_info = (\<lambda>w. ''5.7''),
     e_server_name = (\<lambda>w. ''log''), e_host_info = (\<lambda>w. ''localhost''), e_mysql_host = (\<lambda>w. ''localhost''), e_unix_socket = (\<lambda>w. None),
     e_port = (\<lambda>w. 2881), e_proto_info = (\<lambda>w. 10), e_ssl_cipher = (\<lambda>w. None), e_insert_id = (\<lambda>w. 0), e_compress = (\<lambda>w. False),
     e_stat = (\<lambda>w. (None, w)), e_commit = (\<lambda>w. w), e_csname = (\<lambda>cs. ''latin1''), e_login_info = (\<lambda>w. None),
     e_localtime = (\<lambda>w. \<lparr>tm_sec = 0, tm_min = 0, tm_hour = 0, tm_mon = 0, tm_year = 100, tm_wday = 6\<rparr>), e_ctime = (\<lambda>w. []),
     e_hostname = None, e_nice_time = (\<lambda>n. []), e_version_text = ''2.0'', e_is_proxymode = False, e_safe_updates = False,
     e_select_limit = 1000, e_max_join_size = 1000000\<rparr>"

definition sample_session :: "'w \<Rightarrow> 'w session" where
  "sample_session w = oracle_client.extend
     (sample_oracle\<lparr>last_session_mode := False, mysql_oracle_mode := False, conf := sample_settings,
        info := (info sample_oracle)\<lparr>s_batch := True\<rparr>\<rparr>)
     \<lparr>world = w, connected = True, opt_reconnect = True, opt_rehash = False, one_database = False, skip_updates = False,
      opt_html = False, opt_xml = False, vertical = False, auto_vertical_output = False, output_tables = False,
      show_warnings = False, named_cmds = False, opt_nopager = True, default_pager_set = False, opt_binary_mode = False,
      batch_abort_on_error = True, wait_flag = False, aborted = False, terminal_width = 80, exit_status = 0,
      line_buff = Some (\<lparr>lb_buffer = [], start_of_line = 0, end_of_line = 0, bufread = 4096, lb_eof = 0, max_size = 1000000,
        read_length = 0, lb_error = False, truncated = False\<rparr>, 0),
      old_buffer = [], current_db = None, current_user = Some ''root'', current_host = None, current_host_success = None,
      opt_password = None, opt_mysql_port = 2881, current_port_success = 2881, default_charset = ''latin1'',
      ob_socket5_proxy_str = None, ob_service_name_str = None, ob_error_top_str = None, outfile = [], pager = [], default_pager = [],
      current_prompt = ''obclient> '', default_prompt = ''obclient> '', prompt_counter = 0, full_username = None,
      part_username = None, server_version = None, ht = \<lparr>nTableSize = 0, initialized = False, arBuckets = []\<rparr>,
      pl_last_type = None, pl_last_object = None, pl_last_schema = None, dbms_stmt = False, dbms_prepared = False\<rparr>"

lemma log_env_script: "script_env log_env 0 fst snd"
proof -
  have "accepting log_env"
    by (simp add: accepting_def log_env_def SERVER_STATUS_ANSI_QUOTES_def SERVER_STATUS_NO_BACKSLASH_ESCAPES_def case_prod_beta)
  moreover have "file_source (e_read log_env 0) fst (\<lambda>w. 0)"
    by (auto simp: file_source_def log_env_def)
  ultimately show ?thesis
    by (auto simp: script_env_def log_env_def unread_def case_prod_beta)
qed

lemma sample_session_ready: "ready my_charset_latin1 no_disabled '';'' (sample_session w)"
  by (simp add: ready_def calm_def sample_session_def sample_oracle_def sample_client_def client.defs oracle_client.defs
    sample_settings_def batch_def verbose_def SERVER_STATUS_ANSI_QUOTES_def SERVER_STATUS_NO_BACKSLASH_ESCAPES_def)

section \<open>The run of a script\<close>



end
