(* ===== verification/Wellformed.thy ===== *)
theory Wellformed
  imports Outcomes Script
begin

text \<open>
  A well-formedness predicate on the state of the client, and that everything the client does
  keeps it: every command handler, to any depth of nested files, the scanner, the main loop and
  the program as a whole. The commands enter the proofs through the locale \<open>keeper\<close>.
\<close>

section \<open>Well-formed sessions\<close>

definition delimiter_ok :: "cstring \<Rightarrow> bool" where
  "delimiter_ok d \<longleftrightarrow> d \<noteq> [] \<and> length d \<le> 15 \<and> BSL \<notin> set d \<and> is_cstr d"

definition console_ok :: "console \<Rightarrow> bool" where
  "console_ok c \<longleftrightarrow> 2 \<le> obclient_num_width c \<and> obclient_num_width c \<le> 128"

definition session_ok :: "'a oracle_client_scheme \<Rightarrow> bool" where
  "session_ok s \<longleftrightarrow> delimiter_ok (delimiter s) \<and> (is_user_specify_delimiter s \<longleftrightarrow> delimiter s \<noteq> '';'')
     \<and> define_char_oracle s \<noteq> NUL \<and> defines_ok (global_define_map s) \<and> console_ok (screen s)"

lemma session_ok_simps [simp]:

  "session_ok (s\<lparr>glob_buffer := x1\<rparr>) = session_ok s" "session_ok (s\<lparr>tmp_buffer := x2\<rparr>) = session_ok s"
  "session_ok (s\<lparr>last_execute_buffer := x3\<rparr>) = session_ok s"
  "session_ok (s\<lparr>preserve_comments := x4\<rparr>) = session_ok s"
  "session_ok (s\<lparr>is_pl_escape_sql := x5\<rparr>) = session_ok s"
  "session_ok (s\<lparr>last_session_mode := x6\<rparr>) = session_ok s"
  "session_ok (s\<lparr>mysql_oracle_mode := x7\<rparr>) = session_ok s"
  "session_ok (s\<lparr>server_status := x8\<rparr>) = session_ok s"
  "session_ok (s\<lparr>real_binary_mode := x9\<rparr>) = session_ok s"
  "session_ok (s\<lparr>add_to_history := x10\<rparr>) = session_ok s"
  "session_ok (s\<lparr>charset_info := x11\<rparr>) = session_ok s"
  "session_ok (s\<lparr>disabled_commands := x12\<rparr>) = session_ok s"
  "session_ok (s\<lparr>history := x13\<rparr>) = session_ok s" "session_ok (s\<lparr>pl_escape_sql_re := x14\<rparr>) = session_ok s"
  "session_ok (s\<lparr>info := x15\<rparr>) = session_ok s"
  "session_ok (s\<lparr>is_define_oracle := x16\<rparr>) = session_ok s"
  "session_ok (s\<lparr>is_feedback_oracle := x17\<rparr>) = session_ok s"
  "session_ok (s\<lparr>feedback_int_oracle := x18\<rparr>) = session_ok s"
  "session_ok (s\<lparr>is_sqlblanklines_oracle := x19\<rparr>) = session_ok s"
  "session_ok (s\<lparr>is_echo_oracle := x20\<rparr>) = session_ok s"
  "session_ok (s\<lparr>pagesize_int_oracle := x21\<rparr>) = session_ok s"
  "session_ok (s\<lparr>is_trimspool_oracle := x22\<rparr>) = session_ok s"
  "session_ok (s\<lparr>is_exitcommit_oracle := x23\<rparr>) = session_ok s"
  "session_ok (s\<lparr>dbms_serveroutput := x24\<rparr>) = session_ok s" "session_ok (s\<lparr>conf := x25\<rparr>) = session_ok s"
  "session_ok (s\<lparr>stdin := x26\<rparr>) = session_ok s" "session_ok (s\<lparr>mallocs := x27\<rparr>) = session_ok s"
  "session_ok (s\<lparr>places := x28\<rparr>) = session_ok s"
  by (simp_all add: session_ok_def)

lemma session_ok_session_simps [simp]:
  fixes s :: "'w session"
  shows
  "session_ok (s\<lparr>world := x29\<rparr>) = session_ok s" "session_ok (s\<lparr>connected := x30\<rparr>) = session_ok s"
  "session_ok (s\<lparr>opt_reconnect := x31\<rparr>) = session_ok s" "session_ok (s\<lparr>opt_rehash := x32\<rparr>) = session_ok s"
  "session_ok (s\<lparr>one_database := x33\<rparr>) = session_ok s"
  "session_ok (s\<lparr>skip_updates := x34\<rparr>) = session_ok s" "session_ok (s\<lparr>opt_html := x35\<rparr>) = session_ok s"
  "session_ok (s\<lparr>opt_xml := x36\<rparr>) = session_ok s" "session_ok (s\<lparr>vertical := x37\<rparr>) = session_ok s"
  "session_ok (s\<lparr>auto_vertical_output := x38\<rparr>) = session_ok s"
  "session_ok (s\<lparr>output_tables := x39\<rparr>) = session_ok s"
  "session_ok (s\<lparr>show_warnings := x40\<rparr>) = session_ok s" "session_ok (s\<lparr>named_cmds := x41\<rparr>) = session_ok s"
  "session_ok (s\<lparr>opt_nopager := x42\<rparr>) = session_ok s"
  "session_ok (s\<lparr>default_pager_set := x43\<rparr>) = session_ok s"
  "session_ok (s\<lparr>opt_binary_mode := x44\<rparr>) = session_ok s"
  "session_ok (s\<lparr>batch_abort_on_error := x45\<rparr>) = session_ok s"
  "session_ok (s\<lparr>wait_flag := x46\<rparr>) = session_ok s" "session_ok (s\<lparr>aborted := x47\<rparr>) = session_ok s"
  "session_ok (s\<lparr>terminal_width := x48\<rparr>) = session_ok s"
  "session_ok (s\<lparr>exit_status := x49\<rparr>) = session_ok s" "session_ok (s\<lparr>line_buff := x50\<rparr>) = session_ok s"
  "session_ok (s\<lparr>old_buffer := x51\<rparr>) = session_ok s" "session_ok (s\<lparr>current_db := x52\<rparr>) = session_ok s"
  "session_ok (s\<lparr>current_user := x53\<rparr>) = session_ok s"
  "session_ok (s\<lparr>current_host := x54\<rparr>) = session_ok s"
  "session_ok (s\<lparr>current_host_success := x55\<rparr>) = session_ok s"
  "session_ok (s\<lparr>opt_password := x56\<rparr>) = session_ok s"
  "session_ok (s\<lparr>opt_mysql_port := x57\<rparr>) = session_ok s"
  "session_ok (s\<lparr>current_port_success := x58\<rparr>) = session_ok s"
  "session_ok (s\<lparr>default_charset := x59\<rparr>) = session_ok s"
  "session_ok (s\<lparr>ob_socket5_proxy_str := x60\<rparr>) = session_ok s"
  "session_ok (s\<lparr>ob_service_name_str := x61\<rparr>) = session_ok s"
  "session_ok (s\<lparr>ob_error_top_str := x62\<rparr>) = session_ok s" "session_ok (s\<lparr>outfile := x63\<rparr>) = session_ok s"
  "session_ok (s\<lparr>pager := x64\<rparr>) = session_ok s" "session_ok (s\<lparr>default_pager := x65\<rparr>) = session_ok s"
  "session_ok (s\<lparr>current_prompt := x66\<rparr>) = session_ok s"
  "session_ok (s\<lparr>default_prompt := x67\<rparr>) = session_ok s"
  "session_ok (s\<lparr>prompt_counter := x68\<rparr>) = session_ok s"
  "session_ok (s\<lparr>full_username := x69\<rparr>) = session_ok s"
  "session_ok (s\<lparr>part_username := x70\<rparr>) = session_ok s"
  "session_ok (s\<lparr>server_version := x71\<rparr>) = session_ok s" "session_ok (s\<lparr>ht := x72\<rparr>) = session_ok s"
  "session_ok (s\<lparr>pl_last_type := x73\<rparr>) = session_ok s"
  "session_ok (s\<lparr>pl_last_object := x74\<rparr>) = session_ok s"
  "session_ok (s\<lparr>pl_last_schema := x75\<rparr>) = session_ok s" "session_ok (s\<lparr>dbms_stmt := x76\<rparr>) = session_ok s"
  "session_ok (s\<lparr>dbms_prepared := x77\<rparr>) = session_ok s"
  by (simp_all add: session_ok_def)

lemma session_ok_screen: "session_ok s \<Longrightarrow> console_ok (screen s)"
  "session_ok s \<Longrightarrow> session_ok (s\<lparr>screen := c\<rparr>) = console_ok c"
  by (simp_all add: session_ok_def)

lemma session_ok_screen_upd [simp]: "console_ok c \<Longrightarrow> session_ok s \<Longrightarrow> session_ok (s\<lparr>screen := c\<rparr>)"
  "session_ok s \<Longrightarrow> ch \<noteq> NUL \<Longrightarrow> session_ok (s\<lparr>define_char_oracle := ch\<rparr>)"
  by (simp_all add: session_ok_def)

lemma console_ok_simps [simp]:
  "console_ok (put f t c) = console_ok c" "console_ok (tee_puts t f c) = console_ok c"
  "console_ok (tee_fprintf f t c) = console_ok c" "console_ok (tee_fputs t f c) = console_ok c"
  "console_ok (tee_putc ch f c) = console_ok c" "console_ok (tee_outfile t c) = console_ok c"
  "console_ok (c\<lparr>PAGER := p\<rparr>) = console_ok c" "console_ok (c\<lparr>opt_outfile := o'\<rparr>) = console_ok c"
  "console_ok (c\<lparr>obclient_num_array := a\<rparr>) = console_ok c" "console_ok (c\<lparr>str_num_object := n\<rparr>) = console_ok c"
  by (simp_all add: console_ok_def put_def tee_puts_def tee_fprintf_def tee_fputs_def tee_putc_def tee_outfile_def Let_def)

lemma console_ok_put_info [simp]: "console_ok c \<Longrightarrow> console_ok (snd (put_info i str type err st m c))"
  by (simp add: put_info_def Let_def case_prod_beta split: option.split)

lemma session_ok_say [simp]: "session_ok s \<Longrightarrow> session_ok (snd (say str type s))"
  by (simp add: say_def case_prod_beta session_ok_screen)

lemma session_ok_shown [simp]: "(\<And>c. console_ok c \<Longrightarrow> console_ok (f c)) \<Longrightarrow> session_ok s \<Longrightarrow> session_ok (shown f s)"
  by (simp add: shown_def session_ok_screen)

text \<open>The rules the preservation proofs below are made of.\<close>

named_theorems ok_intros \<open>preservation of well-formed sessions\<close>

declare wp_if [ok_intros]

lemma ok_if [ok_intros]: "(c \<Longrightarrow> session_ok a) \<Longrightarrow> (\<not> c \<Longrightarrow> session_ok b) \<Longrightarrow> session_ok (if c then a else b)"
  by simp

lemma ok_case_option [ok_intros]: "(x = None \<Longrightarrow> session_ok a) \<Longrightarrow> (\<And>y. x = Some y \<Longrightarrow> session_ok (f y)) \<Longrightarrow> session_ok (case x of None \<Rightarrow> a | Some y \<Rightarrow> f y)"
  by (simp split: option.split)

lemma ok_case_bool [ok_intros]: "session_ok a \<Longrightarrow> session_ok b \<Longrightarrow> session_ok (case x of True \<Rightarrow> a | False \<Rightarrow> b)"
  by (simp split: bool.split)

lemma ok_pair_if: "session_ok (snd a) \<Longrightarrow> session_ok (snd b) \<Longrightarrow> session_ok (snd (if c then a else b))"
  by simp

lemma wp_session: "session_ok s \<Longrightarrow> (\<And>s'. session_ok s' \<Longrightarrow> P s') \<Longrightarrow> wp P (Some s)"
  by simp

lemma wp_state: "session_ok s \<Longrightarrow> (\<And>e s'. session_ok s' \<Longrightarrow> P (e, s')) \<Longrightarrow> wp P (Some (e, s))"
  by simp

lemma wp_pair [ok_intros]:
  "session_ok (snd x) \<Longrightarrow> (\<And>e s'. session_ok s' \<Longrightarrow> P (e, s')) \<Longrightarrow> wp P (Some x)"
  by (cases x) simp

lemma wp_triple: "session_ok (snd x) \<Longrightarrow> (\<And>b e s'. session_ok s' \<Longrightarrow> P (b, e, s')) \<Longrightarrow> wp P (Some (b, x))"
  by (cases x) simp

section \<open>The screen\<close>

definition safe_act :: "act \<Rightarrow> bool" where
  "safe_act p \<longleftrightarrow> (\<forall>c. console_ok c \<longrightarrow> wp console_ok (p c))"

lemma acts_safe: "\<forall>p \<in> set ps. safe_act p \<Longrightarrow> safe_act (acts ps)"
proof (induction ps)
  case (Cons p ps)
  have "wp console_ok (acts (p # ps) c)" if "console_ok c" for c
  proof -
    have "wp console_ok (p c)" and "\<And>c. console_ok c \<Longrightarrow> wp console_ok (acts ps c)"
      using Cons that by (simp_all add: safe_act_def)
    then show ?thesis unfolding acts.simps wp_option by (blast intro: wp_mono wp_simps)
  qed
  then show ?case by (simp add: safe_act_def)
qed (simp add: safe_act_def acts.simps)

lemma basic_safe [simp]: "safe_act (tee t)" "safe_act (tee_line t)" "safe_act (raw t)"
  by (simp_all add: safe_act_def tee_def tee_line_def raw_def)

lemma fst_simps: "fst (Let e f) = Let e (\<lambda>x. fst (f x))" "fst (if c then a else b) = (if c then fst a else fst b)"
  "fst (case p of (x, y) \<Rightarrow> g x y) = (case p of (x, y) \<Rightarrow> fst (g x y))" "Let e (\<lambda>x. d) = d"
  "(if c then d else d) = d" "(case p of (x, y) \<Rightarrow> d) = d"
  by (simp_all add: Let_def case_prod_beta)

lemma format_width: "format_fix_width_num w arr str = Some (w', r) \<Longrightarrow> w' = num_width w"
  "format_fix_width_num_binary w arr m str = Some (w', t) \<Longrightarrow> w' = num_width w"
proof -
  have "map_option fst (format_fix_width_num w arr str) = map_option (\<lambda>_. num_width w) (parse_normal_number str)"
    unfolding format_fix_width_num_def Let_def [of "num_width w"] Let_def [of "memset _ _ _"] option.map_comp comp_def
    by (simp only: fst_simps fst_conv)
  then show "format_fix_width_num w arr str = Some (w', r) \<Longrightarrow> w' = num_width w" by (cases "parse_normal_number str") auto
  have "map_option fst (format_fix_width_num_binary w arr m str) = map_option (\<lambda>_. num_width w) (parse_binary_number str)"
    unfolding format_fix_width_num_binary_def Let_def [of "num_width w"] Let_def [of "memset _ _ _"] option.map_comp comp_def
    by (simp only: fst_simps fst_conv)
  then show "format_fix_width_num_binary w arr m str = Some (w', t) \<Longrightarrow> w' = num_width w" by (cases "parse_binary_number str") auto
qed

lemma with_num_safe: "(\<And>t. safe_act (k t)) \<Longrightarrow> safe_act (with_num str k)"
  "(\<And>t. safe_act (k t)) \<Longrightarrow> safe_act (with_num_binary str k)"
  by (auto simp: safe_act_def with_num_def with_num_binary_def console_ok_def num_width_def
    split: option.split dest!: format_width)

lemma cell_safe [simp]: "safe_act (print_as_hex t n)" "safe_act (print_as_hex_oracle t n)" "safe_act (tee_print_sized_data t n r)"
  "safe_act (xmlencode_print x)" "safe_act (vertical_text cfg f t)" "safe_act (safe_put_field cfg x)" "safe_act (print_field_types cfg res)"
  by (simp_all add: print_as_hex_def print_as_hex_oracle_def tee_print_sized_data_def xmlencode_print_def vertical_text_def
    safe_put_field_def print_field_types_def Let_def acts_safe case_prod_beta split: option.split)

lemma safe_if: "safe_act a \<Longrightarrow> safe_act b \<Longrightarrow> safe_act (if c then a else b)"
  by simp

lemma field_safe [simp]: "safe_act (table_cell cfg f x)" "safe_act (markup_cell cfg f t x)" "safe_act (tab_cell cfg f x)"
  unfolding table_cell_def markup_cell_def tab_cell_def Let_def by (intro safe_if with_num_safe cell_safe)+

lemma vertical_safe [simp]: "\<forall>p \<in> set (vertical_cell cfg n f x). safe_act p"
  unfolding vertical_cell_def by (cases x) (auto simp: with_num_safe)

lemma row_cells_safe [simp]: "\<forall>p \<in> set (row_cells cfg b fs xs). safe_act p"
  by (induction cfg b fs xs rule: row_cells.induct) auto

lemma tab_names_safe [simp]: "\<forall>p \<in> set (tab_names b fs). safe_act p"
  by (induction b fs rule: tab_names.induct) auto

lemma row_safe [simp]: "\<forall>p \<in> set (table_row cfg fs xs). safe_act p" "\<forall>p \<in> set (html_head f). safe_act p"
  "\<forall>p \<in> set (html_row cfg fs xs). safe_act p" "\<forall>p \<in> set (xml_field cfg f x). safe_act p"
  "\<forall>p \<in> set (tab_row cfg fs xs). safe_act p"
  by (simp_all add: table_row_def html_head_def html_row_def xml_field_def tab_row_def ball_Un case_prod_beta
    safe_act_def [of "\<lambda>c. None"] split: list.split)

lemma printer_safe [simp]: "safe_act (print_table_data cfg r)" "safe_act (print_table_data_html cfg r)"
  "safe_act (print_table_data_xml cfg b r)" "safe_act (print_table_data_vertically cfg r)" "safe_act (print_tab_data cfg r)"
  unfolding print_table_data_def print_table_data_html_def print_table_data_xml_def print_table_data_vertically_def print_tab_data_def Let_def
  by (simp_all add: acts_safe ball_Un case_prod_beta)

section \<open>Settings and variables\<close>

lemma session_ok_tell [simp]: "session_ok s \<Longrightarrow> session_ok (tell str type s)"
  by (simp add: tell_def)

lemma session_ok_malloc [simp]: "session_ok (snd (malloc s)) = session_ok s" "global_define_map (snd (malloc s)) = global_define_map s"
  by (simp_all add: malloc_def split: list.split)

lemma session_ok_defines: "session_ok s \<Longrightarrow> session_ok (s\<lparr>global_define_map := m\<rparr>) = defines_ok m" "session_ok s \<Longrightarrow> defines_ok (global_define_map s)"
  by (simp_all add: session_ok_def)

lemma session_ok_add_define:
  "session_ok s \<Longrightarrow> find_define k (global_define_map s) = None \<Longrightarrow> session_ok (add_define k v s)"
  by (auto simp: add_define_def Let_def case_prod_beta session_ok_defines define_map_insert_at split: list.split)

lemma session_ok_set_key_value [simp]: "session_ok s \<Longrightarrow> session_ok (set_key_value k v s)"
  by (auto simp: set_key_value_def Let_def case_prod_beta session_ok_defines session_ok_add_define defines_ok_change split: option.split)

lemma session_ok_display [simp]: "session_ok s \<Longrightarrow> session_ok (display_key_value s)"
proof -
  have "session_ok s \<Longrightarrow> session_ok (fold (\<lambda>(k, v). tell (f k v) INFO_INFO) m s)" for f m and s :: "'a oracle_client_scheme"
    by (induction m arbitrary: s) (simp_all add: case_prod_beta)
  then show "session_ok s \<Longrightarrow> session_ok (display_key_value s)" by (simp add: display_key_value_def)
qed

lemma session_ok_define_value: "session_ok s \<Longrightarrow> session_ok (define_value k p s)"
  unfolding define_value_def Let_def by (intro ok_if session_ok_tell session_ok_set_key_value)

lemma session_ok_define [simp]: "session_ok s \<Longrightarrow> session_ok (define_cmd_oracle line s)"
  unfolding define_cmd_oracle_def Let_def by (intro ok_if session_ok_tell session_ok_display session_ok_define_value)

lemma get_input_str_ok [ok_intros]:
  "session_ok s \<Longrightarrow> (\<And>v s'. session_ok s' \<Longrightarrow> P (v, s')) \<Longrightarrow> wp P (get_input_str k n s)"
  by (auto simp: get_input_str_def Let_def case_prod_beta session_ok_add_define shown_def session_ok_screen split: option.split)

lemma scan_reference_ok [ok_intros]:
  "session_ok s \<Longrightarrow> (\<And>b q st s'. session_ok s' \<Longrightarrow> P (b, q, st, s')) \<Longrightarrow> wp P (scan_reference cs d p st s)"
  by (auto simp: scan_reference_def Let_def case_prod_beta wp_option intro!: ok_intros)

lemma session_ok_scan_char [simp]: "session_ok s \<Longrightarrow> session_ok (snd (snd (scan_char display p st s)))"
  by (simp add: scan_char_def show_lines_def Let_def)

lemma scan_loop_result:
  "session_ok s \<Longrightarrow> scan_loop display cs d p st s = Some (st', s') \<Longrightarrow> session_ok s'"
proof (induction "length p" arbitrary: p st s rule: less_induct)
  case less
  show ?case
  proof (cases "p \<noteq> [] \<and> hd p = d")
    case True
    then obtain b q st1 s1 where r: "scan_reference cs d p st s = Some (b, q, st1, s1)"
      using less.prems(2) by (subst (asm) scan_loop.simps) (auto split: option.splits)
    have "wp (\<lambda>(b, q, st, s). session_ok s) (scan_reference cs d p st s)"
      by (rule scan_reference_ok [OF less.prems(1)]) simp
    then have s1: "session_ok s1" by (simp add: r)
    have q: "length q < length p" using scan_reference_length [OF r] True by simp
    then have q': "length (fst (scan_char display q st1 s1)) < length p" by (simp add: scan_char_length)
    show ?thesis
      using less.prems(2) True less.hyps [OF q s1] less.hyps [OF q' session_ok_scan_char [OF s1]]
      by (subst (asm) scan_loop.simps) (auto simp: r case_prod_beta split: if_splits)
  next
    case False
    show ?thesis
    proof (cases "p = []")
      case True
      then show ?thesis using less.prems by (simp add: scan_loop.simps)
    next
      case p: False
      then have "length (fst (scan_char display p st s)) < length p" by (simp add: scan_char_length)
      from less.hyps [OF this session_ok_scan_char [OF less.prems(1)]] show ?thesis
        using False p less.prems(2) by (subst (asm) scan_loop.simps) (simp add: case_prod_beta)
    qed
  qed
qed

lemma scan_define_ok [ok_intros]:
  "session_ok s \<Longrightarrow> (\<And>t s'. session_ok s' \<Longrightarrow> P (t, s')) \<Longrightarrow> wp P (scan_define_oracle b display s)"
  by (auto simp: scan_define_oracle_def case_prod_beta intro!: wp_any dest: scan_loop_result)

lemma session_ok_set_switch [simp]:
  "(\<And>b s. session_ok (upd b s) = session_ok s) \<Longrightarrow> session_ok s \<Longrightarrow> session_ok (set_switch name upd start s)"
  by (simp add: set_switch_def)

lemma session_ok_set_define: "session_ok s \<Longrightarrow> start \<noteq> [] \<Longrightarrow> is_cstr start \<Longrightarrow> session_ok (set_define start s)"
  by (cases start) (auto simp: set_define_def Let_def)

lemma session_ok_set_feedback [simp]: "session_ok s \<Longrightarrow> session_ok (set_feedback start s)"
  by (simp add: set_feedback_def Let_def)

lemma session_ok_set_numwidth [simp]: "session_ok s \<Longrightarrow> session_ok (set_numwidth start s)"
  by (auto simp: set_numwidth_def Let_def console_ok_def session_ok_screen)

lemma set_named_ok:
  assumes "\<And>P q s. session_ok s \<Longrightarrow> (\<And>x s'. session_ok s' \<Longrightarrow> P (x, s')) \<Longrightarrow> wp P (query q s)"
    and "session_ok s" and "start \<noteq> []" and "is_cstr start"
  shows "(\<And>x s'. session_ok s' \<Longrightarrow> P (x, s')) \<Longrightarrow> wp P (set_named query name n start s)"
  unfolding set_named_def set_serveroutput_def Let_def using assms
  by (intro wp_if) (auto simp: session_ok_set_define wp_option intro!: wp_if)

lemma set_cmd_ok:
  assumes "\<And>P q s. session_ok s \<Longrightarrow> (\<And>x s'. session_ok s' \<Longrightarrow> P (x, s')) \<Longrightarrow> wp P (query q s)"
    and "session_ok s" and "is_cstr str"
  shows "(\<And>x s'. session_ok s' \<Longrightarrow> P (x, s')) \<Longrightarrow> wp P (set_cmd_oracle query str len s)"
proof (cases "get_trim_comment_sql str len")
  case None
  assume "\<And>x s'. session_ok s' \<Longrightarrow> P (x, s')"
  then show ?thesis using None assms(2) by (simp add: set_cmd_oracle_def)
next
  case (Some p)
  assume P: "\<And>x s'. session_ok s' \<Longrightarrow> P (x, s')"
  have "is_cstr p" using assms(3) Some by (rule is_cstr_trim)
  then have "is_cstr (jump_space cs (drop n (jump_space cs (drop m (jump_space cs p)))))" for cs n m
    by (simp add: is_cstr_jump_space)
  then show ?thesis
    unfolding set_cmd_oracle_def Let_def Some option.case using P assms(2)
    by (intro wp_if set_named_ok assms(1)) simp_all
qed

section \<open>The scanner\<close>

text \<open>What the scanner and the main loop rely on: a command keeps a session well-formed.\<close>

locale keeper =
  fixes exec :: "'a oracle_client_ext handler"
  assumes exec_keeps: "session_ok s \<Longrightarrow> wp (\<lambda>(ret, s). session_ok s) (exec f r a s)"
begin

lemma exec_ok: "session_ok s \<Longrightarrow> (\<And>ret s'. session_ok s' \<Longrightarrow> P (ret, s')) \<Longrightarrow> wp P (exec f r a s)"
  by (rule wp_mono [OF exec_keeps]) auto

lemma run_found_kept: "session_ok s \<Longrightarrow> (\<And>ret s'. session_ok s' \<Longrightarrow> P (ret, s')) \<Longrightarrow> wp P (run_found exec r com s)"
  by (auto simp: run_found_def intro: exec_ok split: option.split)

lemma execute_cmd_kept: "session_ok s \<Longrightarrow> (\<And>b s'. session_ok s' \<Longrightarrow> P (b, s')) \<Longrightarrow> wp P (execute_cmd exec r s)"
  by (auto simp: execute_cmd_def wp_option intro!: run_found_kept)

lemma connect_mysql_tenant_kept: "session_ok s \<Longrightarrow> (\<And>s'. session_ok s' \<Longrightarrow> P s') \<Longrightarrow> wp P (connect_mysql_tenant exec s)"
  by (auto simp: connect_mysql_tenant_def wp_option Let_def intro!: exec_ok)

end

text \<open>The state in an outcome of a branch of the scanner.\<close>

primrec flow_state :: "'s flow \<Rightarrow> 's" where
  "flow_state (Next p l s) = s"
| "flow_state (Stop l s) = s"
| "flow_state (Quit l s) = s"

context keeper
begin

lemma al_command_kept:
  "session_ok s \<Longrightarrow> (\<And>fl. session_ok (flow_state fl) \<Longrightarrow> P fl) \<Longrightarrow> wp P (al_command exec i pos l s)"
  by (cases "c_func (commands ! i)") (auto simp: al_command_def flush_def wp_option Let_def intro!: exec_ok wp_if)

lemma al_backslash_kept:
  "session_ok s \<Longrightarrow> (\<And>fl. session_ok (flow_state fl) \<Longrightarrow> P fl) \<Longrightarrow> wp P (al_backslash exec cmd pos l s)"
  unfolding al_backslash_def Let_def
  by (auto simp: unknown_command_def case_prod_beta intro!: wp_if al_command_kept split: option.split)

lemma al_run_kept:
  "session_ok s \<Longrightarrow> (\<And>fl. session_ok (flow_state fl) \<Longrightarrow> P fl) \<Longrightarrow> wp P (al_run exec pos l s)"
  unfolding al_run_def Let_def
  by (auto simp: flush_def wp_option intro!: wp_if run_found_kept ok_if)

lemma al_statement_kept:
  "session_ok s \<Longrightarrow> (\<And>fl. session_ok (flow_state fl) \<Longrightarrow> P fl) \<Longrightarrow> wp P (al_statement exec pos l s)"
  unfolding al_statement_def Let_def
  by (auto simp: flush_def intro!: wp_if al_run_kept)

lemma al_line_comment_kept:
  "session_ok s \<Longrightarrow> (\<And>fl. session_ok (flow_state fl) \<Longrightarrow> P fl) \<Longrightarrow> wp P (al_line_comment exec pos l s)"
  unfolding al_line_comment_def Let_def flush_def prod.case
  by (intro wp_if) (auto simp: wp_option intro!: wp_if exec_ok connect_mysql_tenant_kept)

lemma al_step_kept:
  "session_ok s \<Longrightarrow> (\<And>fl. session_ok (flow_state fl) \<Longrightarrow> P fl) \<Longrightarrow> wp P (al_step exec slash cmd pos l s)"
  unfolding al_step_def Let_def flush_def prod.case
  by (intro wp_if al_backslash_kept al_statement_kept al_line_comment_kept) (simp_all add: al_char_def Let_def)

end

context keeper
begin

lemma al_loop_result:
  assumes "al_loop exec slash cmd pos l s = Some y" and "session_ok s"
  shows "session_ok (snd (snd y))"
proof -
  let ?P = "\<lambda>(e :: 'a oracle_client_ext handler) sl c p l s y. e = exec \<longrightarrow> session_ok s \<longrightarrow> session_ok (snd (snd y))"
  have "?P exec slash cmd pos l s y"
  proof (rule al_loop.raw_induct [where P = ?P, OF _ assms(1)], intro impI)
    fix g :: "'a oracle_client_ext handler \<Rightarrow> bool \<Rightarrow> bool \<Rightarrow> string \<Rightarrow> lexer \<Rightarrow> 'a oracle_client_scheme \<Rightarrow> (bool \<times> lexer \<times> 'a oracle_client_scheme) option"
      and e sl c p l s y
    assume IH: "\<And>e sl c p l s y. g e sl c p l s = Some y \<Longrightarrow> e = exec \<longrightarrow> session_ok s \<longrightarrow> session_ok (snd (snd y))"
      and body: "(if p = [] then Some (False, l, s)
          else case al_step e sl c p l s of None \<Rightarrow> None
            | Some (Next pos l s) \<Rightarrow> g e sl c pos l s
            | Some (Stop l s) \<Rightarrow> Some (False, l, s)
            | Some (Quit l s) \<Rightarrow> Some (True, l, s)) = Some y"
      and e: "e = exec" and ok: "session_ok s"
    have step: "wp (\<lambda>fl. session_ok (flow_state fl)) (al_step exec sl c p l s)"
      by (rule al_step_kept [OF ok])
    show "session_ok (snd (snd y))"
      using body e ok step IH by (auto split: if_splits option.splits flow.splits)
  qed
  then show ?thesis using assms(2) by simp
qed

lemma al_loop_kept:
  "session_ok s \<Longrightarrow> (\<And>b l s'. session_ok s' \<Longrightarrow> P (b, l, s')) \<Longrightarrow> wp P (al_loop exec slash cmd pos l s)"
  by (rule wp_any) (use al_loop_result in fastforce)

lemma al_last_kept:
  "session_ok s \<Longrightarrow> (\<And>b l s'. session_ok s' \<Longrightarrow> P (b, l, s')) \<Longrightarrow> wp P (al_last exec l s)"
  by (cases "find_command (cstr (tmp_buffer s)) s") (auto simp: al_last_def wp_option intro!: wp_if run_found_kept)

lemma al_finish_kept:
  "session_ok s \<Longrightarrow> (\<And>b l s'. session_ok s' \<Longrightarrow> P (b, l, s')) \<Longrightarrow> wp P (al_finish exec tr l s)"
  unfolding al_finish_def Let_def by (auto intro!: wp_if al_last_kept)

lemma al_slash_kept:
  "session_ok s \<Longrightarrow> (\<And>b l s'. session_ok s' \<Longrightarrow> P (b, l, s')) \<Longrightarrow> wp P (al_slash exec slash line l s)"
  unfolding al_slash_def Let_def
  by (intro wp_if) (auto simp: wp_option nothing_to_run_def intro!: execute_cmd_kept split: bool.split)

lemma add_line_ok:
  "session_ok s \<Longrightarrow> (\<And>b l s'. session_ok s' \<Longrightarrow> P (b, l, s')) \<Longrightarrow> wp P (add_line exec line in_str ml tr s)"
  unfolding add_line_def Let_def
  by (intro wp_if) (auto simp: wp_option intro!: al_slash_kept al_loop_kept al_finish_kept split: bool.split option.split)

lemma run_oracle_command_ok:
  "session_ok s \<Longrightarrow> (\<And>st s'. session_ok s' \<Longrightarrow> P (st, s')) \<Longrightarrow> wp P (run_oracle_command exec line s)"
  unfolding run_oracle_command_def Let_def
  by (cases "command_text (charset_info s) (glob_buffer s @ line)")
    (auto simp: wp_option intro!: wp_if exec_ok scan_define_ok split del: if_split)

end

section \<open>Messages, pager, completion\<close>

lemma session_ok_sync [simp]: "session_ok (sync env s w) = session_ok s"
  by (simp add: sync_def)

lemma session_ok_call [simp]: "session_ok (snd (call env f s)) = session_ok s"
  by (simp add: call_def case_prod_beta)

lemma session_ok_set_buffer [simp]: "session_ok (set_buffer r b s) = session_ok s"
  by (simp add: set_buffer_def split: bufref.split)

lemma session_ok_note_info [simp]: "session_ok s \<Longrightarrow> session_ok (note_info t ty s)"
  by (simp add: note_info_def)

lemma session_ok_put_error [simp]: "session_ok s \<Longrightarrow> session_ok (snd (put_error_text e s))"
  "session_ok s \<Longrightarrow> session_ok (snd (put_error env s))" "session_ok s \<Longrightarrow> session_ok (snd (put_stmt_error env s))"
  by (simp_all add: put_error_def put_stmt_error_def put_error_text_def case_prod_beta session_ok_screen)

lemma printed_ok [ok_intros]:
  "session_ok s \<Longrightarrow> safe_act p \<Longrightarrow> (\<And>s'. session_ok s' \<Longrightarrow> P s') \<Longrightarrow> wp P (printed p s)"
  unfolding printed_def wp_simps by (rule wp_mono [of console_ok]) (simp_all add: safe_act_def session_ok_screen)

lemma session_ok_tees [simp]: "session_ok s \<Longrightarrow> session_ok (end_tee s)" "session_ok s \<Longrightarrow> session_ok (init_tee env n s)"
  "session_ok s \<Longrightarrow> session_ok (init_pager env s)"
  by (auto simp: end_tee_def init_tee_def init_pager_def Let_def case_prod_beta session_ok_screen split: bool.split)

lemma session_ok_get_current_db [simp]: "session_ok s \<Longrightarrow> session_ok (get_current_db env s)"
  unfolding get_current_db_def Let_def
  by (auto simp: case_prod_beta split: list.split option.split)

lemma session_ok_store_result [simp]: "session_ok s \<Longrightarrow> session_ok (snd (snd (mysql_store_result_for_lazy env s)))"
  by (auto simp: mysql_store_result_for_lazy_def case_prod_beta split: option.split)

lemma session_ok_table_words: "session_ok s \<Longrightarrow> session_ok (fold (table_words env) rs s)"
  by (induction rs arbitrary: s) (auto simp: table_words_def case_prod_beta split: option.split)

lemma session_ok_names [simp]: "session_ok s \<Longrightarrow> session_ok (database_names env s)" "session_ok s \<Longrightarrow> session_ok (snd (table_names env b s))"
  by (auto simp: database_names_def table_names_def Let_def case_prod_beta split: option.split)

lemma session_ok_build_hash [simp]: "session_ok s \<Longrightarrow> session_ok (build_completion_hash env b c s)"
  unfolding build_completion_hash_def Let_def
  by (auto simp: case_prod_beta session_ok_table_words split: option.split)

lemma session_ok_connection [simp]: "session_ok s \<Longrightarrow> session_ok (close_connection env s)" "session_ok s \<Longrightarrow> session_ok (connection_made env s)"
  "session_ok s \<Longrightarrow> session_ok (set_default_charset env s)" "session_ok (complete_user t s) = session_ok s"
  by (simp_all add: close_connection_def connection_made_def set_default_charset_def Let_def complete_user_def split: prod.split option.split)

lemma session_ok_real_connect [simp]: "session_ok s \<Longrightarrow> session_ok (snd (sql_real_connect env h d u p b s))"
  "session_ok s \<Longrightarrow> session_ok (snd (sql_real_connect_multi env as d u p s))"
  unfolding sql_real_connect_def sql_real_connect_multi_def Let_def
  by (auto simp: case_prod_beta split: bool.split option.split)

section \<open>Connecting\<close>

lemma sql_connect_loop_result:
  assumes "sql_connect_loop env h d u p b m n s = Some y" and "session_ok s"
  shows "session_ok (snd y)"
proof (rule sql_connect_loop.raw_induct [where P = "\<lambda>env h d u p b m n s y. session_ok s \<longrightarrow> session_ok (snd y)", OF _ assms(1), THEN mp, OF _ assms(2)], rule impI)
  fix g :: "'w env \<Rightarrow> cstring option \<Rightarrow> cstring option \<Rightarrow> cstring option \<Rightarrow> cstring option \<Rightarrow> bool \<Rightarrow> bool \<Rightarrow> nat \<Rightarrow> 'w session \<Rightarrow> (int \<times> 'w session) option"
    and env h d u p b m n s y
  assume IH: "\<And>env h d u p b m n s y. g env h d u p b m n s = Some y \<Longrightarrow> session_ok s \<longrightarrow> session_ok (snd y)"
    and body: "(case sql_real_connect env h d u p (wait_flag s) s of (error, s) \<Rightarrow>
        if error \<ge> 0 then Some (error, if n \<noteq> 0 then shown (tee_fputs [NL] STDERR) s else s)
        else if \<not> wait_flag s then Some (if ignore_errors s then -1 else 1, s)
        else
          let s = (if \<not> m \<and> \<not> b then shown (tee_fputs ''Waiting'' STDERR) s else s);
              s = sync env s (e_sleep env 5 (world s));
              s = (if \<not> b then shown (put STDERR ''.'') s else s)
          in g env h d u p b (m \<or> \<not> b) (if b then n else n + 1) s) = Some y"
    and ok: "session_ok s"
  let ?s = "snd (sql_real_connect env h d u p (wait_flag s) s)"
  have "session_ok ?s" using ok by simp
  then have "session_ok (if \<not> b then shown (put STDERR ''.'') (sync env t w) else sync env t w)"
    if "t = ?s \<or> t = shown (tee_fputs ''Waiting'' STDERR) ?s" for t w
    using that by auto
  then show "session_ok (snd y)"
    using body \<open>session_ok ?s\<close> IH by (auto simp: case_prod_beta Let_def split: if_splits)
qed

lemma sql_connect_ok [ok_intros]:
  "session_ok s \<Longrightarrow> (\<And>e s'. session_ok s' \<Longrightarrow> P (e, s')) \<Longrightarrow> wp P (sql_connect env h d u p b s)"
  unfolding sql_connect_def Let_def case_prod_beta
  by (intro wp_if wp_pair) (auto simp: session_ok_screen intro!: wp_any dest: sql_connect_loop_result)

lemma get_password_ok:
  assumes "session_ok s" and "get_password env p s = Some r"
  shows "session_ok (snd r)"
proof -
  let ?n = "LEAST n. key env (world s) n = CR"
  have "\<exists>n. key env (world s) n = CR" using assms(2) by (rule get_password_only_CR)
  then have "key env (world s) ?n = CR" "\<forall>m < ?n. key env (world s) m \<noteq> CR"
    by (rule LeastI_ex) (blast dest: not_less_Least)
  from get_password_CR [OF this, of p] show ?thesis using assms by auto
qed

lemma enter_password_ok [ok_intros]: "session_ok s \<Longrightarrow> (\<And>s'. session_ok s' \<Longrightarrow> P s') \<Longrightarrow> wp P (enter_password env s)"
  unfolding enter_password_def wp_simps
  by (rule wp_any) (auto simp: case_prod_beta dest!: get_password_ok [rotated])

lemma session_ok_connect_host [simp]: "session_ok s \<Longrightarrow> session_ok (snd (connect_port t s))" "session_ok s \<Longrightarrow> session_ok (snd (connect_host b s))"
  "session_ok s \<Longrightarrow> session_ok (connect_database b s)"
  by (auto simp: connect_host_def connect_port_def connect_database_def Let_def case_prod_beta split: option.split)

lemma connect_args_ok [ok_intros]:
  "session_ok s \<Longrightarrow> (\<And>b s'. session_ok s' \<Longrightarrow> P (b, s')) \<Longrightarrow> wp P (connect_args env t n b s)"
  unfolding connect_args_def connect_user_def connect_oracle_user_def Let_def
  by (auto simp: case_prod_beta intro!: wp_if ok_intros split: bool.split)

locale session_keeper = keeper exec for exec :: "'w cmd"
begin

lemma start_login_sql_ok: "session_ok s \<Longrightarrow> (\<And>s'. session_ok s' \<Longrightarrow> P s') \<Longrightarrow> wp P (start_login_sql env exec r path s)"
  by (auto simp: start_login_sql_def intro!: wp_if exec_ok split: option.split)

lemma connect_done_ok: "session_ok s \<Longrightarrow> (\<And>e s'. session_ok s' \<Longrightarrow> P (e, s')) \<Longrightarrow> wp P (connect_done env exec b e s)"
  unfolding connect_done_def Let_def by (auto intro!: wp_if start_login_sql_ok)

end

lemma use_current_db_ok [ok_intros]: "session_ok s \<Longrightarrow> (\<And>s'. session_ok s' \<Longrightarrow> P s') \<Longrightarrow> wp P (use_current_db env s)"
  unfolding use_current_db_def Let_def case_prod_beta by (intro wp_if) auto

lemma connect_again_ok [ok_intros]:
  "session_ok s \<Longrightarrow> (\<And>e s'. session_ok s' \<Longrightarrow> P (e, s')) \<Longrightarrow> wp P (connect_again env r u h n s)"
  unfolding connect_again_def Let_def wp_simps by (intro sql_connect_ok) (auto intro!: wp_if ok_intros)

context session_keeper
begin

lemma com_connect_ok:
  assumes "session_ok s" and P: "\<And>e s'. session_ok s' \<Longrightarrow> P (e, s')"
  shows "wp P (com_connect env exec r line s)"
proof -
  define t where "t = (let s = s\<lparr>dbms_serveroutput := False, dbms_prepared := False\<rparr>
    in if dbms_stmt s then sync env (s\<lparr>dbms_stmt := False\<rparr>) (e_stmt_done env (world s)) else s)"
  have t: "session_ok t" using assms(1) by (simp add: t_def Let_def)
  show ?thesis
  proof (cases "r = None \<or> line = None")
    case True
    then show ?thesis
      unfolding com_connect_def Let_def t_def [unfolded Let_def, symmetric] wp_simps using t P
      by (intro wp_any [of "current_user s"] wp_any [of "current_host_success s"])
        (auto intro!: sql_connect_ok connect_done_ok split: option.split)
  next
    case False
    then obtain b tx where a: "r = Some b" "line = Some tx" by auto
    show ?thesis
      unfolding com_connect_def Let_def t_def [unfolded Let_def, symmetric] case_prod_beta a option.case bind.simps wp_simps
      by (rule wp_any, rule wp_any)
        (intro wp_if wp_bind scan_define_ok wp_pair connect_args_ok connect_again_ok connect_done_ok P, simp_all add: t)
  qed
qed

end

section \<open>Queries\<close>

lemma session_ok_com_rehash [simp]: "session_ok s \<Longrightarrow> session_ok (snd (com_rehash env s))"
  by (simp add: com_rehash_def)

context session_keeper
begin

lemma reconnect_ok:
  assumes "session_ok s" and P: "\<And>e s'. session_ok s' \<Longrightarrow> P (e, s')"
  shows "wp P (reconnect env exec s)"
proof -
  have "P x" if "session_ok (snd x)" for x using P that by (cases x) simp
  then show ?thesis
    using assms(1) unfolding reconnect_def by (intro wp_bind) (simp_all add: com_connect_ok case_prod_beta)
qed

lemma real_query_loop_result:
  assumes "session_ok s"
  shows "wp (\<lambda>(e, s). session_ok s) (real_query_loop env exec q n s)"
  using assms
proof (induction "2 - n" arbitrary: n s rule: less_induct)
  case less
  have IH: "session_ok s' \<Longrightarrow> \<not> Suc 0 < n \<Longrightarrow> wp (\<lambda>(e, s). session_ok s) (real_query_loop env exec q (Suc n) s')" for s'
    by (rule less.hyps) auto
  show ?case
    using less.prems by (subst real_query_loop.simps) (auto simp: case_prod_beta intro!: wp_if reconnect_ok IH)
qed

lemma real_query_ok:
  "session_ok s \<Longrightarrow> (\<And>e s'. session_ok s' \<Longrightarrow> P (e, s')) \<Longrightarrow> wp P (mysql_real_query_for_lazy env exec q s)"
  unfolding mysql_real_query_for_lazy_def by (rule wp_mono [OF real_query_loop_result]) auto

lemma print_warnings_ok: "session_ok s \<Longrightarrow> (\<And>s'. session_ok s' \<Longrightarrow> P s') \<Longrightarrow> wp P (print_warnings env exec s)"
  unfolding print_warnings_def Let_def wp_simps case_prod_beta
  by (rule real_query_ok, assumption, rule wp_if, simp)
    (auto intro!: wp_if wp_bind wp_any [of "row_code _"] printed_ok acts_safe split: option.split list.split)

end

lemma session_ok_com_print [simp]: "session_ok s \<Longrightarrow> session_ok (snd (com_print r s))"
  by (simp add: com_print_def Let_def)

lemma handle_oracle_sql_ok [ok_intros]: "session_ok s \<Longrightarrow> (\<And>s'. session_ok s' \<Longrightarrow> P s') \<Longrightarrow> wp P (handle_oracle_sql env r s)"
  unfolding handle_oracle_sql_def Let_def
  by (auto simp: remember_object_def intro!: wp_any [of "show_errors_args _ _ _"] split: option.split)

lemma session_ok_set_param [simp]: "session_ok s \<Longrightarrow> session_ok (snd (set_param_oracle f t s))"
  by (simp add: set_param_oracle_def)

lemma session_ok_stmt_calls [simp]: "session_ok s \<Longrightarrow> session_ok (snd (stmt_calls env cs s))"
  by (induction cs arbitrary: s) (auto simp: case_prod_beta)

lemma print_dbms_line_ok [ok_intros]: "session_ok s \<Longrightarrow> (\<And>s'. session_ok s' \<Longrightarrow> P s') \<Longrightarrow> wp P (print_dbms_line env e s)"
  unfolding print_dbms_line_def Let_def case_prod_beta by (intro wp_if) simp_all

lemma get_line_once_ok [ok_intros]:
  "session_ok s \<Longrightarrow> (\<And>e s'. session_ok s' \<Longrightarrow> P (e, s')) \<Longrightarrow> wp P (get_line_once env e s)"
  unfolding get_line_once_def Let_def case_prod_beta
  by (intro wp_if wp_bool wp_bind wp_pair print_dbms_line_ok session_ok_put_error session_ok_stmt_calls) (simp_all add: ok_pair_if)

lemma dbms_loop_result:
  assumes "call_dbms_get_line env e s = Some y" and "session_ok s"
  shows "session_ok y"
proof (rule call_dbms_get_line.raw_induct [where P = "\<lambda>env e s y. session_ok s \<longrightarrow> session_ok y", OF _ assms(1), THEN mp, OF _ assms(2)], rule impI)
  fix g :: "'w env \<Rightarrow> int \<Rightarrow> 'w session \<Rightarrow> 'w session option" and env e s y
  assume IH: "\<And>env e s y. g env e s = Some y \<Longrightarrow> session_ok s \<longrightarrow> session_ok y"
    and body: "do { (inner_error, s) \<leftarrow> get_line_once env e s;
          if inner_error = 0 \<and> fst (e_dbms_row env (world s)) = CHR ''0'' then g env e s else Some s } = Some y"
    and ok: "session_ok s"
  have "wp (session_ok \<circ> snd) (get_line_once env e s)" using ok by (rule get_line_once_ok) simp
  then show "session_ok y" using body IH by (auto simp: bind_eq_Some_conv case_prod_beta split: if_splits)
qed

lemma dbms_ok [ok_intros]: "session_ok s \<Longrightarrow> (\<And>s'. session_ok s' \<Longrightarrow> P s') \<Longrightarrow> wp P (call_dbms_get_line env e s)"
  by (rule wp_any) (simp add: dbms_loop_result)

lemma session_ok_fetch_result [simp]: "session_ok s \<Longrightarrow> session_ok (snd (snd (snd (fetch_result env e s))))"
  unfolding fetch_result_def case_prod_beta by simp

lemma print_result_safe [simp]: "safe_act (print_result stmt res s)"
  by (simp add: print_result_def Let_def)

lemma session_ok_show_feedback [simp]: "session_ok s \<Longrightarrow> session_ok (show_feedback env b r s)"
  unfolding show_feedback_def Let_def by (intro ok_intros session_ok_note_info) simp_all

lemma show_result_ok [ok_intros]:
  "session_ok s \<Longrightarrow> (\<And>b e s'. session_ok s' \<Longrightarrow> P (b, e, s')) \<Longrightarrow> wp P (show_result env stmt e r s)"
  unfolding show_result_def Let_def case_prod_beta
  by (cases r; simp only: option.case; intro wp_if wp_bind printed_ok wp_triple) simp_all

lemma one_result_ok [ok_intros]:
  "session_ok s \<Longrightarrow> (\<And>e n s'. session_ok s' \<Longrightarrow> P (e, n, s')) \<Longrightarrow> wp P (one_result env stmt e r s)"
  unfolding one_result_def Let_def case_prod_beta wp_simps
  by (rule show_result_ok) (simp_all add: ok_pair_if)

lemma result_loop_result:
  assumes "result_loop env stmt e n s = Some y" and "session_ok s"
  shows "session_ok (snd (snd y))"
proof (rule result_loop.raw_induct [where P = "\<lambda>env stmt e n s y. session_ok s \<longrightarrow> session_ok (snd (snd y))", OF _ assms(1), THEN mp, OF _ assms(2)], rule impI)
  fix g :: "'w env \<Rightarrow> cstring \<Rightarrow> int \<Rightarrow> nat \<Rightarrow> 'w session \<Rightarrow> (int \<times> nat \<times> 'w session) option" and env stmt e n s y
  assume IH: "\<And>env stmt e n s y. g env stmt e n s = Some y \<Longrightarrow> session_ok s \<longrightarrow> session_ok (snd (snd y))"
    and body: "(case fetch_result env e s of (go_on, error, result, s) \<Rightarrow>
        if \<not> go_on then Some (error, n, s)
        else
          do { (error, warnings, s) \<leftarrow> one_result env stmt error result s;
               case call env (e_next_result env) s of (err, s) \<Rightarrow>
                 if err = 0 then g env stmt error warnings s
                 else if err \<ge> 1 then (case put_error env s of (error, s) \<Rightarrow> Some (error, warnings, s))
                 else Some (error, warnings, s) }) = Some y"
    and ok: "session_ok s"
  have "wp (session_ok \<circ> snd \<circ> snd) (one_result env stmt err r (snd (snd (snd (fetch_result env e s)))))" for err r
    using ok by (intro one_result_ok) simp_all
  then show "session_ok (snd (snd y))"
    using body IH ok by (cases y) (auto simp: bind_eq_Some_conv case_prod_beta wp_def split: if_splits)
qed

lemma result_loop_ok [ok_intros]:
  "session_ok s \<Longrightarrow> (\<And>e n s'. session_ok s' \<Longrightarrow> P (e, n, s')) \<Longrightarrow> wp P (result_loop env stmt e n s)"
  by (rule wp_any) (use result_loop_result in fastforce)

lemma session_ok_go_done [simp]: "session_ok s \<Longrightarrow> session_ok (go_done r s)"
  by (simp add: go_done_def fix_history_def Let_def case_prod_beta)

lemma session_ok_error_sqlstr [simp]: "session_ok s \<Longrightarrow> session_ok (print_error_sqlstr p t s)"
  by (simp add: print_error_sqlstr_def)

context session_keeper
begin

lemma go_end_ok: "session_ok s \<Longrightarrow> (\<And>e s'. session_ok s' \<Longrightarrow> P (e, s')) \<Longrightarrow> wp P (go_end env exec tx e n s)"
  unfolding go_end_def Let_def
  by (intro wp_bind wp_if print_warnings_ok dbms_ok ok_if ok_case_option session_ok_get_current_db session_ok_error_sqlstr wp_state wp_session) assumption+

lemma send_statement_ok:
  "session_ok s \<Longrightarrow> (\<And>e s'. session_ok s' \<Longrightarrow> P (e, s')) \<Longrightarrow> wp P (send_statement env exec r s)"
  unfolding send_statement_def Let_def case_prod_beta
  by (intro wp_bind wp_if real_query_ok result_loop_ok go_end_ok) simp_all

lemma com_go_oracle_ok:
  "session_ok s \<Longrightarrow> (\<And>b s'. session_ok s' \<Longrightarrow> P (b, s')) \<Longrightarrow> wp P (com_go_oracle env exec r s)"
  unfolding com_go_oracle_def Let_def case_prod_beta
  by (intro wp_bind wp_if wp_session wp_state scan_define_ok set_cmd_ok real_query_ok handle_oracle_sql_ok ok_if)
    (simp_all add: ok_pair_if)

lemma com_go_ok:
  "session_ok s \<Longrightarrow> (\<And>e s'. session_ok s' \<Longrightarrow> P (e, s')) \<Longrightarrow> wp P (com_go env exec r s)"
  unfolding com_go_def Let_def case_prod_beta
  by (intro wp_bind wp_if wp_pair wp_state com_go_oracle_ok reconnect_ok send_statement_ok) simp_all

lemma com_ego_ok:
  "session_ok s \<Longrightarrow> (\<And>e s'. session_ok s' \<Longrightarrow> P (e, s')) \<Longrightarrow> wp P (com_ego env exec r s)"
  unfolding com_ego_def Let_def by (intro wp_bind com_go_ok) simp_all

end

section \<open>The prompt\<close>

lemma known_username_ok [ok_intros]: "session_ok s \<Longrightarrow> (\<And>s'. session_ok s' \<Longrightarrow> P s') \<Longrightarrow> wp P (known_username env s)"
  unfolding known_username_def init_username_def Let_def case_prod_beta
  by (auto intro!: wp_if wp_any [of "hd _"] split: option.split list.split)

lemma prompt_item_ok [ok_intros]:
  "session_ok s \<Longrightarrow> (\<And>t s'. session_ok s' \<Longrightarrow> P (t, s')) \<Longrightarrow> wp P (prompt_item env c p s)"
  unfolding prompt_item_def Let_def
  by (intro wp_if) (auto intro!: known_username_ok wp_any [of "name_or_none _"] split: option.split)

lemma prompt_loop_ok [ok_intros]:
  "session_ok s \<Longrightarrow> (\<And>t s'. session_ok s' \<Longrightarrow> P (t, s')) \<Longrightarrow> wp P (prompt_loop env p s)"
proof (induction "length p" arbitrary: p s P rule: less_induct)
  case less
  show ?case
  proof (cases p)
    case (Cons c q)
    show ?thesis
    proof (cases q)
      case Nil
      then show ?thesis using less.prems by (simp add: Cons)
    next
      case (Cons d r)
      then have "length r < length p" "length q < length p" by (simp_all add: \<open>p = c # q\<close>)
      note IH = less.hyps [OF this(1)] less.hyps [OF this(2)]
      show ?thesis
        unfolding \<open>p = c # q\<close> Cons prompt_loop.simps(2) [of env c "d # r"] list.case case_prod_beta
        by (intro wp_if wp_bind IH [unfolded Cons] prompt_item_ok wp_state) (simp_all add: less.prems)
    qed
  qed (simp add: less.prems)
qed

section \<open>The main loop\<close>

lemma line_prompt_ok [ok_intros]:
  "session_ok s \<Longrightarrow> (\<And>t s'. session_ok s' \<Longrightarrow> P (t, s')) \<Longrightarrow> wp P (line_prompt env rd s)"
  unfolding line_prompt_def construct_prompt_def by (intro wp_if prompt_loop_ok wp_state) assumption+

lemma terminal_line_ok:
  "session_ok s \<Longrightarrow> (\<And>b l rd s'. session_ok s' \<Longrightarrow> P (b, l, rd, s')) \<Longrightarrow> wp P (terminal_line env rd s)"
  unfolding terminal_line_def Let_def case_prod_beta wp_simps
  by (rule line_prompt_ok) (auto split: option.split)

lemma batch_line_ok:
  "session_ok s \<Longrightarrow> (\<And>b l rd s'. session_ok s' \<Longrightarrow> P (b, l, rd, s')) \<Longrightarrow> wp P (batch_line env rd s)"
  unfolding batch_line_def Let_def case_prod_beta
  by (rule wp_any) (auto simp: bind_eq_Some_conv split: option.splits if_splits)

context session_keeper
begin

lemma scan_line_ok:
  "session_ok s \<Longrightarrow> (\<And>b rd s'. session_ok s' \<Longrightarrow> P (b, rd, s')) \<Longrightarrow> wp P (scan_line exec line rd s)"
  unfolding scan_line_def case_prod_beta by (intro wp_bind add_line_ok) simp_all

lemma client_command_ok:
  "session_ok s \<Longrightarrow> (\<And>b rd s'. session_ok s' \<Longrightarrow> P (b, rd, s')) \<Longrightarrow> wp P (client_command exec interactive line com rd s)"
  unfolding client_command_def
  by (cases com) (auto intro!: wp_if exec_ok wp_any [of "c_func _"] split: option.split)

lemma take_line_ok:
  "session_ok s \<Longrightarrow> (\<And>b rd s'. session_ok s' \<Longrightarrow> P (b, rd, s')) \<Longrightarrow> wp P (take_line exec interactive line rd s)"
  unfolding take_line_def by (auto intro!: wp_if scan_line_ok client_command_ok split: option.split)

lemma one_line_ok:
  "session_ok s \<Longrightarrow> (\<And>b rd s'. session_ok s' \<Longrightarrow> P (b, rd, s')) \<Longrightarrow> wp P (one_line exec interactive line rd s)"
  unfolding one_line_def by (auto intro!: wp_if take_line_ok run_oracle_command_ok split: CMD_STATE.split)

lemma main_loop_result:
  assumes "main_loop env exec b rd s = Some y" and "session_ok s"
  shows "session_ok y"
proof -
  let ?P = "\<lambda>env (e :: 'w cmd) b rd s y. e = exec \<longrightarrow> session_ok s \<longrightarrow> session_ok y"
  have "?P env exec b rd s y"
  proof (rule main_loop.raw_induct [where P = ?P, OF _ assms(1)], intro impI)
    fix g :: "'w env \<Rightarrow> 'w cmd \<Rightarrow> bool \<Rightarrow> reader \<Rightarrow> 'w session \<Rightarrow> 'w session option" and env e b rd s y
    assume IH: "\<And>env e b rd s y. g env e b rd s = Some y \<Longrightarrow> e = exec \<longrightarrow> session_ok s \<longrightarrow> session_ok y"
      and body: "(if aborted s then Some s
        else do { (stop, line, rd, s) \<leftarrow> (if b then terminal_line env rd s else batch_line env rd s);
             if stop then Some s
             else case line of
                    None \<Rightarrow> Some (end_of_input s)
                  | Some l \<Rightarrow>
                      do { (stop, rd, s) \<leftarrow> one_line e b l rd s;
                           if stop then Some s else g env e b rd s } }) = Some y"
      and e: "e = exec" and ok: "session_ok s"
    have g: "wp session_ok (g env exec i rd' s')" if "session_ok s'" for i rd' s'
      using that IH by (simp add: wp_def)
    have "wp session_ok (if aborted s then Some s
        else do { (stop, line, rd, s) \<leftarrow> (if b then terminal_line env rd s else batch_line env rd s);
             if stop then Some s
             else case line of
                    None \<Rightarrow> Some (end_of_input s)
                  | Some l \<Rightarrow>
                      do { (stop, rd, s) \<leftarrow> one_line exec b l rd s;
                           if stop then Some s else g env exec b rd s } })"
      unfolding case_prod_beta using ok
      by (intro wp_if wp_bind terminal_line_ok batch_line_ok)
        (auto simp: end_of_input_def intro!: one_line_ok g split: option.split)
    then show "session_ok y" unfolding body [unfolded e] wp_simps .
  qed
  then show ?thesis using assms(2) by simp
qed

lemma read_and_execute_ok:
  "session_ok s \<Longrightarrow> (\<And>e s'. session_ok s' \<Longrightarrow> P (e, s')) \<Longrightarrow> wp P (read_and_execute env exec b s)"
  unfolding read_and_execute_def last_statement_def Let_def wp_simps
  by (rule wp_any) (auto intro!: wp_if exec_ok dest!: main_loop_result)

end

section \<open>The commands\<close>

lemma session_ok_say_error [simp]: "session_ok s \<Longrightarrow> session_ok (snd (say_error t n b s))"
  by (simp add: say_error_def case_prod_beta session_ok_screen)

lemma print_help_item_ok:
  "session_ok (snd st) \<Longrightarrow> (\<And>e s'. session_ok s' \<Longrightarrow> P (e, s')) \<Longrightarrow> wp P (print_help_item i j cur st)"
  by (auto simp: print_help_item_def case_prod_beta Let_def intro!: wp_any [of "_ ! _"] printed_ok)

lemma print_help_items_ok [ok_intros]:
  "session_ok (snd st) \<Longrightarrow> (\<And>s'. session_ok s' \<Longrightarrow> P s') \<Longrightarrow> wp P (print_help_items i j rs st)"
proof (induction rs arbitrary: st)
  case (Cons r rs)
  show ?case
    unfolding print_help_items.simps by (intro wp_bind print_help_item_ok Cons.IH) (simp_all add: Cons.prems)
qed simp

lemma help_safe [simp]: "safe_act (help_topic cur)"
  by (auto simp: help_topic_def intro!: acts_safe split: option.splits if_splits)

lemma help_list_ok [ok_intros]: "session_ok s \<Longrightarrow> (\<And>s'. session_ok s' \<Longrightarrow> P s') \<Longrightarrow> wp P (help_list env res s)"
  unfolding help_list_def Let_def by (intro wp_if wp_bind print_help_items_ok printed_ok) simp_all

lemma session_ok_help [simp]: "session_ok s \<Longrightarrow> session_ok (help_nothing c s)" "session_ok s \<Longrightarrow> session_ok (list_commands s)"
proof -
  have "session_ok s \<Longrightarrow> session_ok (fold (\<lambda>c. shown (tee_fprintf STDOUT (command_help c))) cs s)" for cs and s :: "'a session"
    by (induction cs arbitrary: s) simp_all
  then show "session_ok s \<Longrightarrow> session_ok (help_nothing c s)" "session_ok s \<Longrightarrow> session_ok (list_commands s)"
    by (simp_all add: help_nothing_def list_commands_def Let_def)
qed

lemma session_ok_settings [simp]: "session_ok s \<Longrightarrow> session_ok (snd (com_clear r s))" "session_ok s \<Longrightarrow> session_ok (snd (com_charset env line s))"
  "session_ok s \<Longrightarrow> session_ok (snd (com_warnings s))" "session_ok s \<Longrightarrow> session_ok (snd (com_nowarnings s))"
  "session_ok s \<Longrightarrow> session_ok (snd (com_quit s))" "session_ok s \<Longrightarrow> session_ok (snd (com_prompt line s))"
  by (auto simp: com_clear_def com_charset_def com_warnings_def com_nowarnings_def com_quit_def com_prompt_def
    fix_history_def Let_def case_prod_beta split: option.split)

lemma session_ok_com_delimiter [simp]: "session_ok s \<Longrightarrow> session_ok (snd (com_delimiter line s))"
proof -
  assume ok: "session_ok s"
  obtain p a where g: "get_arg (charset_info s) (strmake line 255 @ [NUL]) 0 GET = (p, a)" by (rule prod.exhaust)
  define d where "d = strmake (arg_text p a) 15"
  have "delimiter_ok d" if "arg_text p a \<noteq> []" and "strstr (arg_text p a) [BSL] = None"
  proof -
    have "BSL \<notin> set (arg_text p a)" using that(2) by (auto simp: strstr_None sublist_def in_set_conv_decomp)
    moreover have "is_cstr (arg_text p a)" by (simp add: arg_text_def split: option.split)
    ultimately show ?thesis
      using that(1) in_set_takeD [of _ 15 "arg_text p a"] by (auto simp: delimiter_ok_def d_def strmake_def is_cstr_def)
  qed
  then have "session_ok (s\<lparr>delimiter := d, is_user_specify_delimiter := (d \<noteq> '';'')\<rparr>)"
    if "arg_text p a \<noteq> []" and "strstr (arg_text p a) [BSL] = None"
    using that ok by (simp add: session_ok_def)
  then show ?thesis
    using ok by (simp add: com_delimiter_def g Let_def d_def)
qed

lemma session_ok_files [simp]: "session_ok s \<Longrightarrow> session_ok (snd (com_tee env line s))" "session_ok s \<Longrightarrow> session_ok (snd (com_notee s))"
  "session_ok s \<Longrightarrow> session_ok (snd (com_pager line s))" "session_ok s \<Longrightarrow> session_ok (snd (com_nopager s))"
  "session_ok s \<Longrightarrow> session_ok (snd (com_shell env line s))"
  by (auto simp: com_tee_def com_notee_def com_pager_def com_nopager_def com_shell_def pager_to_stdout_def set_pager_def
    to_stdout_def Let_def case_prod_beta session_ok_screen split: option.split)

lemma com_edit_ok [ok_intros]:
  "session_ok s \<Longrightarrow> (\<And>e s'. session_ok s' \<Longrightarrow> P (e, s')) \<Longrightarrow> wp P (com_edit env r s)"
  unfolding com_edit_def Let_def case_prod_beta by (auto intro!: wp_if split: option.split)

lemma session_ok_status [simp]: "session_ok s \<Longrightarrow> session_ok (out_line t s)" "session_ok s \<Longrightarrow> session_ok (status_user env s)"
  "session_ok s \<Longrightarrow> session_ok (status_charsets env s)" "session_ok s \<Longrightarrow> session_ok (status_uptime env s)"
  "session_ok s \<Longrightarrow> session_ok (snd (server_version_string env s))"
  by (auto simp: out_line_def status_user_def status_charsets_def status_uptime_def server_version_string_def Let_def case_prod_beta
    split: option.split list.split)

lemma session_ok_status_head [simp]: "session_ok s \<Longrightarrow> session_ok (status_head env s)"
  unfolding status_head_def Let_def to_stdout_def by (intro ok_if) (auto split: option.split)

lemma session_ok_status_settings [simp]: "session_ok s \<Longrightarrow> session_ok (status_settings env s)"
  unfolding status_settings_def Let_def case_prod_beta by (intro ok_if session_ok_status ok_pair_if) simp_all

lemma session_ok_status_tail [simp]: "session_ok s \<Longrightarrow> session_ok (status_tail env s)"
  unfolding status_tail_def Let_def
  by (intro session_ok_shown session_ok_status ok_if ok_case_option) simp_all

context session_keeper
begin

lemma com_server_help_ok:
  "session_ok s \<Longrightarrow> (\<And>e s'. session_ok s' \<Longrightarrow> P (e, s')) \<Longrightarrow> wp P (com_server_help env exec r a s)"
  unfolding com_server_help_def Let_def case_prod_beta
  by (rule wp_bind, rule wp_any) (intro wp_bind wp_if wp_state reconnect_ok real_query_ok help_list_ok printed_ok;
    auto intro!: wp_if help_list_ok printed_ok split: option.split)

lemma com_help_ok: "session_ok s \<Longrightarrow> (\<And>e s'. session_ok s' \<Longrightarrow> P (e, s')) \<Longrightarrow> wp P (com_help env exec r line s)"
  unfolding com_help_def Let_def
  by (intro wp_if com_server_help_ok wp_state ok_if session_ok_note_info session_ok_help) simp_all

lemma com_source_ok: "session_ok s \<Longrightarrow> (\<And>e s'. session_ok s' \<Longrightarrow> P (e, s')) \<Longrightarrow> wp P (com_source env exec line s)"
  unfolding com_source_def source_status_def restore_status_def Let_def case_prod_beta
  by (auto simp del: wp_simps(2) intro!: wp_pair wp_bind read_and_execute_ok split: option.split)

lemma select_database_ok:
  "session_ok s \<Longrightarrow> (\<And>e s'. session_ok s' \<Longrightarrow> P (e, s')) \<Longrightarrow> wp P (select_database env exec db s)"
  unfolding select_database_def case_prod_beta
  by (intro wp_bind wp_if wp_state reconnect_ok) simp_all

lemma com_use_ok: "session_ok s \<Longrightarrow> (\<And>e s'. session_ok s' \<Longrightarrow> P (e, s')) \<Longrightarrow> wp P (com_use env exec line s)"
  unfolding com_use_def Let_def case_prod_beta
  by (intro wp_bind wp_if wp_pair select_database_ok) (auto split: option.split)

lemma com_status_ok: "session_ok s \<Longrightarrow> (\<And>e s'. session_ok s' \<Longrightarrow> P (e, s')) \<Longrightarrow> wp P (com_status env exec s)"
  unfolding com_status_def Let_def case_prod_beta
  by (intro wp_bind wp_if wp_state real_query_ok) simp_all

lemma run_command_keeper: "keeper (run_command env exec)"
proof
  fix s :: "'w session" and f r a
  assume ok: "session_ok s"
  show "wp (\<lambda>(ret, s). session_ok s) (run_command env exec f r a s)"
    using ok unfolding run_command_def
    by (cases f) (auto simp: case_prod_beta intro!: com_go_ok com_ego_ok com_edit_ok com_connect_ok com_status_ok
      com_help_ok com_use_ok com_source_ok wp_any [of a])
qed

end

section \<open>The program\<close>

lemma handler_keeper: "session_keeper (handler env n)"
proof (induction n)
  case 0
  show ?case by (intro session_keeper.intro keeper.intro) simp
next
  case (Suc n)
  then show ?case using session_keeper.run_command_keeper by (simp add: session_keeper_def)
qed

interpretation kept: session_keeper "handler env n" for env n
  by (rule handler_keeper)

lemma session_ok_welcome: "session_ok s \<Longrightarrow> session_ok (welcome_user env s)"
  unfolding welcome_user_def Let_def case_prod_beta by (intro session_ok_note_info ok_pair_if) simp_all

lemma session_ok_mysql_end: "session_ok s \<Longrightarrow> session_ok (snd (mysql_end env sig s))"
  by (simp add: mysql_end_def Let_def)

lemma client_main_ok:
  assumes "session_ok s"
  shows "wp (\<lambda>(st, s). session_ok s) (client_main env (handler env n) s)"
  unfolding client_main_def Let_def case_prod_beta
  by (intro wp_bind wp_if wp_pair sql_connect_ok kept.start_login_sql_ok kept.read_and_execute_ok session_ok_mysql_end
      session_ok_note_info ok_if ok_case_option session_ok_welcome session_ok_get_current_db)
    (simp_all add: assms)

text \<open>
  C2: the state of the client stays well-formed. The delimiter is never empty, has at most 15
  characters, none of them a backslash or NUL, and the flag for a user's delimiter tells whether it
  is not the semicolon; the define character is not NUL; no variable is defined twice; and the number
  width is between 2 and 128. Every command of the table keeps this, whatever its argument and the server
  and files do, with files of commands nested to any depth, and so does the program as a whole.
\<close>

theorem session_stays_ok:
  assumes "session_ok s"
  shows "(\<forall>f r a ret s'. handler env n f r a s = Some (ret, s') \<longrightarrow> session_ok s')
    \<and> (\<forall>status s'. client_main env (handler env n) s = Some (status, s') \<longrightarrow> session_ok s')"
  using kept.exec_keeps [OF assms] client_main_ok [OF assms] by (simp add: wp_def)

lemma sample_session_ok: "session_ok (sample_session w)"
  by (simp add: session_ok_def delimiter_ok_def console_ok_def defines_ok_def is_cstr_def sample_session_def sample_oracle_def
    sample_client_def client.defs oracle_client.defs)

theorem session_stays_ok_witness:
  "\<exists>s'. handler log_env 1 Com_delimiter GLOB (Some ''delimiter //'') (sample_session ([], [])) = Some (0, s')
     \<and> delimiter s' = ''//'' \<and> session_ok s'"
proof -
  let ?s = "sample_session ([], [])"
  have cs: "charset_info ?s = my_charset_latin1"
    by (simp add: sample_session_def sample_oracle_def sample_client_def client.defs oracle_client.defs)
  have "case get_arg my_charset_latin1 (strmake ''delimiter //'' 255 @ [NUL]) 0 GET of (p, a) \<Rightarrow> arg_text p a = ''//''"
    by code_simp
  then have "com_delimiter ''delimiter //'' ?s = (0, ?s\<lparr>delimiter := ''//'', is_user_specify_delimiter := True\<rparr>)"
    by (simp add: com_delimiter_def cs case_prod_beta Let_def strmake_def)
  then have "handler log_env 1 Com_delimiter GLOB (Some ''delimiter //'') ?s =
      Some (0, ?s\<lparr>delimiter := ''//'', is_user_specify_delimiter := True\<rparr>)"
    by (simp add: run_command_def)
  then show ?thesis
    using session_stays_ok [OF sample_session_ok, of log_env 1 "([], [])"] by auto
qed

end
