(* ===== verification/Rerun.thy ===== *)
theory Rerun
  imports Outcomes Script
begin

text \<open>
  What \<^verbatim>\<open>com_go\<close> leaves in the buffer of the last statement when it is run on that buffer itself, as
  \<^verbatim>\<open>add_line\<close> does for a line with a slash.
\<close>

section \<open>Running the last statement again\<close>

text \<open>Two parts of the state: the last statement and whether there is a connection.\<close>

definition last_part :: "'w session \<Rightarrow> string \<times> bool" where
  "last_part s = (last_execute_buffer s, connected s)"

lemma last_updates [simp]:
  "last_part (s\<lparr>screen := c\<rparr>) = last_part s" "last_part (s\<lparr>current_db := d\<rparr>) = last_part s"
  "last_part (s\<lparr>dbms_stmt := b\<rparr>) = last_part s" "last_part (s\<lparr>dbms_prepared := b\<rparr>) = last_part s"
  "last_part (s\<lparr>dbms_serveroutput := b\<rparr>) = last_part s"
  by (simp_all add: last_part_def)

lemma last_say [simp]: "last_part (snd (say t ty s)) = last_part s" "last_part (note_info t ty s) = last_part s" "last_part (shown f s) = last_part s"
  "last_part (snd (put_error_text e s)) = last_part s" "last_part (snd (put_error env s)) = last_part s" "last_part (snd (put_stmt_error env s)) = last_part s"
  "last_part (snd (call env g s)) = last_part s" "last_part (sync env s w) = last_part s" "last_part (init_pager env s) = last_part s"
  "last_part (get_current_db env s) = last_part s"
  by (auto simp: say_def note_info_def shown_def put_error_text_def put_error_def put_stmt_error_def call_def sync_def init_pager_def
    get_current_db_def last_part_def Let_def case_prod_beta split: bool.split option.split list.split)

lemma last_results [simp]: "last_part (snd (snd (mysql_store_result_for_lazy env s))) = last_part s"
  "last_part (snd (snd (snd (fetch_result env e s)))) = last_part s" "last_part (show_feedback env t r s) = last_part s"
  "last_part (print_error_sqlstr p t s) = last_part s"
  by (auto simp: mysql_store_result_for_lazy_def fetch_result_def show_feedback_def print_error_sqlstr_def case_prod_beta Let_def
    split: option.split)

lemma last_stmt_calls [simp]: "last_part (snd (stmt_calls env cs s)) = last_part s"
  by (induction cs arbitrary: s) (simp_all add: case_prod_beta)

lemma printed_last: "(\<And>s'. last_part s' = last_part s \<Longrightarrow> P s') \<Longrightarrow> wp P (printed p s)"
  by (auto simp: printed_def intro!: wp_any)

lemma show_result_last:
  assumes "\<And>b e s'. last_part s' = last_part s \<Longrightarrow> P (b, e, s')"
  shows "wp P (show_result env stmt e r s)"
proof (cases r)
  case (Some res)
  show ?thesis
    unfolding show_result_def Let_def case_prod_beta Some option.case
    by (intro wp_if wp_bind printed_last) (simp_all add: assms del: prod.collapse)
qed (simp add: show_result_def assms)

lemma one_result_last: "(\<And>e n s'. last_part s' = last_part s \<Longrightarrow> P (e, n, s')) \<Longrightarrow> wp P (one_result env stmt e r s)"
  unfolding one_result_def Let_def case_prod_beta wp_simps
  by (rule show_result_last) simp

lemma result_loop_last:
  assumes "result_loop env stmt e n s = Some y"
  shows "last_part (snd (snd y)) = last_part s"
proof (rule result_loop.raw_induct [where P = "\<lambda>env stmt e n s y. last_part (snd (snd y)) = last_part s", OF _ assms])
  fix g :: "'w env \<Rightarrow> cstring \<Rightarrow> int \<Rightarrow> nat \<Rightarrow> 'w session \<Rightarrow> (int \<times> nat \<times> 'w session) option" and env stmt e n s y
  assume IH: "\<And>env stmt e n s y. g env stmt e n s = Some y \<Longrightarrow> last_part (snd (snd y)) = last_part s"
    and body: "(case fetch_result env e s of (go_on, error, result, s) \<Rightarrow>
        if \<not> go_on then Some (error, n, s)
        else
          do { (error, warnings, s) \<leftarrow> one_result env stmt error result s;
               case call env (e_next_result env) s of (err, s) \<Rightarrow>
                 if err = 0 then g env stmt error warnings s
                 else if err \<ge> 1 then (case put_error env s of (error, s) \<Rightarrow> Some (error, warnings, s))
                 else Some (error, warnings, s) }) = Some y"
  have "wp (\<lambda>y. last_part (snd (snd y)) = last_part s) (one_result env stmt err r (snd (snd (snd (fetch_result env e s)))))" for err r
    by (rule one_result_last) simp
  then show "last_part (snd (snd y)) = last_part s"
    using body IH by (cases y) (auto simp: bind_eq_Some_conv case_prod_beta wp_def split: if_splits)
qed

lemma wp_last: "last_part (snd x) = last_part s \<Longrightarrow> (\<And>e s'. last_part s' = last_part s \<Longrightarrow> P (e, s')) \<Longrightarrow> wp P (Some x)"
  by (cases x) simp

lemma last_pair_if: "last_part (snd a) = l \<Longrightarrow> last_part (snd b) = l \<Longrightarrow> last_part (snd (if c then a else b)) = l"
  by simp

lemma print_dbms_last: "(\<And>s'. last_part s' = last_part s \<Longrightarrow> P s') \<Longrightarrow> wp P (print_dbms_line env e s)"
  unfolding print_dbms_line_def Let_def case_prod_beta by (intro wp_if) simp_all

lemma get_line_last: "(\<And>e s'. last_part s' = last_part s \<Longrightarrow> P (e, s')) \<Longrightarrow> wp P (get_line_once env e s)"
  unfolding get_line_once_def Let_def case_prod_beta
  by (intro wp_if wp_bool wp_bind wp_last print_dbms_last) (simp_all add: last_pair_if del: if_split stmt_calls.simps)

lemma dbms_last:
  assumes "call_dbms_get_line env e s = Some y"
  shows "last_part y = last_part s"
proof (rule call_dbms_get_line.raw_induct [where P = "\<lambda>env e s y. last_part y = last_part s", OF _ assms])
  fix g :: "'w env \<Rightarrow> int \<Rightarrow> 'w session \<Rightarrow> 'w session option" and env e s y
  assume IH: "\<And>env e s y. g env e s = Some y \<Longrightarrow> last_part y = last_part s"
    and body: "do { (inner_error, s) \<leftarrow> get_line_once env e s;
          if inner_error = 0 \<and> fst (e_dbms_row env (world s)) = CHR ''0'' then g env e s else Some s } = Some y"
  have "wp (\<lambda>x. last_part (snd x) = last_part s) (get_line_once env e s)" by (rule get_line_last) simp
  moreover from body obtain r t where "get_line_once env e s = Some (r, t)" and "g env e t = Some y \<or> y = t"
    by (auto simp: bind_eq_Some_conv split: if_splits)
  ultimately show "last_part y = last_part s" using IH [of env e t y] by auto
qed

lemma dbms_wp: "(\<And>s'. last_part s' = last_part s \<Longrightarrow> P s') \<Longrightarrow> wp P (call_dbms_get_line env e s)"
  by (rule wp_any) (auto dest: dbms_last)

lemma real_query_last:
  assumes "\<And>w. e_errno env w \<noteq> 2006" and "\<And>e s'. last_part s' = last_part s \<Longrightarrow> P (e, s')"
  shows "wp P (mysql_real_query_for_lazy env exec q s)"
  unfolding mysql_real_query_for_lazy_def real_query_loop.simps [of env exec q 0 s] case_prod_beta
  by (intro wp_if wp_last [of _ s]) (simp_all add: assms)

lemma print_warnings_last:
  assumes "\<And>w. e_errno env w \<noteq> 2006" and "\<And>s'. last_part s' = last_part s \<Longrightarrow> P s'"
  shows "wp P (print_warnings env exec s)"
  unfolding print_warnings_def Let_def case_prod_beta
  using assms(2) by (auto intro!: wp_if wp_bind real_query_last [OF assms(1)] wp_any [of "row_code _"] printed_last split: option.split list.split)

lemma go_end_last:
  assumes "\<And>w. e_errno env w \<noteq> 2006" and "\<And>e s'. last_part s' = last_part s \<Longrightarrow> P (e, s')"
  shows "wp P (go_end env exec tx e n s)"
proof -
  define t where "t = (case ob_error_top_str s of None \<Rightarrow> s | Some topN \<Rightarrow> if e \<noteq> 0 then print_error_sqlstr tx topN s else s)"
  have t: "last_part t = last_part s" by (simp add: t_def split: option.split)
  show ?thesis
    unfolding go_end_def Let_def t_def [symmetric]
    by (auto intro!: wp_if dbms_wp print_warnings_last [OF assms(1)] assms(2) simp: t)
qed

lemma result_loop_wp: "(\<And>e n s'. last_part s' = last_part s \<Longrightarrow> P (e, n, s')) \<Longrightarrow> wp P (result_loop env stmt e n s)"
  by (rule wp_any) (auto dest: result_loop_last)

lemma last_go_done: "last_part (go_done LAST s) = ([], connected s)"
  by (simp add: go_done_def fix_history_def last_part_def get_buffer_def set_buffer_def Let_def case_prod_beta)

lemma send_last:
  assumes "\<And>w. e_errno env w \<noteq> 2006"
  shows "wp (\<lambda>(e, s'). last_execute_buffer s' = []) (send_statement env exec LAST s)"
proof -
  have l: "last_execute_buffer s' = []" if "last_part s' = last_part (go_done LAST t)" for s' t :: "'a session"
    using that unfolding last_go_done by (simp add: last_part_def)
  show ?thesis
    unfolding send_statement_def Let_def case_prod_beta
    by (auto intro!: wp_bind wp_if real_query_last [OF assms] result_loop_wp go_end_last [OF assms] l)
qed

lemma set_buffer_last [simp]: "last_execute_buffer (set_buffer LAST b s) = b" "get_buffer LAST s = last_execute_buffer s"
  by (simp_all add: set_buffer_def get_buffer_def)

lemma com_go_oracle_last: "wp (\<lambda>(go, s'). go \<or> last_execute_buffer s' = []) (com_go_oracle env exec LAST s)"
  unfolding com_go_oracle_def Let_def case_prod_beta by (auto intro!: wp_any)



end
